(* ===== verification/Prelude.thy ===== *)
theory Prelude
  imports Main "HOL-Library.Word"
begin

text \<open>
  Shared vocabulary of the development: exceptions of the server as values, transactions,
  table operations (a database table is the list of its rows, in insertion order) and the
  generic facts on them that every component uses.

  \<^item> An \<open>exn\<close> is what a handler throws: one constructor per NestJS exception class the
    sources import, \<open>DbError\<close> for an error code raised by PostgreSQL and \<open>JsError\<close> for a
    plain \<open>Error\<close>.
  \<^item> A handler has type \<open>('s, 'a) res\<close>: the outcome and the state it leaves, because an
    exception does not undo the effects that came before it.
  \<^item> \<open>transact\<close> is \<open>dataSource.transaction\<close>: on an exception the state is the one before.
  \<^item> \<open>update_rows\<close> is \<open>UPDATE .. WHERE\<close>, \<open>List.find\<close> is \<open>findOne\<close> and \<open>filter\<close> is \<open>find\<close>.
\<close>

named_theorems table_simps "rewriting of rows of tables under insertion and update"
named_theorems inv_intros "preservation of invariants by the operations"

section \<open>Outcomes\<close>

datatype exn =
    Forbidden string
  | NotFound string
  | Conflict string
  | BadRequest string
  | Unauthorized string
  | DbError string
  | JsError string

type_synonym ('s, 'a) res = "(exn + 'a) \<times> 's"

type_synonym byte = "8 word"
type_synonym bytes = "byte list"
type_synonym uuid = string

definition transact :: "('s \<Rightarrow> exn + 'a \<times> 's) \<Rightarrow> 's \<Rightarrow> ('s, 'a) res" where
  "transact body s = (case body s of Inl e \<Rightarrow> (Inl e, s) | Inr (a, s') \<Rightarrow> (Inr a, s'))"

lemma transact_error [simp]: "body s = Inl e \<Longrightarrow> transact body s = (Inl e, s)"
  by (simp add: transact_def)

lemma transact_ok [simp]: "body s = Inr (a, s') \<Longrightarrow> transact body s = (Inr a, s')"
  by (simp add: transact_def)

lemma transact_InlD: "transact body s = (Inl e, s') \<Longrightarrow> s' = s \<and> body s = Inl e"
  by (auto simp: transact_def split: sum.splits)

lemma transact_InrD: "transact body s = (Inr a, s') \<Longrightarrow> body s = Inr (a, s')"
  by (auto simp: transact_def split: sum.splits)

lemma transact_preserves:
  assumes "P s" and "\<And>a s'. body s = Inr (a, s') \<Longrightarrow> P s'"
  shows "P (snd (transact body s))"
  using assms by (auto simp: transact_def split: sum.splits)

lemma run_Inr: "\<not> isl (fst x) \<Longrightarrow> \<exists>a s. x = (Inr a, s)"
  by (cases x; cases "fst x") auto

section \<open>Rows\<close>

definition update_rows :: "('r \<Rightarrow> bool) \<Rightarrow> ('r \<Rightarrow> 'r) \<Rightarrow> 'r list \<Rightarrow> 'r list" where
  "update_rows p f rows = map (\<lambda>r. if p r then f r else r) rows"

lemma update_rows_Nil [simp]: "update_rows p f [] = []"
  by (simp add: update_rows_def)

lemma update_rows_Cons [simp]:
  "update_rows p f (r # rows) = (if p r then f r else r) # update_rows p f rows"
  by (simp add: update_rows_def)

lemma update_rows_append [simp]:
  "update_rows p f (xs @ ys) = update_rows p f xs @ update_rows p f ys"
  by (simp add: update_rows_def)

lemma length_update_rows [simp]: "length (update_rows p f rows) = length rows"
  by (simp add: update_rows_def)

lemma set_update_rows:
  "set (update_rows p f rows) = (\<lambda>r. if p r then f r else r) ` set rows"
  by (simp add: update_rows_def)

lemma in_update_rowsE:
  assumes "r \<in> set (update_rows p f rows)"
  obtains r0 where "r0 \<in> set rows" "r = (if p r0 then f r0 else r0)"
  using assms by (auto simp: set_update_rows)

lemma in_update_rowsI:
  "r \<in> set rows \<Longrightarrow> (if p r then f r else r) \<in> set (update_rows p f rows)"
  by (auto simp: set_update_rows)

lemma map_update_rows [table_simps]:
  "(\<And>r. key (f r) = key r) \<Longrightarrow> map key (update_rows p f rows) = map key rows"
  by (induction rows) auto

lemma filter_update_rows [table_simps]:
  "(\<And>r. q (f r) = q r) \<Longrightarrow>
   filter q (update_rows p f rows) = update_rows p f (filter q rows)"
  by (induction rows) auto

lemma map_filter_update_rows [table_simps]:
  "(\<And>r. q (f r) = q r) \<Longrightarrow> (\<And>r. key (f r) = key r) \<Longrightarrow>
   map key (filter q (update_rows p f rows)) = map key (filter q rows)"
  by (induction rows) auto

lemma find_update_rows:
  "(\<And>r. q (f r) = q r) \<Longrightarrow>
   find q (update_rows p f rows) = map_option (\<lambda>r. if p r then f r else r) (find q rows)"
  by (induction rows) auto

lemma update_rows_none:
  "(\<And>r. r \<in> set rows \<Longrightarrow> \<not> p r) \<Longrightarrow> update_rows p f rows = rows"
  by (induction rows) auto

lemma update_rows_cong_fun:
  "(\<And>r. r \<in> set rows \<Longrightarrow> p r \<Longrightarrow> f r = g r) \<Longrightarrow> update_rows p f rows = update_rows p g rows"
  by (induction rows) auto

lemma find_SomeD: "find p xs = Some x \<Longrightarrow> x \<in> set xs \<and> p x"
  by (auto simp: find_Some_iff)

lemma find_NoneD: "find p xs = None \<Longrightarrow> x \<in> set xs \<Longrightarrow> \<not> p x"
  by (auto simp: find_None_iff)

lemma find_append: "find p (xs @ ys) = (case find p xs of None \<Rightarrow> find p ys | Some x \<Rightarrow> Some x)"
  by (induction xs) auto

text \<open>Rows are determined by a unique key.\<close>

lemma distinct_map_inj:
  "distinct (map key rows) \<Longrightarrow> r \<in> set rows \<Longrightarrow> r' \<in> set rows \<Longrightarrow> key r = key r' \<Longrightarrow> r = r'"
  by (auto simp: distinct_map inj_on_def)

lemma find_unique:
  assumes "distinct (map key rows)" "r \<in> set rows" "key r = k"
  shows "find (\<lambda>x. key x = k) rows = Some r"
  using assms by (induction rows) (auto simp: rev_image_eqI)

lemma distinct_map_filter_append:
  "distinct (map key (filter q (rows @ [r]))) \<longleftrightarrow>
   (if q r then distinct (map key (filter q rows)) \<and> key r \<notin> key ` {x \<in> set rows. q x}
    else distinct (map key (filter q rows)))"
  by auto

section \<open>Optional values\<close>

text \<open>JavaScript's \<open>??\<close>: the default replaces an absent value only.\<close>

definition coalesce :: "'a option \<Rightarrow> 'a \<Rightarrow> 'a" where
  "coalesce x d = (case x of None \<Rightarrow> d | Some v \<Rightarrow> v)"

lemma coalesce_simps [simp]: "coalesce None d = d" "coalesce (Some v) d = v"
  by (simp_all add: coalesce_def)

text \<open>The truth value of an optional string: absent and empty are both falsy.\<close>

definition truthy :: "string option \<Rightarrow> bool" where
  "truthy s = (case s of None \<Rightarrow> False | Some t \<Rightarrow> t \<noteq> [])"

lemma truthy_simps [simp]: "\<not> truthy None" "truthy (Some t) \<longleftrightarrow> t \<noteq> []"
  by (simp_all add: truthy_def)

end
