(* ===== verification/Js_Text.thy ===== *)
theory Js_Text
  imports Prelude
begin

text \<open>
  The JavaScript text operations the sources use: character classes, \<open>trim\<close>,
  \<open>toLowerCase\<close>, \<open>split\<close>, \<open>slice\<close> and regular expressions with the backtracking, greedy
  semantics of ECMAScript. A string is a list of UTF-16 code units; the model covers the
  code units below 256 (an accented letter is one \<open>char\<close>), on which \<open>\w\<close>, \<open>\d\<close>, \<open>\s\<close> and
  case-insensitive matching of ASCII letters agree with the language.
\<close>

section \<open>Characters\<close>

definition code :: "char \<Rightarrow> nat" where
  "code c = of_char c"

definition is_digit :: "char \<Rightarrow> bool" where
  "is_digit c = (let n = code c in 48 \<le> n \<and> n \<le> 57)"

definition is_upper :: "char \<Rightarrow> bool" where
  "is_upper c = (let n = code c in 65 \<le> n \<and> n \<le> 90)"

definition is_lower :: "char \<Rightarrow> bool" where
  "is_lower c = (let n = code c in 97 \<le> n \<and> n \<le> 122)"

definition is_word :: "char \<Rightarrow> bool" where
  "is_word c = (is_digit c \<or> is_upper c \<or> is_lower c \<or> c = CHR ''_'')"

definition is_space :: "char \<Rightarrow> bool" where
  "is_space c = (let n = code c in (9 \<le> n \<and> n \<le> 13) \<or> n = 32 \<or> n = 160)"

definition lower_char :: "char \<Rightarrow> char" where
  "lower_char c =
     (if is_upper c \<or> (let n = code c in 192 \<le> n \<and> n \<le> 222 \<and> n \<noteq> 215)
      then char_of (code c + 32) else c)"

definition to_lower :: "string \<Rightarrow> string" where
  "to_lower s = map lower_char s"

definition js_trim :: "string \<Rightarrow> string" where
  "js_trim s = rev (dropWhile is_space (rev (dropWhile is_space s)))"

definition digit_val :: "char \<Rightarrow> nat" where
  "digit_val c = code c - 48"

text \<open>\<open>s.split(sep)\<close> for a separator that is not empty.\<close>

fun strip_prefix :: "string \<Rightarrow> string \<Rightarrow> string option" where
  "strip_prefix [] s = Some s"
| "strip_prefix (p # ps) [] = None"
| "strip_prefix (p # ps) (c # s) = (if p = c then strip_prefix ps s else None)"

lemma strip_prefix_Some: "strip_prefix p s = Some t \<longleftrightarrow> s = p @ t"
  by (induction p s rule: strip_prefix.induct) auto

function js_split_aux :: "string \<Rightarrow> string \<Rightarrow> string \<Rightarrow> string list" where
  "js_split_aux sep acc [] = [rev acc]"
| "js_split_aux sep acc (c # s) =
     (case strip_prefix sep (c # s) of
        Some rest \<Rightarrow> if length rest < length (c # s)
                     then rev acc # js_split_aux sep [] rest
                     else [rev acc]
      | None \<Rightarrow> js_split_aux sep (c # acc) s)"
  by pat_completeness auto
termination
  by (relation "measure (\<lambda>(sep, acc, s). length s)") auto

definition js_split :: "string \<Rightarrow> string \<Rightarrow> string list" where
  "js_split sep s = js_split_aux sep [] s"

text \<open>\<open>parseInt(s, 10)\<close>: the longest numeric prefix after white space and a sign, or NaN.\<close>

fun digits_val :: "nat \<Rightarrow> string \<Rightarrow> nat" where
  "digits_val acc [] = acc"
| "digits_val acc (c # s) = digits_val (acc * 10 + digit_val c) s"

definition parse_int :: "string \<Rightarrow> int option" where
  "parse_int s =
     (let s1 = dropWhile is_space s;
          neg = (s1 \<noteq> [] \<and> hd s1 = CHR ''-'');
          s2 = (if s1 \<noteq> [] \<and> (hd s1 = CHR ''-'' \<or> hd s1 = CHR ''+'') then tl s1 else s1);
          ds = takeWhile is_digit s2
      in if ds = [] then None
         else Some (if neg then - int (digits_val 0 ds) else int (digits_val 0 ds)))"

section \<open>Regular expressions\<close>

text \<open>
  \<open>Cls\<close> is a character class, \<open>Rep lo hi r\<close> the greedy \<open>r{lo,hi}\<close>, \<open>Star p\<close> the greedy
  \<open>[p]*\<close> of a class, \<open>WordB\<close> the assertion \<open>\b\<close>, \<open>Bol\<close> and \<open>Eol\<close> the anchors.
\<close>

datatype re =
    Cls "char \<Rightarrow> bool"
  | Eps
  | Cat re re
  | Alt re re
  | Rep nat nat re
  | Star "char \<Rightarrow> bool"
  | WordB
  | Bol
  | Eol

primrec re_size :: "re \<Rightarrow> nat" where
  "re_size (Cls p) = 0"
| "re_size Eps = 0"
| "re_size (Cat r1 r2) = Suc (re_size r1 + re_size r2)"
| "re_size (Alt r1 r2) = Suc (re_size r1 + re_size r2)"
| "re_size (Rep lo hi r) = Suc (hi + re_size r)"
| "re_size (Star p) = 0"
| "re_size WordB = 0"
| "re_size Bol = 0"
| "re_size Eol = 0"

text \<open>A position: the character before it, if any, and the text after it.\<close>

type_synonym pos = "char option \<times> string"

definition word_before :: "pos \<Rightarrow> bool" where
  "word_before x = (case fst x of None \<Rightarrow> False | Some c \<Rightarrow> is_word c)"

definition word_after :: "pos \<Rightarrow> bool" where
  "word_after x = (case snd x of [] \<Rightarrow> False | c # _ \<Rightarrow> is_word c)"

text \<open>
  The matcher in continuation style, as in ECMA-262: \<open>k\<close> is what remains to be matched, and
  a \<open>None\<close> makes the last choice point try its next alternative. A bounded repetition whose
  minimum is met refuses an empty iteration.
\<close>

function (sequential) m_re :: "re \<Rightarrow> (pos \<Rightarrow> pos option) \<Rightarrow> pos \<Rightarrow> pos option" where
  "m_re Eps k x = k x"
| "m_re (Cls p) k (b, []) = None"
| "m_re (Cls p) k (b, c # s) = (if p c then k (Some c, s) else None)"
| "m_re (Cat r1 r2) k x = m_re r1 (m_re r2 k) x"
| "m_re (Alt r1 r2) k x = (case m_re r1 k x of Some y \<Rightarrow> Some y | None \<Rightarrow> m_re r2 k x)"
| "m_re (Rep lo 0 r) k x = (if lo = 0 then k x else None)"
| "m_re (Rep lo (Suc hi) r) k x =
     (case m_re r (\<lambda>y. if lo = 0 \<and> length (snd y) = length (snd x) then None
                        else m_re (Rep (lo - 1) hi r) k y) x of
        Some y \<Rightarrow> Some y
      | None \<Rightarrow> if lo = 0 then k x else None)"
| "m_re (Star p) k (b, []) = k (b, [])"
| "m_re (Star p) k (b, c # s) =
     (if p c then (case m_re (Star p) k (Some c, s) of Some y \<Rightarrow> Some y | None \<Rightarrow> k (b, c # s))
      else k (b, c # s))"
| "m_re WordB k x = (if word_before x \<noteq> word_after x then k x else None)"
| "m_re Bol k x = (if fst x = None then k x else None)"
| "m_re Eol k x = (if snd x = [] then k x else None)"
  by pat_completeness auto
termination
  by (relation "measures [\<lambda>(r, k, x). re_size r, \<lambda>(r, k, x). length (snd x)]") auto

definition plus :: "(char \<Rightarrow> bool) \<Rightarrow> re" where
  "plus p = Cat (Cls p) (Star p)"

definition opt :: "re \<Rightarrow> re" where
  "opt r = Rep 0 1 r"

definition times :: "nat \<Rightarrow> re \<Rightarrow> re" where
  "times n r = Rep n n r"

fun lit :: "string \<Rightarrow> re" where
  "lit [] = Eps"
| "lit (c # s) = Cat (Cls (\<lambda>a. a = c)) (lit s)"

text \<open>The flag \<open>i\<close> on a class of ASCII letters.\<close>

definition ci :: "(char \<Rightarrow> bool) \<Rightarrow> char \<Rightarrow> bool" where
  "ci p c = (p c \<or> (is_upper c \<and> p (char_of (code c + 32)))
                 \<or> (is_lower c \<and> p (char_of (code c - 32))))"

definition match_at :: "re \<Rightarrow> pos \<Rightarrow> pos option" where
  "match_at r x = m_re r (\<lambda>y. Some y) x"

fun search_re :: "re \<Rightarrow> char option \<Rightarrow> string \<Rightarrow> (pos \<times> pos) option" where
  "search_re r b [] = (case match_at r (b, []) of None \<Rightarrow> None | Some y \<Rightarrow> Some ((b, []), y))"
| "search_re r b (c # s) =
     (case match_at r (b, c # s) of Some y \<Rightarrow> Some ((b, c # s), y)
      | None \<Rightarrow> search_re r (Some c) s)"

definition test_re :: "re \<Rightarrow> string \<Rightarrow> bool" where
  "test_re r s = (search_re r None s \<noteq> None)"

text \<open>
  \<open>s.replace(/r/g, f)\<close>, where the callback also reads and writes a state. An empty match
  inserts the callback's text and moves on by one character.
\<close>

function replace_g ::
  "re \<Rightarrow> (string \<Rightarrow> 'st \<Rightarrow> string \<times> 'st) \<Rightarrow> char option \<Rightarrow> string \<Rightarrow> 'st \<Rightarrow> string \<times> 'st" where
  "replace_g r f b s st =
     (case match_at r (b, s) of
        Some (b', s') \<Rightarrow>
          if length s' < length s then
            (let (t, st1) = f (take (length s - length s') s) st;
                 (u, st2) = replace_g r f b' s' st1
             in (t @ u, st2))
          else
            (let (t, st1) = f [] st in
             case s of [] \<Rightarrow> (t, st1)
             | c # s1 \<Rightarrow> (let (u, st2) = replace_g r f (Some c) s1 st1 in (t @ c # u, st2)))
      | None \<Rightarrow>
          (case s of [] \<Rightarrow> ([], st)
           | c # s1 \<Rightarrow> (let (u, st2) = replace_g r f (Some c) s1 st in (c # u, st2))))"
  by pat_completeness auto
termination
  by (relation "measure (\<lambda>(r, f, b, s, st). length s)") auto

declare replace_g.simps [simp del]

section \<open>Facts on matching and replacing\<close>

text \<open>A match consumes a prefix: what is left is a suffix of the text.\<close>

lemma m_re_suffix:
  assumes "\<And>y z. k y = Some z \<Longrightarrow> \<exists>u. snd y = u @ snd z"
    and "m_re r k x = Some z"
  shows "\<exists>u. snd x = u @ snd z"
  using assms
proof (induction r k x arbitrary: z rule: m_re.induct)
  case (4 r1 r2 k x)
  show ?case
    by (rule "4.IH"(2) [OF _ "4.prems"(2) [unfolded m_re.simps]])
      (rule "4.IH"(1) [OF "4.prems"(1)])
next
  case (5 r1 r2 k x)
  then show ?case by (auto split: option.splits)
next
  case (7 lo hi r k x)
  let ?k = "\<lambda>y. if lo = 0 \<and> length (snd y) = length (snd x) then None
                else m_re (Rep (lo - 1) hi r) k y"
  show ?case
  proof (cases "m_re r ?k x")
    case None
    with "7.prems" show ?thesis by (auto split: if_splits)
  next
    case (Some y)
    have "\<exists>u. snd x = u @ snd y"
    proof (rule "7.IH"(2) [OF _ Some])
      fix y1 z1
      assume "?k y1 = Some z1"
      then show "\<exists>u. snd y1 = u @ snd z1"
        using "7.IH"(1) [of y1] "7.prems"(1) by (auto split: if_splits)
    qed
    with Some "7.prems"(2) show ?thesis by simp
  qed
next
  case (9 p k b c s)
  show ?case
  proof (cases "p c \<and> m_re (Star p) k (Some c, s) \<noteq> None")
    case True
    then obtain y where y: "p c" "m_re (Star p) k (Some c, s) = Some y" by auto
    with "9.prems"(2) have "z = y" by simp
    moreover have "\<exists>u. s = u @ snd y"
      using "9.IH" [OF y(1) "9.prems"(1) y(2)] by simp
    ultimately show ?thesis by (auto intro: exI [of _ "c # _"])
  next
    case False
    with "9.prems"(2) have "k (b, c # s) = Some z" by (auto split: if_splits option.splits)
    with "9.prems"(1) show ?thesis by fastforce
  qed
next
  case (3 p k b c s)
  then have "k (Some c, s) = Some z" by (auto split: if_splits)
  with "3.prems"(1) have "\<exists>u. s = u @ snd z" by fastforce
  then show ?case by (auto intro: exI [of _ "c # _"])
qed (fastforce split: if_splits)+

lemma match_at_suffix: "match_at r (b, s) = Some (b', s') \<Longrightarrow> \<exists>u. s = u @ s'"
  unfolding match_at_def by (drule m_re_suffix [rotated]) auto

lemma match_at_take:
  "match_at r (b, s) = Some (b', s') \<Longrightarrow> take (length s - length s') s @ s' = s"
  by (auto dest: match_at_suffix)

text \<open>
  A callback is \<open>honest\<close> for a flag when it returns the match unchanged unless it raises that
  flag, and never lowers one. Replacing with an honest callback that did not raise its flag
  left the text as it was.
\<close>

definition honest :: "'f \<Rightarrow> (string \<Rightarrow> 'f list \<Rightarrow> string \<times> 'f list) \<Rightarrow> bool" where
  "honest x f \<longleftrightarrow> (\<forall>m st. set st \<subseteq> set (snd (f m st)) \<and> set (snd (f m st)) \<subseteq> insert x (set st)
     \<and> (x \<notin> set (snd (f m st)) \<longrightarrow> f m st = (m, st)) \<and> (distinct st \<longrightarrow> distinct (snd (f m st))))"

lemma honestD:
  assumes "honest x f" "f m st = (t, st')"
  shows "set st \<subseteq> set st'" "set st' \<subseteq> insert x (set st)" "distinct st \<Longrightarrow> distinct st'"
    and "x \<notin> set st' \<Longrightarrow> t = m \<and> st' = st"
  using assms(1)[unfolded honest_def, rule_format, of st m] assms(2) by auto

text \<open>
  One step of a replacement, and the induction rule it gives: the text is exhausted, a
  character is skipped, a match is replaced, or an empty match inserts text.
\<close>

lemma replace_g_none_Nil: "match_at r (b, []) = None \<Longrightarrow> replace_g r f b [] st = ([], st)"
  by (subst replace_g.simps) simp

lemma replace_g_none_Cons:
  "match_at r (b, c # s) = None \<Longrightarrow>
   replace_g r f b (c # s) st =
     (c # fst (replace_g r f (Some c) s st), snd (replace_g r f (Some c) s st))"
  by (subst replace_g.simps) (simp add: case_prod_unfold Let_def)

lemma replace_g_match:
  "match_at r (b, u @ s') = Some (b', s') \<Longrightarrow> u \<noteq> [] \<Longrightarrow>
   replace_g r f b (u @ s') st =
     (fst (f u st) @ fst (replace_g r f b' s' (snd (f u st))),
      snd (replace_g r f b' s' (snd (f u st))))"
  by (subst replace_g.simps) (simp add: case_prod_unfold Let_def)

lemma replace_g_empty_Nil:
  "match_at r (b, []) = Some (b', s') \<Longrightarrow> replace_g r f b [] st = f [] st"
  by (subst replace_g.simps) (simp add: case_prod_unfold Let_def)

lemma replace_g_empty_Cons:
  "match_at r (b, c # s) = Some (b', s') \<Longrightarrow> \<not> length s' < length (c # s) \<Longrightarrow>
   replace_g r f b (c # s) st =
     (fst (f [] st) @ c # fst (replace_g r f (Some c) s (snd (f [] st))),
      snd (replace_g r f (Some c) s (snd (f [] st))))"
  by (subst replace_g.simps) (simp add: case_prod_unfold Let_def)

lemma replace_g_rule [case_names finish skip hit stop insert]:
  fixes f :: "string \<Rightarrow> 'st \<Rightarrow> string \<times> 'st"
  assumes finish: "\<And>b st. P b [] st ([], st)"
    and skip: "\<And>b c s st res. match_at r (b, c # s) = None \<Longrightarrow> P (Some c) s st res \<Longrightarrow>
        P b (c # s) st (c # fst res, snd res)"
    and hit: "\<And>b b' u s' st res. match_at r (b, u @ s') = Some (b', s') \<Longrightarrow> u \<noteq> [] \<Longrightarrow>
        P b' s' (snd (f u st)) res \<Longrightarrow> P b (u @ s') st (fst (f u st) @ fst res, snd res)"
    and stop: "\<And>b st. P b [] st (f [] st)"
    and insert: "\<And>b c s st res. P (Some c) s (snd (f [] st)) res \<Longrightarrow>
        P b (c # s) st (fst (f [] st) @ c # fst res, snd res)"
  shows "P b s st (replace_g r f b s st)"
proof (induction "length s" arbitrary: b s st rule: less_induct)
  case less
  show ?case
  proof (cases "match_at r (b, s)")
    case None
    then show ?thesis
      by (cases s) (auto simp: replace_g_none_Nil replace_g_none_Cons intro!: finish skip less)
  next
    case (Some y)
    obtain b' s' where y: "y = (b', s')" by (cases y)
    with Some obtain u where u: "s = u @ s'" by (auto dest: match_at_suffix)
    show ?thesis
    proof (cases "u = []")
      case True
      show ?thesis
      proof (cases s)
        case Nil
        with Some y show ?thesis by (simp add: replace_g_empty_Nil stop)
      next
        case (Cons c s1)
        have "P (Some c) s1 (snd (f [] st)) (replace_g r f (Some c) s1 (snd (f [] st)))"
          by (rule less) (simp add: Cons)
        moreover have "replace_g r f b s st =
            (fst (f [] st) @ c # fst (replace_g r f (Some c) s1 (snd (f [] st))),
             snd (replace_g r f (Some c) s1 (snd (f [] st))))"
          using replace_g_empty_Cons [of r b c s1 b' s'] Some y u True Cons by auto
        ultimately show ?thesis by (simp add: Cons insert)
      qed
    next
      case False
      with Some y u show ?thesis
        by (auto simp: replace_g_match intro!: hit less)
    qed
  qed
qed

lemma replace_g_flags:
  assumes "honest x f"
  shows "set st \<subseteq> set (snd (replace_g r f b s st)) \<and>
         set (snd (replace_g r f b s st)) \<subseteq> insert x (set st) \<and>
         (distinct st \<longrightarrow> distinct (snd (replace_g r f b s st)))"
proof -
  have up: "\<And>u st. set st \<subseteq> set (snd (f u st))"
    and new: "\<And>u st. set (snd (f u st)) \<subseteq> insert x (set st)"
    and dist: "\<And>u st. distinct st \<Longrightarrow> distinct (snd (f u st))"
    using assms by (auto simp: honest_def)
  show ?thesis
  proof (rule replace_g_rule [of "\<lambda>b s st res. set st \<subseteq> set (snd res) \<and>
         set (snd res) \<subseteq> insert x (set st) \<and> (distinct st \<longrightarrow> distinct (snd res))"], goal_cases)
    case (3 b b' u s' st res)
    then show ?case using up [of st u] new [of u st] dist [of st u] by auto
  next
    case (5 b c s st res)
    then show ?case using up [of st "[]"] new [of "[]" st] dist [of st "[]"] by auto
  qed (use up new dist in auto)
qed

lemma replace_g_unflagged:
  assumes "honest x f"
  shows "x \<notin> set (snd (replace_g r f b s st)) \<longrightarrow> replace_g r f b s st = (s, st)"
proof -
  have mono: "\<And>u st. set st \<subseteq> set (snd (f u st))"
    and same: "\<And>u st. x \<notin> set (snd (f u st)) \<Longrightarrow> f u st = (u, st)"
    using assms by (auto simp: honest_def)
  have "set st \<subseteq> set (snd (replace_g r f b s st)) \<and>
      (x \<notin> set (snd (replace_g r f b s st)) \<longrightarrow> replace_g r f b s st = (s, st))"
  proof (rule replace_g_rule [of "\<lambda>b s st res. set st \<subseteq> set (snd res) \<and>
        (x \<notin> set (snd res) \<longrightarrow> res = (s, st))"], goal_cases)
    case (3 b b' u s' st res)
    then show ?case using mono [of st u] same [of u st] by auto
  next
    case (5 b c s st res)
    then show ?case using mono [of st "[]"] same [of "[]" st] by auto
  qed (use mono same in auto)
  then show ?thesis by blast
qed

end
