(* ===== verification/World.thy ===== *)
theory World
  imports Js_Text
begin

text \<open>
  The data of the server: the entities (backend/src/modules/*/entities), the unique
  constraints of the migrations (backend/src/database/migrations), the configuration read
  through \<open>ConfigService\<close> with the defaults of backend/src/config/env.validation.ts, and the
  state of the services around the database (Redis, sockets, metrics, mail, NATS,
  OpenSearch, S3).

  A table is the list of its rows in insertion order. A \<open>bigint\<close> column is an \<open>int\<close>, a
  timestamp the number of milliseconds since the epoch. Foreign keys and column lengths
  are not checked by the insertions here, except the two lengths of \<open>messages\<close> that an input
  can exceed (see \<open>Messages\<close>).
\<close>

section \<open>Enumerations\<close>

datatype user_role = Customer | Seller | Support | Admin

datatype conv_status = Open | Closed | Archived

datatype msg_status = Sent | Deleted | Hidden | Flagged

datatype body_format = Plain_text | Markdown

datatype order_status = OOpen | Shipped | Delivered | Cancelled | Refunded | OClosed

datatype scan_status = Pending | Clean | Infected | Failed

datatype report_status = ROpen | Reviewed | Dismissed | Actioned

datatype mls_kind = Welcome | Commit | Application | Proposal | Group_info

text \<open>The string values of a role, in the order of the union type.\<close>

fun role_string :: "user_role \<Rightarrow> string" where
  "role_string Customer = ''customer''"
| "role_string Seller = ''seller''"
| "role_string Support = ''support''"
| "role_string Admin = ''admin''"

instantiation user_role :: enum
begin
definition "enum_user_role = [Customer, Seller, Support, Admin]"
definition "enum_all_user_role P \<longleftrightarrow> P Customer \<and> P Seller \<and> P Support \<and> P Admin"
definition "enum_ex_user_role P \<longleftrightarrow> P Customer \<or> P Seller \<or> P Support \<or> P Admin"
instance
proof
  show univ: "(UNIV :: user_role set) = set enum_class.enum"
    by (auto simp: enum_user_role_def) (metis user_role.exhaust)
  show "distinct (enum_class.enum :: user_role list)"
    by (simp add: enum_user_role_def)
  fix P :: "user_role \<Rightarrow> bool"
  show "enum_class.enum_all P \<longleftrightarrow> Ball UNIV P"
    by (auto simp: enum_all_user_role_def) (metis user_role.exhaust)
  show "enum_class.enum_ex P \<longleftrightarrow> Bex UNIV P"
    by (auto simp: enum_ex_user_role_def) (metis user_role.exhaust)
qed
end

section \<open>Rows\<close>

record user_row =
  us_id :: uuid
  us_email :: string
  us_passwordHash :: string
  us_role :: user_role
  us_displayName :: "string option"
  us_mfaSecret :: "string option"
  us_isSuspended :: bool
  us_anonymizedAt :: "int option"
  us_dataExportRequestedAt :: "int option"
  us_createdAt :: int

record order_row =
  or_id :: uuid
  or_externalRef :: string
  or_customerId :: uuid
  or_sellerId :: uuid
  or_status :: order_status
  or_totalCents :: int
  or_currency :: string
  or_createdAt :: int

record conv_row =
  cv_id :: uuid
  cv_orderId :: uuid
  cv_status :: conv_status
  cv_subject :: "string option"
  cv_lastMessageAt :: "int option"
  cv_lastSequence :: int
  cv_createdAt :: int
  cv_searchIndexed :: bool
  cv_searchIndexedAt :: "int option"
  cv_e2eeEnabled :: bool
  cv_e2eeEnabledAt :: "int option"

record part_row =
  pt_conversationId :: uuid
  pt_userId :: uuid
  pt_role :: user_role
  pt_joinedAt :: int
  pt_leftAt :: "int option"
  pt_muted :: bool
  pt_lastReadSequence :: int

record msg_row =
  ms_id :: uuid
  ms_conversationId :: uuid
  ms_senderId :: uuid
  ms_sequence :: int
  ms_body :: "string option"
  ms_bodyCiphertext :: "bytes option"
  ms_bodyDekId :: "string option"
  ms_bodyAlg :: "string option"
  ms_bodyIv :: "bytes option"
  ms_bodyTag :: "bytes option"
  ms_bodyFormat :: body_format
  ms_status :: msg_status
  ms_idempotencyKey :: "string option"
  ms_moderationFlags :: "string list option"
  ms_moderationScore10 :: nat
  ms_moderatedBy :: "uuid option"
  ms_moderatedAt :: "int option"
  ms_createdAt :: int
  ms_editedAt :: "int option"
  ms_deletedAt :: "int option"

record receipt_row =
  rc_messageId :: uuid
  rc_userId :: uuid
  rc_deliveredAt :: "int option"
  rc_readAt :: "int option"

record created_payload =
  cp_messageId :: uuid
  cp_conversationId :: uuid
  cp_senderId :: uuid
  cp_sequence :: int
  cp_createdAt :: int
  cp_body :: string
  cp_moderationFlags :: "string list option"
  cp_recipients :: "uuid list"

datatype payload = Created created_payload | ReadUpto uuid uuid string

record outbox_row =
  ob_id :: uuid
  ob_eventType :: string
  ob_aggregateId :: uuid
  ob_payload :: payload
  ob_processedAt :: "int option"
  ob_createdAt :: int
  ob_attempts :: nat
  ob_nextAttemptAt :: int
  ob_lastError :: "string option"

datatype json = JStr string | JNum int | JArr "string list"

record audit_row =
  au_actorId :: "uuid option"
  au_action :: string
  au_targetType :: string
  au_targetId :: "uuid option"
  au_metadata :: "(string \<times> json) list option"

record report_row =
  rp_id :: uuid
  rp_messageId :: uuid
  rp_reporterId :: uuid
  rp_reason :: string
  rp_details :: "string option"
  rp_status :: report_status
  rp_resolvedBy :: "uuid option"
  rp_resolvedAt :: "int option"
  rp_createdAt :: int

record token_row =
  rt_id :: uuid
  rt_userId :: uuid
  rt_tokenHash :: string
  rt_parentId :: "uuid option"
  rt_userAgent :: "string option"
  rt_ip :: "string option"
  rt_expiresAt :: int
  rt_revokedAt :: "int option"
  rt_revokedReason :: "string option"

record email_row =
  em_userId :: uuid
  em_conversationId :: "uuid option"
  em_kind :: string
  em_sentAt :: int
  em_dedupKey :: string

record kp_row =
  kp_id :: uuid
  kp_userId :: uuid
  kp_deviceId :: string
  kp_cipherSuite :: string
  kp_keyPackage :: bytes
  kp_consumedAt :: "int option"
  kp_consumedBy :: "uuid option"
  kp_expiresAt :: int
  kp_createdAt :: int

record group_row =
  gr_id :: uuid
  gr_conversationId :: uuid
  gr_groupIdMls :: bytes
  gr_cipherSuite :: string
  gr_epoch :: int
  gr_createdBy :: uuid

record mls_row =
  ml_id :: uuid
  ml_groupId :: uuid
  ml_senderUserId :: "uuid option"
  ml_senderDeviceId :: "string option"
  ml_kind :: mls_kind
  ml_epoch :: int
  ml_sequence :: int
  ml_targetUserId :: "uuid option"
  ml_ciphertext :: bytes
  ml_createdAt :: int

record att_row =
  at_id :: uuid
  at_messageId :: "uuid option"
  at_conversationId :: uuid
  at_uploaderId :: uuid
  at_objectKey :: string
  at_originalFilename :: string
  at_mimeType :: string
  at_sizeBytes :: int
  at_scanStatus :: scan_status
  at_createdAt :: int

section \<open>The services around the database\<close>

datatype emission =
    EmitCreated string uuid uuid uuid int string int
  | EmitDeleted string uuid uuid int
  | EmitRead string uuid uuid string

record metric =
  mt_at :: int
  mt_name :: string
  mt_value :: int
  mt_unit :: string
  mt_dimensions :: "(string \<times> string) list option"

record mail =
  ml_to :: string
  ml_subject :: string
  ml_text :: string

record index_doc =
  ix_messageId :: uuid
  ix_conversationId :: uuid
  ix_sequence :: int
  ix_senderId :: uuid
  ix_createdAt :: int
  ix_content :: string
  ix_participants :: "uuid list"

record nats_msg =
  na_subject :: string
  na_msgId :: uuid
  na_data :: payload

record config =
  cf_production :: bool
  cf_encryptBody :: bool
  cf_maxMessageLength :: nat
  cf_maxAttachmentMb :: int
  cf_wsEventsPerMinute :: nat
  cf_clamavEnabled :: bool
  cf_emailDriverLog :: bool
  cf_emailThrottleMinutes :: int
  cf_appUrl :: string
  cf_metricsEnabled :: bool
  cf_natsEnabled :: bool
  cf_wsGatewayDedicated :: bool
  cf_searchEnabled :: bool
  cf_accessTtl :: int
  cf_refreshTtl :: int

definition default_config :: config where
  "default_config =
     \<lparr>cf_production = False, cf_encryptBody = True, cf_maxMessageLength = 4000,
      cf_maxAttachmentMb = 10, cf_wsEventsPerMinute = 120, cf_clamavEnabled = False,
      cf_emailDriverLog = True, cf_emailThrottleMinutes = 10,
      cf_appUrl = ''http://localhost:8080'', cf_metricsEnabled = False,
      cf_natsEnabled = False, cf_wsGatewayDedicated = False, cf_searchEnabled = False,
      cf_accessTtl = 900, cf_refreshTtl = 2592000\<rparr>"

text \<open>The cache of unwrapped data keys: \<open>dekId\<close>, key, end of validity.\<close>

type_synonym dek_cache = "(string \<times> bytes \<times> int) list"

record world =
  w_users :: "user_row list"
  w_orders :: "order_row list"
  w_convs :: "conv_row list"
  w_parts :: "part_row list"
  w_msgs :: "msg_row list"
  w_receipts :: "receipt_row list"
  w_outbox :: "outbox_row list"
  w_audit :: "audit_row list"
  w_auditUp :: bool
  w_reports :: "report_row list"
  w_tokens :: "token_row list"
  w_emails :: "email_row list"
  w_kps :: "kp_row list"
  w_groups :: "group_row list"
  w_mls :: "mls_row list"
  w_atts :: "att_row list"
  w_emits :: "emission list"
  w_metrics :: "metric list"
  w_metricsClient :: bool
  w_metricsSent :: "metric list list"
  w_mails :: "mail list"
  w_presence :: "uuid \<rightharpoonup> string list \<times> int"
  w_rate :: "uuid \<times> int \<rightharpoonup> nat \<times> int option"
  w_nats :: "nats_msg list"
  w_natsReady :: bool
  w_index :: "index_doc list"
  w_indexReady :: bool
  w_s3 :: "string \<rightharpoonup> int"
  w_dekCache :: dek_cache

definition empty_world :: world where
  "empty_world =
     \<lparr>w_users = [], w_orders = [], w_convs = [], w_parts = [], w_msgs = [], w_receipts = [],
      w_outbox = [], w_audit = [], w_auditUp = True, w_reports = [], w_tokens = [], w_emails = [], w_kps = [],
      w_groups = [], w_mls = [], w_atts = [], w_emits = [], w_metrics = [],
      w_metricsClient = False, w_metricsSent = [], w_mails = [], w_presence = Map.empty,
      w_rate = Map.empty, w_nats = [],
      w_natsReady = False, w_index = [], w_indexReady = False, w_s3 = Map.empty, w_dekCache = []\<rparr>"

section \<open>Unique constraints\<close>

text \<open>An \<open>INSERT\<close> fails with code 23505 when a stored row clashes with the new one.\<close>

definition insert_row :: "('r \<Rightarrow> 'r \<Rightarrow> bool) \<Rightarrow> 'r \<Rightarrow> 'r list \<Rightarrow> exn + 'r list" where
  "insert_row clash r rows =
     (if list_ex (\<lambda>x. clash x r) rows then Inl (DbError ''23505'') else Inr (rows @ [r]))"

definition user_clash :: "user_row \<Rightarrow> user_row \<Rightarrow> bool" where
  "user_clash x r = (us_id x = us_id r \<or> to_lower (us_email x) = to_lower (us_email r))"

definition order_clash :: "order_row \<Rightarrow> order_row \<Rightarrow> bool" where
  "order_clash x r = (or_id x = or_id r \<or> or_externalRef x = or_externalRef r)"

definition conv_clash :: "conv_row \<Rightarrow> conv_row \<Rightarrow> bool" where
  "conv_clash x r = (cv_id x = cv_id r \<or> cv_orderId x = cv_orderId r)"

definition part_clash :: "part_row \<Rightarrow> part_row \<Rightarrow> bool" where
  "part_clash x r =
     (pt_conversationId x = pt_conversationId r \<and> pt_userId x = pt_userId r)"

definition msg_clash :: "msg_row \<Rightarrow> msg_row \<Rightarrow> bool" where
  "msg_clash x r =
     (ms_id x = ms_id r
      \<or> (ms_conversationId x = ms_conversationId r \<and> ms_sequence x = ms_sequence r)
      \<or> (ms_conversationId x = ms_conversationId r \<and> ms_senderId x = ms_senderId r
         \<and> ms_idempotencyKey r \<noteq> None \<and> ms_idempotencyKey x = ms_idempotencyKey r))"

definition receipt_clash :: "receipt_row \<Rightarrow> receipt_row \<Rightarrow> bool" where
  "receipt_clash x r = (rc_messageId x = rc_messageId r \<and> rc_userId x = rc_userId r)"

definition outbox_clash :: "outbox_row \<Rightarrow> outbox_row \<Rightarrow> bool" where
  "outbox_clash x r = (ob_id x = ob_id r)"

definition token_clash :: "token_row \<Rightarrow> token_row \<Rightarrow> bool" where
  "token_clash x r = (rt_id x = rt_id r \<or> rt_tokenHash x = rt_tokenHash r)"

definition email_clash :: "email_row \<Rightarrow> email_row \<Rightarrow> bool" where
  "email_clash x r = (em_dedupKey x = em_dedupKey r)"

definition group_clash :: "group_row \<Rightarrow> group_row \<Rightarrow> bool" where
  "group_clash x r = (gr_id x = gr_id r \<or> gr_conversationId x = gr_conversationId r)"

definition mls_clash :: "mls_row \<Rightarrow> mls_row \<Rightarrow> bool" where
  "mls_clash x r =
     (ml_id x = ml_id r \<or> (ml_groupId x = ml_groupId r \<and> ml_sequence x = ml_sequence r))"

text \<open>A table in which no two rows clash.\<close>

definition clash_free :: "('r \<Rightarrow> 'r \<Rightarrow> bool) \<Rightarrow> 'r list \<Rightarrow> bool" where
  "clash_free clash rows \<longleftrightarrow> sorted_wrt (\<lambda>x y. \<not> clash x y) rows"

lemma clash_free_Nil [simp]: "clash_free clash []"
  by (simp add: clash_free_def)

lemma insert_row_InrD:
  "insert_row clash r rows = Inr rows' \<Longrightarrow>
   rows' = rows @ [r] \<and> (\<forall>x \<in> set rows. \<not> clash x r)"
  by (auto simp: insert_row_def list_ex_iff split: if_splits)

lemma insert_row_InlD: "insert_row clash r rows = Inl e \<Longrightarrow> e = DbError ''23505''"
  by (auto simp: insert_row_def split: if_splits)

lemma insert_row_Inr:
  "(\<And>x. x \<in> set rows \<Longrightarrow> \<not> clash x r) \<Longrightarrow> insert_row clash r rows = Inr (rows @ [r])"
  by (auto simp: insert_row_def list_ex_iff)

lemma clash_free_snoc:
  "clash_free clash (rows @ [r]) \<longleftrightarrow> clash_free clash rows \<and> (\<forall>x \<in> set rows. \<not> clash x r)"
  by (auto simp: clash_free_def sorted_wrt_append)

lemma insert_row_clash_free [inv_intros]:
  "insert_row clash r rows = Inr rows' \<Longrightarrow> clash_free clash rows \<Longrightarrow> clash_free clash rows'"
  by (auto dest!: insert_row_InrD simp: clash_free_snoc)

lemma clash_free_update [inv_intros]:
  assumes "clash_free clash rows"
    and "\<And>x y. clash (if p x then f x else x) (if p y then f y else y) \<Longrightarrow> clash x y"
  shows "clash_free clash (update_rows p f rows)"
  unfolding clash_free_def update_rows_def sorted_wrt_map
proof (rule sorted_wrt_mono_rel [OF _ assms(1) [unfolded clash_free_def]])
  fix x y
  assume "\<not> clash x y"
  with assms(2) [of x y]
  show "\<not> clash (if p x then f x else x) (if p y then f y else y)" by blast
qed

lemma clash_freeD:
  assumes "clash_free clash rows" "x \<in> set rows" "y \<in> set rows" "x \<noteq> y"
  shows "\<not> clash x y \<or> \<not> clash y x"
proof -
  from assms(2) obtain xs ys where "rows = xs @ x # ys" by (auto dest: split_list)
  with assms show ?thesis by (auto simp: clash_free_def sorted_wrt_append)
qed

text \<open>Every unique constraint of the schema holds.\<close>

definition schema_ok :: "world \<Rightarrow> bool" where
  "schema_ok w \<longleftrightarrow>
     clash_free user_clash (w_users w) \<and> clash_free order_clash (w_orders w) \<and>
     clash_free conv_clash (w_convs w) \<and> clash_free part_clash (w_parts w) \<and>
     clash_free msg_clash (w_msgs w) \<and> clash_free receipt_clash (w_receipts w) \<and>
     clash_free outbox_clash (w_outbox w) \<and> clash_free token_clash (w_tokens w) \<and>
     clash_free email_clash (w_emails w) \<and> clash_free group_clash (w_groups w) \<and>
     clash_free mls_clash (w_mls w)"

lemma schema_ok_empty: "schema_ok empty_world"
  by (simp add: schema_ok_def empty_world_def)

end
