(* ===== verification/Platform.thy ===== *)
theory Platform
  imports World
begin

text \<open>
  What every request passes and every service calls: \<open>UuidPipe\<close>, \<open>RolesGuard\<close>,
  \<open>HttpExceptionFilter\<close> and the origin allowlist (backend/src/common, backend/src/main.ts),
  \<open>AuditService\<close>, \<open>MetricsService\<close> and the per-minute limiter that the embedded gateway and
  the dedicated one each implement (backend/src/modules/realtime, ws-gateway/src).
\<close>

section \<open>UuidPipe\<close>

definition is_hex :: "char \<Rightarrow> bool" where
  "is_hex c = (is_digit c \<or> (let n = code (lower_char c) in 97 \<le> n \<and> n \<le> 102 \<and> code c < 128))"

definition is_ver :: "char \<Rightarrow> bool" where
  "is_ver c = (let n = code c in 49 \<le> n \<and> n \<le> 53)"

definition is_var :: "char \<Rightarrow> bool" where
  "is_var c = (c \<in> set ''89abAB'')"

definition uuid_re :: re where
  "uuid_re = Cat Bol (Cat (times 8 (Cls is_hex)) (Cat (lit ''-'')
     (Cat (times 4 (Cls is_hex)) (Cat (lit ''-'')
     (Cat (Cls is_ver) (Cat (times 3 (Cls is_hex)) (Cat (lit ''-'')
     (Cat (Cls is_var) (Cat (times 3 (Cls is_hex)) (Cat (lit ''-'')
     (Cat (times 12 (Cls is_hex)) Eol)))))))))))"

definition uuid_pipe :: "string \<Rightarrow> exn + string" where
  "uuid_pipe v = (if \<not> test_re uuid_re v then Inl (BadRequest ''UUID invalide'')
     else Inr (to_lower v))"

section \<open>RolesGuard\<close>

record auth_user =
  au_sub :: uuid
  au_role :: user_role
  au_email :: string

definition roles_guard :: "user_role list option \<Rightarrow> auth_user option \<Rightarrow> exn + bool" where
  "roles_guard required user =
     (case required of None \<Rightarrow> Inr True
      | Some rs \<Rightarrow>
          if rs = [] then Inr True
          else (case user of None \<Rightarrow> Inl (Forbidden (''Non authentifi'' @ [CHR 0xE9]))
                | Some u \<Rightarrow> if au_role u \<notin> set rs
                            then Inl (Forbidden (''R'' @ [CHR 0xF4] @ ''le insuffisant''))
                            else Inr True))"

section \<open>HttpExceptionFilter\<close>

record error_payload =
  ep_statusCode :: nat
  ep_error :: string
  ep_message :: string
  ep_path :: string

fun http_response :: "exn \<Rightarrow> (nat \<times> string \<times> string) option" where
  "http_response (Forbidden m) = Some (403, ''Forbidden'', m)"
| "http_response (NotFound m) = Some (404, ''Not Found'', m)"
| "http_response (Conflict m) = Some (409, ''Conflict'', m)"
| "http_response (BadRequest m) = Some (400, ''Bad Request'', m)"
| "http_response (Unauthorized m) = Some (401, ''Unauthorized'', m)"
| "http_response (DbError m) = None"
| "http_response (JsError m) = None"

definition exception_filter :: "exn \<Rightarrow> string \<Rightarrow> nat \<times> error_payload" where
  "exception_filter e path =
     (let status = (case http_response e of Some (s, _, _) \<Rightarrow> s | None \<Rightarrow> 500);
          payload = \<lparr>ep_statusCode = status, ep_error = ''Internal Server Error'',
            ep_message = ''Une erreur est survenue'', ep_path = path\<rparr>
      in (status,
          case http_response e of
            Some (s, er, m) \<Rightarrow> payload\<lparr>ep_statusCode := s, ep_error := er, ep_message := m\<rparr>
          | None \<Rightarrow> payload))"

section \<open>Allowed origins\<close>

definition parse_origins :: "string option \<Rightarrow> string list" where
  "parse_origins raw = filter (\<lambda>o1. o1 \<noteq> []) (map js_trim (js_split '','' (coalesce raw [])))"

definition cors_check :: "string list \<Rightarrow> string option \<Rightarrow> exn + bool" where
  "cors_check origins origin =
     (if \<not> truthy origin then Inr True
      else if coalesce origin [] \<in> set origins then Inr True
      else Inl (JsError (''Origin '' @ coalesce origin [] @ '' not allowed'')))"

section \<open>AuditService\<close>

definition audit_log :: "audit_row \<Rightarrow> world \<Rightarrow> world" where
  "audit_log inp w = (if w_auditUp w then w\<lparr>w_audit := w_audit w @ [inp]\<rparr> else w)"

definition mk_audit ::
  "uuid \<Rightarrow> string \<Rightarrow> string \<Rightarrow> uuid \<Rightarrow> (string \<times> json) list option \<Rightarrow> audit_row" where
  "mk_audit actor action tt tid meta =
     \<lparr>au_actorId = Some actor, au_action = action, au_targetType = tt,
      au_targetId = Some tid, au_metadata = meta\<rparr>"

section \<open>MetricsService\<close>

function chunks_of :: "nat \<Rightarrow> 'a list \<Rightarrow> 'a list list" where
  "chunks_of n xs =
     (if xs = [] \<or> n = 0 then [] else take n xs # chunks_of n (drop n xs))"
  by pat_completeness auto
termination
  by (relation "measure (\<lambda>(n, xs). length xs)") auto

declare chunks_of.simps [simp del]

definition metrics_flush :: "config \<Rightarrow> world \<Rightarrow> world" where
  "metrics_flush cfg w =
     (if \<not> cf_metricsEnabled cfg \<or> \<not> w_metricsClient w \<or> w_metrics w = [] then w
      else w\<lparr>w_metrics := [], w_metricsSent := w_metricsSent w @ chunks_of 20 (w_metrics w)\<rparr>)"

definition metrics_push ::
  "config \<Rightarrow> int \<Rightarrow> string \<Rightarrow> int \<Rightarrow> string \<Rightarrow> (string \<times> string) list option \<Rightarrow> world \<Rightarrow> world" where
  "metrics_push cfg t name v unit dims w =
     (if \<not> cf_metricsEnabled cfg then w
      else (let w1 = w\<lparr>w_metrics := w_metrics w @
                 [\<lparr>mt_at = t, mt_name = name, mt_value = v, mt_unit = unit, mt_dimensions = dims\<rparr>]\<rparr>
            in if length (w_metrics w1) \<ge> 20 then metrics_flush cfg w1 else w1))"

definition metrics_count ::
  "config \<Rightarrow> int \<Rightarrow> string \<Rightarrow> int \<Rightarrow> (string \<times> string) list option \<Rightarrow> world \<Rightarrow> world" where
  "metrics_count cfg t name v dims w = metrics_push cfg t name v ''Count'' dims w"

definition metrics_gauge ::
  "config \<Rightarrow> int \<Rightarrow> string \<Rightarrow> int \<Rightarrow> string \<Rightarrow> world \<Rightarrow> world" where
  "metrics_gauge cfg t name v unit w = metrics_push cfg t name v unit None w"

definition metrics_timing :: "config \<Rightarrow> int \<Rightarrow> string \<Rightarrow> int \<Rightarrow> world \<Rightarrow> world" where
  "metrics_timing cfg t name ms w = metrics_push cfg t name ms ''Milliseconds'' None w"

section \<open>Rate limit of socket events\<close>

text \<open>Redis \<open>INCR\<close> on a key that may have expired, then \<open>EXPIRE\<close> when the counter is new.\<close>

definition redis_incr ::
  "int \<Rightarrow> uuid \<times> int \<Rightarrow> (uuid \<times> int \<rightharpoonup> nat \<times> int option) \<Rightarrow>
   nat \<times> (uuid \<times> int \<rightharpoonup> nat \<times> int option)" where
  "redis_incr t k m =
     (case m k of
        Some (n, Some ex) \<Rightarrow> if t < ex then (Suc n, m(k \<mapsto> (Suc n, Some ex)))
                              else (1, m(k \<mapsto> (1, None)))
      | Some (n, None) \<Rightarrow> (Suc n, m(k \<mapsto> (Suc n, None)))
      | None \<Rightarrow> (1, m(k \<mapsto> (1, None))))"

definition redis_expire ::
  "int \<Rightarrow> uuid \<times> int \<Rightarrow> int \<Rightarrow> (uuid \<times> int \<rightharpoonup> nat \<times> int option) \<Rightarrow>
   (uuid \<times> int \<rightharpoonup> nat \<times> int option)" where
  "redis_expire t k sec m =
     (case m k of None \<Rightarrow> m | Some (n, _) \<Rightarrow> m(k \<mapsto> (n, Some (t + sec * 1000))))"

definition rate_limit_ok :: "config \<Rightarrow> int \<Rightarrow> uuid \<Rightarrow> world \<Rightarrow> bool \<times> world" where
  "rate_limit_ok cfg t user w =
     (let k = (user, t div 60000);
          (count, m) = redis_incr t k (w_rate w);
          m' = (if count = 1 then redis_expire t k 65 m else m)
      in (count \<le> cf_wsEventsPerMinute cfg, w\<lparr>w_rate := m'\<rparr>))"

definition limiter_check ::
  "nat \<Rightarrow> int \<Rightarrow> uuid \<Rightarrow> (uuid \<times> int \<rightharpoonup> nat \<times> int option) \<Rightarrow>
   bool \<times> (uuid \<times> int \<rightharpoonup> nat \<times> int option)" where
  "limiter_check limit t user m =
     (let k = (user, t div 60000);
          (c, m1) = redis_incr t k m
      in (c \<le> limit, if c = 1 then redis_expire t k 65 m1 else m1))"

section \<open>UuidPipe accepts canonical identifiers\<close>

lemma m_re_times_cls:
  "m_re (Rep n n (Cls p)) k (b, s) =
     (if n \<le> length s \<and> list_all p (take n s)
      then k (if n = 0 then b else Some (s ! (n - 1)), drop n s) else None)"
proof (induction n arbitrary: b s)
  case (Suc n)
  show ?case
  proof (cases s)
    case (Cons c s')
    have "m_re (Cls p) (\<lambda>y. m_re (Rep n n (Cls p)) k y) (b, c # s') =
      (if p c then m_re (Rep n n (Cls p)) k (Some c, s') else None)" by simp
    then show ?thesis
      using Suc.IH [of "Some c" s'] Cons by (cases n) (auto split: option.splits)
  qed simp
qed simp

definition canonical_uuid :: "string \<Rightarrow> bool" where
  "canonical_uuid v \<longleftrightarrow> length v = 36 \<and> list_all is_hex (take 8 v) \<and> v ! 8 = CHR ''-''
     \<and> list_all is_hex (take 4 (drop 9 v)) \<and> v ! 13 = CHR ''-'' \<and> is_ver (v ! 14)
     \<and> list_all is_hex (take 3 (drop 15 v)) \<and> v ! 18 = CHR ''-'' \<and> is_var (v ! 19)
     \<and> list_all is_hex (take 3 (drop 20 v)) \<and> v ! 23 = CHR ''-''
     \<and> list_all is_hex (take 12 (drop 24 v))"

text \<open>Success of a match, one conjunct per atom of the expression.\<close>

lemma m_re_times_ok:
  "m_re (Rep n n (Cls p)) k (b, s) \<noteq> None \<longleftrightarrow> n \<le> length s \<and> list_all p (take n s)
     \<and> k (if n = 0 then b else Some (s ! (n - 1)), drop n s) \<noteq> None"
  unfolding m_re_times_cls by auto

lemma m_re_cls_ok:
  "m_re (Cls p) k (b, s) \<noteq> None \<longleftrightarrow> 0 < length s \<and> p (s ! 0) \<and> k (Some (s ! 0), drop 1 s) \<noteq> None"
  by (cases s) auto

lemma m_re_anchor_ok:
  "m_re Bol k (b, s) \<noteq> None \<longleftrightarrow> b = None \<and> k (b, s) \<noteq> None"
  "m_re Eol k (b, s) \<noteq> None \<longleftrightarrow> s = [] \<and> k (b, s) \<noteq> None"
  by simp_all

lemma uuid_match:
  "match_at uuid_re (b, v) \<noteq> None \<longleftrightarrow> b = None \<and> canonical_uuid v"
proof -
  have "match_at uuid_re (b, v) \<noteq> None \<longleftrightarrow> b = None
     \<and> 8 \<le> length v \<and> list_all is_hex (take 8 v)
     \<and> 8 < length v \<and> v ! 8 = CHR ''-''
     \<and> 4 \<le> length v - 9 \<and> list_all is_hex (take 4 (drop 9 v))
     \<and> 13 < length v \<and> v ! 13 = CHR ''-'' \<and> 14 < length v \<and> is_ver (v ! 14)
     \<and> 3 \<le> length v - 15 \<and> list_all is_hex (take 3 (drop 15 v))
     \<and> 18 < length v \<and> v ! 18 = CHR ''-'' \<and> 19 < length v \<and> is_var (v ! 19)
     \<and> 3 \<le> length v - 20 \<and> list_all is_hex (take 3 (drop 20 v))
     \<and> 23 < length v \<and> v ! 23 = CHR ''-''
     \<and> 12 \<le> length v - 24 \<and> list_all is_hex (take 12 (drop 24 v)) \<and> length v \<le> 36"
    unfolding match_at_def uuid_re_def times_def lit.simps m_re.simps(4) m_re_anchor_ok
      m_re_times_ok m_re_cls_ok m_re.simps(1) drop_drop length_drop
    by (auto simp del: m_re.simps)
  then show ?thesis by (auto simp: canonical_uuid_def)
qed

lemma uuid_search_rest: "search_re uuid_re (Some c) s = None"
proof -
  have "match_at uuid_re (Some b, v) = None" for b v
    using uuid_match [of "Some b" v] by (cases "match_at uuid_re (Some b, v)") auto
  then show ?thesis by (induction s arbitrary: c) auto
qed

lemma test_uuid_re: "test_re uuid_re v \<longleftrightarrow> canonical_uuid v"
  using uuid_match [of None v]
  by (cases v) (auto simp: test_re_def uuid_search_rest split: option.splits)

lemma code_lower_char:
  "code (lower_char c) = (if is_upper c \<or> (192 \<le> code c \<and> code c \<le> 222 \<and> code c \<noteq> 215)
     then code c + 32 else code c)"
proof -
  have "code (char_of (code c + 32)) = code c + 32" if "code c + 32 < 256"
    using that by (simp add: code_def of_char_mod_256)
  then show ?thesis by (auto simp: lower_char_def is_upper_def Let_def)
qed

lemma code_eqI: "code c = code d \<Longrightarrow> c = d"
  by (simp add: code_def)

lemma lower_char_idem [simp]: "lower_char (lower_char c) = lower_char c"
  by (rule code_eqI) (auto simp: code_lower_char is_upper_def Let_def)

lemma to_lower_idem [simp]: "to_lower (to_lower s) = to_lower s"
  by (simp add: to_lower_def)

lemma lower_char_classes:
  "is_hex c \<Longrightarrow> is_hex (lower_char c)" "is_ver c \<Longrightarrow> lower_char c = c"
  "lower_char (CHR ''-'') = CHR ''-''" "is_var c \<Longrightarrow> is_var (lower_char c)"
proof -
  show "is_hex c \<Longrightarrow> is_hex (lower_char c)"
    by (auto simp: is_hex_def is_digit_def Let_def code_lower_char is_upper_def split: if_splits)
  show "is_ver c \<Longrightarrow> lower_char c = c"
    by (rule code_eqI) (auto simp: is_ver_def Let_def code_lower_char is_upper_def)
  show "lower_char (CHR ''-'') = CHR ''-''" by code_simp
  have "list_all (\<lambda>c. is_var (lower_char c)) ''89abAB''" by code_simp
  then show "is_var c \<Longrightarrow> is_var (lower_char c)" by (auto simp: is_var_def list_all_iff)
qed

lemma canonical_to_lower: "canonical_uuid v \<Longrightarrow> canonical_uuid (to_lower v)"
  by (auto simp: canonical_uuid_def to_lower_def list_all_iff take_map drop_map lower_char_classes)

section \<open>The database part of a state\<close>

text \<open>\<open>db w\<close> forgets metrics, emissions and the cache of data keys.\<close>

definition db :: "world \<Rightarrow> world" where
  "db w = w\<lparr>w_metrics := [], w_metricsSent := [], w_emits := [], w_dekCache := []\<rparr>"

lemma db_eqD:
  assumes "db w' = db w"
  shows "w_users w' = w_users w" "w_orders w' = w_orders w" "w_convs w' = w_convs w"
    "w_parts w' = w_parts w" "w_msgs w' = w_msgs w" "w_receipts w' = w_receipts w"
    "w_outbox w' = w_outbox w" "w_audit w' = w_audit w" "w_reports w' = w_reports w"
    "w_tokens w' = w_tokens w" "w_emails w' = w_emails w" "w_kps w' = w_kps w"
    "w_groups w' = w_groups w" "w_mls w' = w_mls w" "w_atts w' = w_atts w"
    "w_mails w' = w_mails w" "w_nats w' = w_nats w" "w_index w' = w_index w" "w_s3 w' = w_s3 w"
    "w_auditUp w' = w_auditUp w"
  using arg_cong [OF assms, of w_users] arg_cong [OF assms, of w_orders]
    arg_cong [OF assms, of w_convs] arg_cong [OF assms, of w_parts]
    arg_cong [OF assms, of w_msgs] arg_cong [OF assms, of w_receipts]
    arg_cong [OF assms, of w_outbox] arg_cong [OF assms, of w_audit]
    arg_cong [OF assms, of w_reports] arg_cong [OF assms, of w_tokens]
    arg_cong [OF assms, of w_emails] arg_cong [OF assms, of w_kps]
    arg_cong [OF assms, of w_groups] arg_cong [OF assms, of w_mls]
    arg_cong [OF assms, of w_atts] arg_cong [OF assms, of w_mails]
    arg_cong [OF assms, of w_nats] arg_cong [OF assms, of w_index]
    arg_cong [OF assms, of w_s3] arg_cong [OF assms, of w_auditUp]
  by (simp_all add: db_def)

lemma db_metrics_flush [simp]: "db (metrics_flush cfg w) = db w"
  by (simp add: metrics_flush_def db_def)

lemma db_metrics_push [simp]: "db (metrics_push cfg t n v u d w) = db w"
proof -
  have "db (w\<lparr>w_metrics := ms\<rparr>) = db w" for ms by (simp add: db_def)
  then show ?thesis by (simp add: metrics_push_def Let_def)
qed

lemma db_metrics [simp]:
  "db (metrics_count cfg t n v d w) = db w" "db (metrics_gauge cfg t n v u w) = db w"
  "db (metrics_timing cfg t n v w) = db w"
  by (simp_all add: metrics_count_def metrics_gauge_def metrics_timing_def)

lemma metrics_push_frame [simp]:
  "w_emits (metrics_push cfg t n v u d w) = w_emits w"
  "w_dekCache (metrics_push cfg t n v u d w) = w_dekCache w"
  by (simp_all add: metrics_push_def metrics_flush_def Let_def)

lemma metrics_frame [simp]:
  "w_emits (metrics_count cfg t n v d w) = w_emits w"
  "w_dekCache (metrics_count cfg t n v d w) = w_dekCache w"
  "w_emits (metrics_timing cfg t n v w) = w_emits w"
  "w_dekCache (metrics_timing cfg t n v w) = w_dekCache w"
  by (simp_all add: metrics_count_def metrics_timing_def)

section \<open>Metrics\<close>

lemma chunks_of_step: "n \<noteq> 0 \<Longrightarrow> xs \<noteq> [] \<Longrightarrow> chunks_of n xs = take n xs # chunks_of n (drop n xs)"
  by (subst chunks_of.simps) simp

lemma chunks_of_Nil [simp]: "chunks_of n [] = []"
  by (subst chunks_of.simps) simp

lemma chunks_of_ok:
  "n \<noteq> 0 \<Longrightarrow> concat (chunks_of n xs) = xs \<and> (\<forall>c \<in> set (chunks_of n xs). c \<noteq> [] \<and> length c \<le> n)"
proof (induction n xs rule: chunks_of.induct)
  case (1 n xs)
  show ?case
  proof (cases "xs = []")
    case False
    have ih: "concat (chunks_of n (drop n xs)) = drop n xs"
      "\<forall>c \<in> set (chunks_of n (drop n xs)). c \<noteq> [] \<and> length c \<le> n"
      using "1.IH" False "1.prems" by blast+
    have "concat (chunks_of n xs) = xs"
      using chunks_of_step [OF "1.prems" False] ih(1) by simp
    moreover have "\<forall>c \<in> set (chunks_of n xs). c \<noteq> [] \<and> length c \<le> n"
      unfolding chunks_of_step [OF "1.prems" False] using ih(2) "1.prems" False by simp
    ultimately show ?thesis by blast
  qed simp
qed

text \<open>The buffer of the metrics service: bounded while the client is up, and nothing is lost.\<close>

definition metrics_ok :: "world \<Rightarrow> bool" where
  "metrics_ok w \<longleftrightarrow> length (w_metrics w) < 20
     \<and> (\<forall>c \<in> set (w_metricsSent w). c \<noteq> [] \<and> length c \<le> 20)"

lemma metrics_flush_ok:
  assumes "\<forall>c \<in> set (w_metricsSent w). c \<noteq> [] \<and> length c \<le> 20" "w_metricsClient w" "cf_metricsEnabled cfg"
  shows "concat (w_metricsSent (metrics_flush cfg w)) = concat (w_metricsSent w) @ w_metrics w"
    "w_metrics (metrics_flush cfg w) = []" "w_metricsClient (metrics_flush cfg w)"
    "\<forall>c \<in> set (w_metricsSent (metrics_flush cfg w)). c \<noteq> [] \<and> length c \<le> 20"
proof -
  have ch: "concat (chunks_of 20 (w_metrics w)) = w_metrics w"
    "\<forall>c \<in> set (chunks_of 20 (w_metrics w)). c \<noteq> [] \<and> length c \<le> 20"
    using chunks_of_ok [of 20 "w_metrics w"] by simp_all
  have fl: "metrics_flush cfg w = (if w_metrics w = [] then w
      else w\<lparr>w_metrics := [], w_metricsSent := w_metricsSent w @ chunks_of 20 (w_metrics w)\<rparr>)"
    using assms(2,3) by (simp add: metrics_flush_def)
  show "concat (w_metricsSent (metrics_flush cfg w)) = concat (w_metricsSent w) @ w_metrics w"
    "w_metrics (metrics_flush cfg w) = []" "w_metricsClient (metrics_flush cfg w)"
    "\<forall>c \<in> set (w_metricsSent (metrics_flush cfg w)). c \<noteq> [] \<and> length c \<le> 20"
    unfolding fl using ch assms(1,2) by (simp_all add: ball_Un)
qed

lemma metrics_push_ok:
  assumes "metrics_ok w" "w_metricsClient w" "cf_metricsEnabled cfg"
  shows "metrics_ok (metrics_push cfg t n v u d w)" "w_metricsClient (metrics_push cfg t n v u d w)"
    "concat (w_metricsSent (metrics_push cfg t n v u d w)) @ w_metrics (metrics_push cfg t n v u d w)
      = concat (w_metricsSent w) @ w_metrics w
        @ [\<lparr>mt_at = t, mt_name = n, mt_value = v, mt_unit = u, mt_dimensions = d\<rparr>]"
proof -
  let ?w = "w\<lparr>w_metrics := w_metrics w
      @ [\<lparr>mt_at = t, mt_name = n, mt_value = v, mt_unit = u, mt_dimensions = d\<rparr>]\<rparr>"
  have push: "metrics_push cfg t n v u d w =
      (if length (w_metrics ?w) \<ge> 20 then metrics_flush cfg ?w else ?w)"
    using assms(3) by (simp add: metrics_push_def)
  have "\<forall>c \<in> set (w_metricsSent ?w). c \<noteq> [] \<and> length c \<le> 20" "w_metricsClient ?w"
    using assms by (simp_all add: metrics_ok_def)
  note flush = metrics_flush_ok [OF this assms(3)]
  show "metrics_ok (metrics_push cfg t n v u d w)"
    unfolding push using flush assms(1) by (simp add: metrics_ok_def)
  show "w_metricsClient (metrics_push cfg t n v u d w)"
    unfolding push using flush assms(2) by simp
  show "concat (w_metricsSent (metrics_push cfg t n v u d w)) @ w_metrics (metrics_push cfg t n v u d w)
      = concat (w_metricsSent w) @ w_metrics w
        @ [\<lparr>mt_at = t, mt_name = n, mt_value = v, mt_unit = u, mt_dimensions = d\<rparr>]"
    unfolding push using flush by simp
qed

section \<open>Rate limiting\<close>

text \<open>
  A limiter counts the requests of a user in the minute \<open>t div 60000\<close>, and admits while the
  count before the request is below the limit.
\<close>

fun run_limiter :: "(int \<Rightarrow> 'u \<Rightarrow> 's \<Rightarrow> bool \<times> 's) \<Rightarrow> (int \<times> 'u) list \<Rightarrow> 's \<Rightarrow> (int \<times> 'u) list" where
  "run_limiter check [] s = []"
| "run_limiter check ((t, u) # rs) s =
     (let (b, s') = check t u s
      in if b then (t, u) # run_limiter check rs s' else run_limiter check rs s')"

locale rate_limiter =
  fixes check :: "int \<Rightarrow> 'u \<Rightarrow> 's \<Rightarrow> bool \<times> 's"
    and used :: "'s \<Rightarrow> 'u \<Rightarrow> int \<Rightarrow> nat"
    and limit :: nat
    and ok :: "'s \<Rightarrow> bool"
  assumes check_ok: "ok s \<Longrightarrow> ok (snd (check t u s))"
    and check_used: "ok s \<Longrightarrow> used (snd (check t u s)) v k =
        (if v = u \<and> k = t div 60000 then Suc (used s v k) else used s v k)"
    and check_admits: "ok s \<Longrightarrow> fst (check t u s) \<longleftrightarrow> used s u (t div 60000) < limit"
begin

lemma admitted_bound:
  "ok s \<Longrightarrow> used s u k + length (filter (\<lambda>(t, v). v = u \<and> t div 60000 = k) (run_limiter check rs s))
     \<le> max limit (used s u k)"
proof (induction rs arbitrary: s)
  case (Cons r rs)
  obtain t v where r: "r = (t, v)" by (cases r)
  obtain b s' where c: "check t v s = (b, s')" by fastforce
  have ok': "ok s'" using check_ok [OF Cons.prems, of t v] c by simp
  have b: "b \<longleftrightarrow> used s v (t div 60000) < limit" using check_admits [OF Cons.prems, of t v] c by simp
  have used: "used s' u k = (if u = v \<and> k = t div 60000 then Suc (used s u k) else used s u k)"
    using check_used [OF Cons.prems, of t v u k] c by simp
  show ?case using Cons.IH [OF ok'] b used c r by (auto simp: max_def split: if_splits)
qed simp

lemma admitted_at_most_limit:
  "ok s \<Longrightarrow> length (filter (\<lambda>(t, v). v = u \<and> t div 60000 = k) (run_limiter check rs s)) \<le> limit"
  using admitted_bound [of s u k rs] by (auto simp: max_def split: if_splits)

end

type_synonym rates = "uuid \<times> int \<rightharpoonup> nat \<times> int option"

text \<open>Every counter has a date of expiry, beyond the end of its minute.\<close>

definition rates_ok :: "rates \<Rightarrow> bool" where
  "rates_ok m \<longleftrightarrow> (\<forall>u k n ex. m (u, k) = Some (n, ex) \<longrightarrow> n > 0 \<and> (\<exists>x. ex = Some x \<and> (k + 1) * 60000 \<le> x))"

definition rate_used :: "rates \<Rightarrow> uuid \<Rightarrow> int \<Rightarrow> nat" where
  "rate_used m u k = (case m (u, k) of None \<Rightarrow> 0 | Some (n, _) \<Rightarrow> n)"

lemma minute_bounds: "t div 60000 * 60000 \<le> (t :: int)" "t < (t div 60000 + 1) * 60000"
proof -
  have "t = t div 60000 * 60000 + t mod 60000" by simp
  moreover have "0 \<le> t mod 60000" "t mod 60000 < 60000" by simp_all
  ultimately show "t div 60000 * 60000 \<le> t" "t < (t div 60000 + 1) * 60000"
    unfolding distrib_right by linarith+
qed

lemma limiter_check_step:
  assumes "rates_ok m"
  shows "limiter_check limit t u m =
    (rate_used m u (t div 60000) < limit,
     m((u, t div 60000) \<mapsto> (Suc (rate_used m u (t div 60000)),
        Some (case m (u, t div 60000) of Some (n, Some x) \<Rightarrow> x | _ \<Rightarrow> t + 65000))))"
proof (cases "m (u, t div 60000)")
  case None
  then show ?thesis
    by (auto simp: limiter_check_def redis_incr_def redis_expire_def rate_used_def Let_def)
next
  case (Some a)
  obtain n ex where a: "a = (n, ex)" by (cases a)
  with assms Some obtain x where x: "ex = Some x" "(t div 60000 + 1) * 60000 \<le> x" "n > 0"
    unfolding rates_ok_def by blast
  then have "t < x" using minute_bounds(2) [of t] by linarith
  with Some a x show ?thesis
    by (auto simp: limiter_check_def redis_incr_def rate_used_def Let_def)
qed

lemma limiter_check_ok:
  assumes "rates_ok m"
  shows "rates_ok (snd (limiter_check limit t u m))"
  unfolding rates_ok_def
proof (intro allI impI)
  fix v k n ex
  assume new: "snd (limiter_check limit t u m) (v, k) = Some (n, ex)"
  show "n > 0 \<and> (\<exists>x. ex = Some x \<and> (k + 1) * 60000 \<le> x)"
  proof (cases "(v, k) = (u, t div 60000)")
    case False
    with new assms show ?thesis by (auto simp: limiter_check_step [OF assms] rates_ok_def)
  next
    case True
    show ?thesis
    proof (cases "m (u, t div 60000)")
      case None
      with new True minute_bounds(1) [of t] show ?thesis
        by (auto simp: limiter_check_step [OF assms])
    next
      case (Some a)
      with assms obtain n0 x where "a = (n0, Some x)" "(t div 60000 + 1) * 60000 \<le> x"
        unfolding rates_ok_def by (metis surj_pair)
      with Some new True show ?thesis by (auto simp: limiter_check_step [OF assms])
    qed
  qed
qed

interpretation limiter: rate_limiter "limiter_check limit" rate_used limit rates_ok for limit
proof (unfold_locales, goal_cases)
  case (1 s t u)
  then show ?case by (rule limiter_check_ok)
next
  case (2 s t u v k)
  then show ?case by (auto simp: limiter_check_step rate_used_def)
next
  case (3 s t u)
  then show ?case by (simp add: limiter_check_step)
qed

text \<open>The embedded gateway's limiter is the dedicated gateway's one on the field \<open>w_rate\<close>.\<close>

lemma rate_limit_ok_eq:
  "rate_limit_ok cfg t u w =
     (fst (limiter_check (cf_wsEventsPerMinute cfg) t u (w_rate w)),
      w\<lparr>w_rate := snd (limiter_check (cf_wsEventsPerMinute cfg) t u (w_rate w))\<rparr>)"
  by (auto simp: rate_limit_ok_def limiter_check_def Let_def split: prod.splits)

interpretation gateway_limiter: rate_limiter "rate_limit_ok cfg" "\<lambda>w. rate_used (w_rate w)"
  "cf_wsEventsPerMinute cfg" "\<lambda>w. rates_ok (w_rate w)" for cfg
  by unfold_locales
    (simp_all add: rate_limit_ok_eq limiter.check_ok limiter.check_used limiter.check_admits)

section \<open>Properties\<close>

text \<open>
  \<open>UuidPipe\<close> accepts exactly the canonical text of an identifier of version 1 to 5, refuses
  everything else with 400, and normalises: what it returns it accepts again unchanged.
\<close>

theorem uuid_pipe_spec:
  "case uuid_pipe v of
     Inl e \<Rightarrow> \<not> canonical_uuid v \<and> e = BadRequest ''UUID invalide''
   | Inr u \<Rightarrow> canonical_uuid v \<and> u = to_lower v \<and> canonical_uuid u \<and> uuid_pipe u = Inr u"
  by (auto simp: uuid_pipe_def test_uuid_re canonical_to_lower)

text \<open>
  metrics are neither lost nor duplicated nor reordered while the CloudWatch client is up:
  what was sent followed by what is buffered is the sequence of pushed values, calls carry at
  most 20 values and the buffer holds fewer than 20.
\<close>

theorem metrics_conserved:
  assumes "metrics_ok w" "w_metricsClient w" "cf_metricsEnabled cfg"
  shows "let w' = fold (\<lambda>(t, n, v). metrics_count cfg t n v None) xs w in
    concat (w_metricsSent w') @ w_metrics w' = concat (w_metricsSent w) @ w_metrics w
      @ map (\<lambda>(t, n, v). \<lparr>mt_at = t, mt_name = n, mt_value = v, mt_unit = ''Count'',
               mt_dimensions = None\<rparr>) xs
    \<and> metrics_ok w'"
  unfolding Let_def using assms(1,2)
proof (induction xs arbitrary: w)
  case (Cons x xs)
  obtain t n v where x: "x = (t, n, v)" by (cases x)
  note step = metrics_push_ok [OF Cons.prems assms(3), of t n v "''Count''" None]
  show ?case
    using Cons.IH [of "metrics_count cfg t n v None w"] step x
    by (simp add: metrics_count_def)
qed simp

theorem metrics_conserved_witness:
  "let w' = fold (\<lambda>(t, n, v). metrics_count (default_config\<lparr>cf_metricsEnabled := True\<rparr>) t n v None)
        (replicate 45 (7, ''a'', 1)) (empty_world\<lparr>w_metricsClient := True\<rparr>) in metrics_ok w'"
  using metrics_conserved [of "empty_world\<lparr>w_metricsClient := True\<rparr>"
      "default_config\<lparr>cf_metricsEnabled := True\<rparr>" "replicate 45 (7, ''a'', 1)"]
  by (simp add: Let_def metrics_ok_def empty_world_def)

text \<open>
  when metrics are enabled but the client could not be loaded, the buffer grows with every
  value and is never emptied.
\<close>

theorem metrics_grow_without_client:
  assumes "\<not> w_metricsClient w" "cf_metricsEnabled cfg"
  shows "length (w_metrics (fold (\<lambda>(t, n, v). metrics_count cfg t n v None) xs w))
    = length (w_metrics w) + length xs"
  using assms(1)
proof (induction xs arbitrary: w)
  case (Cons x xs)
  then show ?case
    using Cons.IH [of "case x of (t, n, v) \<Rightarrow> metrics_count cfg t n v None w"] assms(2)
    by (auto simp: metrics_count_def metrics_push_def metrics_flush_def Let_def split: prod.splits)
qed simp

theorem metrics_grow_without_client_witness:
  "length (w_metrics (fold (\<lambda>(t, n, v). metrics_count (default_config\<lparr>cf_metricsEnabled := True\<rparr>) t n v None)
     (replicate 100 (7, ''a'', 1)) empty_world)) = 100"
  by (subst metrics_grow_without_client) (simp_all add: empty_world_def)

text \<open>
  the limiter of socket events: of any sequence of requests, at most the configured number
  of one user is admitted within one minute, and the limiter of the embedded gateway decides
  and counts exactly as the one of the dedicated gateway.
\<close>

theorem ws_rate_limited:
  assumes "rates_ok (w_rate w)"
  shows "length (filter (\<lambda>(t, v). v = u \<and> t div 60000 = k) (run_limiter (rate_limit_ok cfg) rs w))
      \<le> cf_wsEventsPerMinute cfg
    \<and> rate_limit_ok cfg t u w =
        (let (b, m) = limiter_check (cf_wsEventsPerMinute cfg) t u (w_rate w) in (b, w\<lparr>w_rate := m\<rparr>))"
  using gateway_limiter.admitted_at_most_limit [OF assms, of u k cfg rs]
  by (simp add: rate_limit_ok_eq case_prod_unfold Let_def)

theorem ws_rate_limited_witness:
  "length (filter (\<lambda>(t, v). v = ''u'' \<and> t div 60000 = 0)
     (run_limiter (rate_limit_ok default_config) (replicate 500 (5, ''u'')) empty_world)) \<le> 120"
  using ws_rate_limited [of empty_world "''u''" 0 default_config "replicate 500 (5, ''u'')"]
  by (simp add: rates_ok_def empty_world_def default_config_def)

end
