(* ===== verification/Samples.thy ===== *)
theory Samples
  imports World
begin

text \<open>
  A small world for concrete instances: a customer (Alice), a seller (Bob), a support agent
  (Sam), an administrator (Ada) and a customer foreign to everything (Eve); two orders of
  Alice at Bob's, the first of which has an open conversation.
\<close>

definition u_alice :: uuid where "u_alice = ''a11ce000-0000-4000-8000-000000000001''"
definition u_bob :: uuid where "u_bob = ''b0b00000-0000-4000-8000-000000000002''"
definition u_sam :: uuid where "u_sam = ''5a000000-0000-4000-8000-000000000003''"
definition u_ada :: uuid where "u_ada = ''ada00000-0000-4000-8000-000000000004''"
definition u_eve :: uuid where "u_eve = ''e0e00000-0000-4000-8000-000000000005''"
definition o_one :: uuid where "o_one = ''0d000000-0000-4000-8000-000000000001''"
definition o_two :: uuid where "o_two = ''0d000000-0000-4000-8000-000000000002''"
definition c_one :: uuid where "c_one = ''c0000000-0000-4000-8000-000000000001''"
definition c_two :: uuid where "c_two = ''c0000000-0000-4000-8000-000000000002''"
definition m_one :: uuid where "m_one = ''30000000-0000-4000-8000-000000000001''"
definition m_two :: uuid where "m_two = ''30000000-0000-4000-8000-000000000002''"
definition b_one :: uuid where "b_one = ''b1000000-0000-4000-8000-000000000001''"
definition b_two :: uuid where "b_two = ''b1000000-0000-4000-8000-000000000002''"

lemmas sample_ids = u_alice_def u_bob_def u_sam_def u_ada_def u_eve_def o_one_def o_two_def
  c_one_def c_two_def m_one_def m_two_def b_one_def b_two_def

definition sample_user :: "uuid \<Rightarrow> string \<Rightarrow> user_role \<Rightarrow> user_row" where
  "sample_user i e r =
     \<lparr>us_id = i, us_email = e, us_passwordHash = ''h'', us_role = r, us_displayName = None,
      us_mfaSecret = None, us_isSuspended = False, us_anonymizedAt = None,
      us_dataExportRequestedAt = None, us_createdAt = 0\<rparr>"

definition sample_order :: "uuid \<Rightarrow> string \<Rightarrow> order_row" where
  "sample_order i ref =
     \<lparr>or_id = i, or_externalRef = ref, or_customerId = u_alice, or_sellerId = u_bob,
      or_status = OOpen, or_totalCents = 100, or_currency = ''EUR'', or_createdAt = 0\<rparr>"

definition sample_conv :: "uuid \<Rightarrow> uuid \<Rightarrow> conv_row" where
  "sample_conv i oid =
     \<lparr>cv_id = i, cv_orderId = oid, cv_status = Open, cv_subject = None, cv_lastMessageAt = None,
      cv_lastSequence = 0, cv_createdAt = 0, cv_searchIndexed = False,
      cv_searchIndexedAt = None, cv_e2eeEnabled = False, cv_e2eeEnabledAt = None\<rparr>"

definition sample_part :: "uuid \<Rightarrow> uuid \<Rightarrow> user_role \<Rightarrow> part_row" where
  "sample_part c u r =
     \<lparr>pt_conversationId = c, pt_userId = u, pt_role = r, pt_joinedAt = 0, pt_leftAt = None,
      pt_muted = False, pt_lastReadSequence = 0\<rparr>"

lemmas sample_rows = sample_user_def sample_order_def sample_conv_def sample_part_def

definition sample_world :: world where
  "sample_world = empty_world
     \<lparr>w_users := [sample_user u_alice ''alice@x.fr'' Customer, sample_user u_bob ''bob@x.fr'' Seller,
        sample_user u_sam ''sam@x.fr'' Support, sample_user u_ada ''ada@x.fr'' Admin,
        sample_user u_eve ''eve@x.fr'' Customer],
      w_orders := [sample_order o_one ''R1'', sample_order o_two ''R2''],
      w_convs := [sample_conv c_one o_one],
      w_parts := [sample_part c_one u_alice Customer, sample_part c_one u_bob Seller]\<rparr>"

lemmas sample_defs = sample_world_def empty_world_def sample_rows

lemma schema_ok_sample: "schema_ok sample_world"
  unfolding schema_ok_def sample_defs
  by (simp add: clash_free_def user_clash_def order_clash_def conv_clash_def part_clash_def
      sample_ids to_lower_def lower_char_def is_upper_def code_def Let_def)

end
