(* ===== verification/Access.thy ===== *)
theory Access
  imports Platform Samples
begin

text \<open>
  Orders, users and conversations: \<open>OrdersService\<close> and its controller, \<open>UsersService\<close>,
  \<open>ConversationsService\<close>, \<open>ConversationAccessGuard\<close> and the conversations controller
  (backend/src/modules/orders, users, conversations).

  Parameters stand for third-party code: \<open>is_uuid\<close> for class-validator's \<open>IsUUID\<close>, \<open>hash\<close> and
  \<open>verify\<close> for argon2 (\<open>None\<close> when it throws), \<open>pg_uuid\<close> for PostgreSQL's reading of a \<open>uuid\<close>
  from text. Generated identifiers and the clock are arguments. \<open>createUser\<close> checks the
  constraints of the table \<open>users\<close> that its input can violate.

  The locale \<open>access_control\<close> states what the handlers behind the guard rely on; it is
  interpreted on \<open>assertCanAccess\<close>.
\<close>

section \<open>Orders\<close>

record create_order_dto =
  do_externalRef :: string
  do_customerId :: string
  do_sellerId :: string
  do_status :: "order_status option"
  do_totalCents :: "int option"
  do_currency :: "string option"

definition valid_create_order :: "(string \<Rightarrow> bool) \<Rightarrow> create_order_dto \<Rightarrow> bool" where
  "valid_create_order is_uuid d =
     (length (do_externalRef d) \<le> 64 \<and> is_uuid (do_customerId d) \<and> is_uuid (do_sellerId d)
      \<and> (case do_totalCents d of None \<Rightarrow> True | Some n \<Rightarrow> 0 \<le> n)
      \<and> (case do_currency d of None \<Rightarrow> True | Some c \<Rightarrow> length c \<le> 3))"

definition orders_findById :: "uuid \<Rightarrow> world \<Rightarrow> order_row option" where
  "orders_findById i w = find (\<lambda>r. or_id r = i) (w_orders w)"

definition orders_getOrThrow :: "uuid \<Rightarrow> world \<Rightarrow> exn + order_row" where
  "orders_getOrThrow i w =
     (case orders_findById i w of None \<Rightarrow> Inl (NotFound ''Commande introuvable'') | Some r \<Rightarrow> Inr r)"

text \<open>
  \<open>save\<close> of a row without a primary key is an \<open>INSERT\<close>. \<open>total_cents\<close> is a 32-bit column, and
  both user columns are foreign keys.
\<close>

definition upsertFromExternal ::
  "int \<Rightarrow> uuid \<Rightarrow> create_order_dto \<Rightarrow> world \<Rightarrow> (world, order_row) res" where
  "upsertFromExternal t new_id d w =
     (let r = \<lparr>or_id = new_id, or_externalRef = do_externalRef d,
                or_customerId = do_customerId d, or_sellerId = do_sellerId d,
                or_status = coalesce (do_status d) OOpen,
                or_totalCents = coalesce (do_totalCents d) 0,
                or_currency = coalesce (do_currency d) ''EUR'', or_createdAt = t\<rparr>
      in if or_totalCents r \<ge> 2 ^ 31 then (Inl (DbError ''22003''), w)
         else (case insert_row order_clash r (w_orders w) of
                 Inl e \<Rightarrow> (Inl e, w)
               | Inr rows \<Rightarrow>
                   if or_customerId r \<notin> us_id ` set (w_users w)
                      \<or> or_sellerId r \<notin> us_id ` set (w_users w)
                   then (Inl (DbError ''23503''), w)
                   else (Inr r, w\<lparr>w_orders := rows\<rparr>)))"

definition orders_upsert ::
  "(string \<Rightarrow> bool) \<Rightarrow> int \<Rightarrow> uuid \<Rightarrow> auth_user option \<Rightarrow> create_order_dto \<Rightarrow> world \<Rightarrow>
   (world, order_row) res" where
  "orders_upsert is_uuid t new_id user d w =
     (case roles_guard (Some [Admin]) user of
        Inl e \<Rightarrow> (Inl e, w)
      | Inr _ \<Rightarrow> if \<not> valid_create_order is_uuid d then (Inl (BadRequest ''Bad Request''), w)
                 else upsertFromExternal t new_id d w)"

section \<open>Users\<close>

definition users_findByEmail :: "string \<Rightarrow> world \<Rightarrow> user_row option" where
  "users_findByEmail email w =
     find (\<lambda>u. to_lower (us_email u) = to_lower (to_lower email)) (w_users w)"

definition users_findById :: "uuid \<Rightarrow> world \<Rightarrow> user_row option" where
  "users_findById i w = find (\<lambda>u. us_id u = i) (w_users w)"

definition createUser ::
  "(string \<Rightarrow> string) \<Rightarrow> int \<Rightarrow> uuid \<Rightarrow> string \<Rightarrow> string \<Rightarrow> user_role \<Rightarrow> string option \<Rightarrow>
   world \<Rightarrow> (world, user_row) res" where
  "createUser hash t new_id email password role displayName w =
     (let u = \<lparr>us_id = new_id, us_email = to_lower email, us_passwordHash = hash password,
                us_role = role, us_displayName = displayName, us_mfaSecret = None,
                us_isSuspended = False, us_anonymizedAt = None,
                us_dataExportRequestedAt = None, us_createdAt = t\<rparr>
      in if length (coalesce displayName []) > 120 then (Inl (DbError ''22001''), w)
         else (case insert_row user_clash u (w_users w) of
                 Inl e \<Rightarrow> (Inl e, w)
               | Inr rows \<Rightarrow> (Inr u, w\<lparr>w_users := rows\<rparr>)))"

definition verifyPassword :: "(string \<Rightarrow> string \<Rightarrow> bool option) \<Rightarrow> user_row \<Rightarrow> string \<Rightarrow> bool" where
  "verifyPassword verify u password =
     (case verify (us_passwordHash u) password of None \<Rightarrow> False | Some b \<Rightarrow> b)"

section \<open>Conversations\<close>

definition getByIdOrThrow :: "uuid \<Rightarrow> world \<Rightarrow> exn + conv_row" where
  "getByIdOrThrow i w =
     (case find (\<lambda>c. cv_id c = i) (w_convs w) of
        None \<Rightarrow> Inl (NotFound ''Conversation introuvable'') | Some c \<Rightarrow> Inr c)"

definition new_part :: "int \<Rightarrow> uuid \<Rightarrow> uuid \<Rightarrow> user_role \<Rightarrow> part_row" where
  "new_part t c u r =
     \<lparr>pt_conversationId = c, pt_userId = u, pt_role = r, pt_joinedAt = t, pt_leftAt = None,
      pt_muted = False, pt_lastReadSequence = 0\<rparr>"

text \<open>
  \<open>save\<close> of a participant looks its primary key up first: an absent row is inserted, a stored
  one has the columns that the entity defines (here \<open>role\<close>) updated.
\<close>

definition save_part :: "part_row \<Rightarrow> part_row list \<Rightarrow> part_row list" where
  "save_part p rows =
     (if list_ex (\<lambda>x. part_clash x p) rows
      then update_rows (\<lambda>x. part_clash x p) (\<lambda>x. x\<lparr>pt_role := pt_role p\<rparr>) rows
      else rows @ [p])"

text \<open>A query of a transaction in which a statement has failed is itself an error.\<close>

definition tx_find_conv :: "bool \<Rightarrow> uuid \<Rightarrow> world \<Rightarrow> exn + conv_row option" where
  "tx_find_conv aborted oid w =
     (if aborted then Inl (DbError ''25P02'')
      else Inr (find (\<lambda>c. cv_orderId c = oid) (w_convs w)))"

definition recover_conv :: "exn \<Rightarrow> uuid \<Rightarrow> world \<Rightarrow> exn + conv_row \<times> world" where
  "recover_conv e oid w =
     (if e = DbError ''23505''
      then (case tx_find_conv True oid w of
              Inl e' \<Rightarrow> Inl e' | Inr (Some c) \<Rightarrow> Inr (c, w) | Inr None \<Rightarrow> Inl e)
      else Inl e)"

definition insert_two_parts :: "part_row \<Rightarrow> part_row \<Rightarrow> part_row list \<Rightarrow> exn + part_row list" where
  "insert_two_parts p q rows =
     (case insert_row part_clash p rows of
        Inl e \<Rightarrow> Inl e | Inr rows' \<Rightarrow> insert_row part_clash q rows')"

definition create_conversation ::
  "int \<Rightarrow> uuid \<Rightarrow> order_row \<Rightarrow> uuid \<Rightarrow> world \<Rightarrow> exn + conv_row \<times> world" where
  "create_conversation t new_id ord actor w =
     (let conv = \<lparr>cv_id = new_id, cv_orderId = or_id ord, cv_status = Open,
                   cv_subject = Some (''Commande '' @ or_externalRef ord),
                   cv_lastMessageAt = None, cv_lastSequence = 0, cv_createdAt = t,
                   cv_searchIndexed = False, cv_searchIndexedAt = None,
                   cv_e2eeEnabled = False, cv_e2eeEnabledAt = None\<rparr>
      in case insert_row conv_clash conv (w_convs w) of
           Inl e \<Rightarrow> recover_conv e (or_id ord) w
         | Inr convs \<Rightarrow>
             (case insert_two_parts (new_part t new_id (or_customerId ord) Customer)
                     (new_part t new_id (or_sellerId ord) Seller) (w_parts w) of
                Inl e \<Rightarrow> recover_conv e (or_id ord) w
              | Inr parts \<Rightarrow>
                  Inr (conv,
                    audit_log (mk_audit actor ''conversation.created'' ''conversation'' new_id
                        (Some [(''orderId'', JStr (or_id ord)),
                               (''externalRef'', JStr (or_externalRef ord))]))
                      (w\<lparr>w_convs := convs, w_parts := parts\<rparr>))))"

definition getOrCreateForOrder ::
  "int \<Rightarrow> uuid \<Rightarrow> uuid \<Rightarrow> uuid \<Rightarrow> world \<Rightarrow> (world, conv_row) res" where
  "getOrCreateForOrder t new_id oid actor w =
     (case orders_getOrThrow oid w of
        Inl e \<Rightarrow> (Inl e, w)
      | Inr ord \<Rightarrow>
          (case find (\<lambda>c. cv_orderId c = oid) (w_convs w) of
             Some c \<Rightarrow> (Inr c, w)
           | None \<Rightarrow> transact (create_conversation t new_id ord actor) w))"

text \<open>\<open>ORDER BY last_message_at DESC NULLS LAST LIMIT n\<close>; equal keys keep the table's order.\<close>

definition listForUser :: "uuid \<Rightarrow> nat \<Rightarrow> world \<Rightarrow> conv_row list" where
  "listForUser u limit w =
     (let joined = filter (\<lambda>c. list_ex (\<lambda>p. pt_conversationId p = cv_id c \<and> pt_userId p = u
                     \<and> pt_leftAt p = None) (w_parts w)) (w_convs w)
      in take limit
           (sort_key (\<lambda>c. - coalesce (cv_lastMessageAt c) 0)
              (filter (\<lambda>c. cv_lastMessageAt c \<noteq> None) joined)
            @ filter (\<lambda>c. cv_lastMessageAt c = None) joined))"

definition active_part :: "uuid \<Rightarrow> uuid \<Rightarrow> world \<Rightarrow> part_row option" where
  "active_part c u w =
     find (\<lambda>p. pt_conversationId p = c \<and> pt_userId p = u \<and> pt_leftAt p = None) (w_parts w)"

definition is_staff :: "user_role \<Rightarrow> bool" where
  "is_staff r = (r = Support \<or> r = Admin)"

definition assertCanAccess ::
  "int \<Rightarrow> uuid \<Rightarrow> user_role \<Rightarrow> uuid \<Rightarrow> world \<Rightarrow> (world, conv_row \<times> user_role) res" where
  "assertCanAccess t u role c w =
     (case getByIdOrThrow c w of
        Inl e \<Rightarrow> (Inl e, w)
      | Inr conv \<Rightarrow>
          (case active_part c u w of
             Some p \<Rightarrow> (Inr (conv, pt_role p), w)
           | None \<Rightarrow>
               if is_staff role then
                 (Inr (conv, role),
                  audit_log (mk_audit u ''conversation.support_joined'' ''conversation'' c
                      (Some [(''role'', JStr (role_string role))]))
                    (w\<lparr>w_parts := save_part (new_part t c u role) (w_parts w)\<rparr>))
               else (Inl (Forbidden (''Vous n'' @ [CHR 0x27] @ [CHR 0xEA] @ ''tes pas autoris'' @ [CHR 0xE9]
                           @ '' sur cette conversation'')), w)))"

definition assertCanWrite :: "conv_row \<Rightarrow> exn + unit" where
  "assertCanWrite conv =
     (if cv_status conv \<noteq> Open
      then Inl (Conflict (''Conversation ferm'' @ [CHR 0xE9] @ ''e ou archiv'' @ [CHR 0xE9] @ ''e''))
      else Inr ())"

definition bumpLastMessage :: "int \<Rightarrow> uuid \<Rightarrow> int \<Rightarrow> world \<Rightarrow> world" where
  "bumpLastMessage t c n w =
     w\<lparr>w_convs := update_rows (\<lambda>x. cv_id x = c)
        (\<lambda>x. x\<lparr>cv_lastMessageAt := Some t, cv_lastSequence := n\<rparr>) (w_convs w)\<rparr>"

definition listParticipants :: "uuid \<Rightarrow> world \<Rightarrow> part_row list" where
  "listParticipants c w = filter (\<lambda>p. pt_conversationId p = c) (w_parts w)"

section \<open>The guard and the controller\<close>

definition conversation_access_guard ::
  "(string \<Rightarrow> uuid option) \<Rightarrow> int \<Rightarrow> auth_user option \<Rightarrow> string option \<Rightarrow> string option \<Rightarrow>
   string option \<Rightarrow> world \<Rightarrow> (world, conv_row \<times> user_role) res" where
  "conversation_access_guard pg_uuid t user p_conv p_id b_conv w =
     (case user of
        None \<Rightarrow> (Inl (Forbidden (''Non authentifi'' @ [CHR 0xE9])), w)
      | Some u \<Rightarrow>
          (let cid = (case p_conv of Some x \<Rightarrow> Some x
                      | None \<Rightarrow> (case p_id of Some x \<Rightarrow> Some x | None \<Rightarrow> b_conv))
           in if \<not> truthy cid then (Inl (Forbidden ''Conversation requise''), w)
              else (case pg_uuid (coalesce cid []) of
                      None \<Rightarrow> (Inl (DbError ''22P02''), w)
                    | Some c \<Rightarrow> assertCanAccess t (au_sub u) (au_role u) c w)))"

definition conversations_list :: "auth_user \<Rightarrow> world \<Rightarrow> conv_row list" where
  "conversations_list u w = listForUser (au_sub u) 30 w"

definition openByOrder ::
  "int \<Rightarrow> uuid \<Rightarrow> auth_user \<Rightarrow> string \<Rightarrow> world \<Rightarrow> (world, conv_row) res" where
  "openByOrder t new_id user raw w =
     (case uuid_pipe raw of
        Inl e \<Rightarrow> (Inl e, w) | Inr oid \<Rightarrow> getOrCreateForOrder t new_id oid (au_sub user) w)"

definition conversations_getOne ::
  "(string \<Rightarrow> uuid option) \<Rightarrow> int \<Rightarrow> auth_user option \<Rightarrow> string \<Rightarrow> world \<Rightarrow>
   (world, conv_row \<times> part_row list \<times> user_role) res" where
  "conversations_getOne pg_uuid t user raw w =
     (case conversation_access_guard pg_uuid t user (Some raw) None None w of
        (Inl e, w') \<Rightarrow> (Inl e, w')
      | (Inr (conv, myRole), w') \<Rightarrow> (Inr (conv, listParticipants (cv_id conv) w', myRole), w'))"

section \<open>Lookups and rows\<close>

lemma getByIdOrThrow_Inr: "getByIdOrThrow i w = Inr c \<Longrightarrow> c \<in> set (w_convs w) \<and> cv_id c = i"
  by (auto simp: getByIdOrThrow_def split: option.splits dest: find_SomeD)

lemma getByIdOrThrow_Inl:
  "getByIdOrThrow i w = Inl e \<Longrightarrow> e = NotFound ''Conversation introuvable'' \<and> (\<forall>c \<in> set (w_convs w). cv_id c \<noteq> i)"
  by (auto simp: getByIdOrThrow_def split: option.splits dest: find_NoneD)

lemma active_part_Some:
  "active_part c u w = Some p \<Longrightarrow>
   p \<in> set (w_parts w) \<and> pt_conversationId p = c \<and> pt_userId p = u \<and> pt_leftAt p = None"
  by (auto simp: active_part_def dest: find_SomeD)

lemma audit_log_fields [simp]:
  "w_users (audit_log a w) = w_users w" "w_orders (audit_log a w) = w_orders w"
  "w_convs (audit_log a w) = w_convs w" "w_parts (audit_log a w) = w_parts w"
  "w_msgs (audit_log a w) = w_msgs w" "w_receipts (audit_log a w) = w_receipts w"
  "w_outbox (audit_log a w) = w_outbox w" "w_reports (audit_log a w) = w_reports w"
  "w_tokens (audit_log a w) = w_tokens w" "w_emails (audit_log a w) = w_emails w"
  "w_kps (audit_log a w) = w_kps w" "w_groups (audit_log a w) = w_groups w"
  "w_mls (audit_log a w) = w_mls w" "w_atts (audit_log a w) = w_atts w"
  "w_emits (audit_log a w) = w_emits w" "w_index (audit_log a w) = w_index w"
  "w_auditUp (audit_log a w) = w_auditUp w" "w_s3 (audit_log a w) = w_s3 w"
  "w_nats (audit_log a w) = w_nats w" "w_mails (audit_log a w) = w_mails w"
  "w_metrics (audit_log a w) = w_metrics w" "w_dekCache (audit_log a w) = w_dekCache w"
  "w_presence (audit_log a w) = w_presence w"
  "w_audit (audit_log a w) = (if w_auditUp w then w_audit w @ [a] else w_audit w)"
  by (simp_all add: audit_log_def)

lemma audit_log_eq: "audit_log a w = w\<lparr>w_audit := w_audit (audit_log a w)\<rparr>"
  by (simp add: audit_log_def)

lemma save_part_clash_free [inv_intros]:
  assumes "clash_free part_clash rows"
  shows "clash_free part_clash (save_part p rows)"
proof (cases "list_ex (\<lambda>x. part_clash x p) rows")
  case True
  then show ?thesis
    by (auto simp: save_part_def part_clash_def split: if_splits intro!: clash_free_update assms)
next
  case False
  with assms show ?thesis by (auto simp: save_part_def clash_free_snoc list_ex_iff)
qed

text \<open>\<open>save_part\<close> leaves at most the role of a stored row changed, and stores the row's key.\<close>

lemma save_part_keeps:
  assumes "q \<in> set rows"
  shows "\<exists>q' \<in> set (save_part p rows). pt_conversationId q' = pt_conversationId q
     \<and> pt_userId q' = pt_userId q \<and> pt_leftAt q' = pt_leftAt q"
proof (cases "list_ex (\<lambda>x. part_clash x p) rows")
  case True
  from in_update_rowsI [OF assms, of "\<lambda>x. part_clash x p" "\<lambda>x. x\<lparr>pt_role := pt_role p\<rparr>"]
  have "(if part_clash q p then q\<lparr>pt_role := pt_role p\<rparr> else q) \<in> set (save_part p rows)"
    using True by (simp add: save_part_def)
  then show ?thesis by (rule rev_bexI) simp
next
  case False
  with assms show ?thesis by (auto simp: save_part_def)
qed

lemma save_part_new:
  "(\<And>x. x \<in> set rows \<Longrightarrow> \<not> part_clash x p) \<Longrightarrow> save_part p rows = rows @ [p]"
  by (auto simp: save_part_def list_ex_iff)

lemma save_part_from:
  "q \<in> set (save_part p rows) \<Longrightarrow> q = p \<or> (\<exists>q0 \<in> set rows.
     pt_conversationId q = pt_conversationId q0 \<and> pt_userId q = pt_userId q0
     \<and> pt_leftAt q = pt_leftAt q0 \<and> pt_lastReadSequence q = pt_lastReadSequence q0)"
  by (auto simp: save_part_def set_update_rows split: if_splits)

section \<open>Access control\<close>

text \<open>
  \<open>may_access\<close> is the policy; \<open>access_frame\<close> says what granting may change: participants and
  the audit log.
\<close>

definition may_access :: "uuid \<Rightarrow> user_role \<Rightarrow> uuid \<Rightarrow> world \<Rightarrow> bool" where
  "may_access u role c w =
     (list_ex (\<lambda>x. cv_id x = c) (w_convs w) \<and> (is_staff role \<or> active_part c u w \<noteq> None))"

definition access_frame :: "world \<Rightarrow> world \<Rightarrow> bool" where
  "access_frame w w' \<longleftrightarrow>
     (\<exists>ps au. w' = w\<lparr>w_parts := ps, w_audit := au\<rparr>
        \<and> (clash_free part_clash (w_parts w) \<longrightarrow> clash_free part_clash ps))"

lemma access_frameI:
  "(clash_free part_clash (w_parts w) \<Longrightarrow> clash_free part_clash ps) \<Longrightarrow>
   access_frame w (w\<lparr>w_parts := ps, w_audit := au\<rparr>)"
  unfolding access_frame_def by blast

lemma access_frame_refl [simp]: "access_frame w w"
  using access_frameI [of w "w_parts w" "w_audit w"] by simp

lemma access_frameD:
  assumes "access_frame w w'"
  shows "w_convs w' = w_convs w" "w_msgs w' = w_msgs w" "w_outbox w' = w_outbox w"
    "w_users w' = w_users w" "w_orders w' = w_orders w" "w_receipts w' = w_receipts w"
    "w_tokens w' = w_tokens w" "w_emails w' = w_emails w" "w_groups w' = w_groups w"
    "w_mls w' = w_mls w" "w_kps w' = w_kps w" "w_atts w' = w_atts w" "w_emits w' = w_emits w"
    "w_index w' = w_index w" "w_reports w' = w_reports w" "w_s3 w' = w_s3 w"
    "clash_free part_clash (w_parts w) \<Longrightarrow> clash_free part_clash (w_parts w')"
  using assms by (auto simp: access_frame_def)

lemma access_frame_schema_ok [inv_intros]:
  "access_frame w w' \<Longrightarrow> schema_ok w \<Longrightarrow> schema_ok w'"
  by (auto simp: schema_ok_def access_frameD)

text \<open>The interface: who is admitted, what admitting changes, and that refusing changes nothing.\<close>

definition guarded ::
  "('s \<Rightarrow> (exn + 'g) \<times> 's) \<Rightarrow> ('g \<Rightarrow> 's \<Rightarrow> (exn + 'a) \<times> 's) \<Rightarrow> 's \<Rightarrow> (exn + 'a) \<times> 's" where
  "guarded allow k s = (case allow s of (Inl e, s') \<Rightarrow> (Inl e, s') | (Inr g, s') \<Rightarrow> k g s')"

locale access_control =
  fixes allow :: "'p \<Rightarrow> 's \<Rightarrow> (exn + 'g) \<times> 's"
    and may :: "'p \<Rightarrow> 's \<Rightarrow> bool"
    and frame :: "'s \<Rightarrow> 's \<Rightarrow> bool"
  assumes denied: "\<not> may p s \<Longrightarrow> \<exists>e. allow p s = (Inl e, s)"
    and granted: "may p s \<Longrightarrow> \<exists>g s'. allow p s = (Inr g, s') \<and> frame s s'"
begin

lemma guarded_denied: "\<not> may p s \<Longrightarrow> \<exists>e. guarded (allow p) k s = (Inl e, s)"
  using denied [of p s] by (auto simp: guarded_def)

lemma guarded_success:
  assumes "guarded (allow p) k s = (Inr a, s'')"
  shows "may p s \<and> (\<exists>g s'. allow p s = (Inr g, s') \<and> frame s s' \<and> k g s' = (Inr a, s''))"
  using assms denied [of p s] granted [of p s] by (cases "may p s") (auto simp: guarded_def)

lemma guarded_preserves:
  assumes "P s" "\<And>s'. frame s s' \<Longrightarrow> P s'" "\<And>g s'. P s' \<Longrightarrow> P (snd (k g s'))"
  shows "P (snd (guarded (allow p) k s))"
  using assms denied [of p s] granted [of p s] by (cases "may p s") (auto simp: guarded_def)

end

text \<open>The model's \<open>assertCanAccess\<close> implements it.\<close>

lemma assertCanAccess_denied:
  assumes "\<not> may_access u r c w"
  shows "assertCanAccess t u r c w = (Inl (case getByIdOrThrow c w of Inl e \<Rightarrow> e
      | Inr _ \<Rightarrow> Forbidden (''Vous n'' @ [CHR 0x27] @ [CHR 0xEA] @ ''tes pas autoris'' @ [CHR 0xE9]
                           @ '' sur cette conversation'')), w)"
  using assms
  by (auto simp: assertCanAccess_def may_access_def list_ex_iff split: sum.splits option.splits
      dest: getByIdOrThrow_Inr)

lemma assertCanAccess_granted:
  assumes "may_access u r c w"
  shows "\<exists>conv pr w'. assertCanAccess t u r c w = (Inr (conv, pr), w') \<and> conv \<in> set (w_convs w)
    \<and> cv_id conv = c \<and> access_frame w w'"
proof -
  from assms obtain conv where conv: "getByIdOrThrow c w = Inr conv"
    by (cases "getByIdOrThrow c w") (auto simp: may_access_def list_ex_iff dest: getByIdOrThrow_Inl)
  show ?thesis
  proof (cases "active_part c u w")
    case None
    with assms have staff: "is_staff r" by (simp add: may_access_def)
    let ?w' = "audit_log (mk_audit u ''conversation.support_joined'' ''conversation'' c
                      (Some [(''role'', JStr (role_string r))]))
                    (w\<lparr>w_parts := save_part (new_part t c u r) (w_parts w)\<rparr>)"
    have "access_frame w ?w'"
      by (subst audit_log_eq) (simp add: access_frameI save_part_clash_free)
    with None staff conv getByIdOrThrow_Inr [OF conv] show ?thesis
      by (simp add: assertCanAccess_def)
  next
    case (Some p)
    with conv getByIdOrThrow_Inr [OF conv] show ?thesis by (auto simp: assertCanAccess_def)
  qed
qed

interpretation conv_access: access_control
  "\<lambda>(u, r, c). assertCanAccess t u r c" "\<lambda>(u, r, c). may_access u r c" access_frame for t
  by unfold_locales
    (auto simp: assertCanAccess_denied, metis assertCanAccess_granted)

text \<open>The guard in front of the controllers implements it too, for the identifier it picks.\<close>

definition guard_target ::
  "(string \<Rightarrow> uuid option) \<Rightarrow> string option \<Rightarrow> string option \<Rightarrow> string option \<Rightarrow> uuid option" where
  "guard_target pg_uuid p_conv p_id b_conv =
     (let cid = (case p_conv of Some x \<Rightarrow> Some x
                 | None \<Rightarrow> (case p_id of Some x \<Rightarrow> Some x | None \<Rightarrow> b_conv))
      in if truthy cid then pg_uuid (coalesce cid []) else None)"

definition guard_may ::
  "(string \<Rightarrow> uuid option) \<Rightarrow> auth_user option \<Rightarrow> string option \<Rightarrow> string option \<Rightarrow> string option \<Rightarrow>
   world \<Rightarrow> bool" where
  "guard_may pg_uuid user p_conv p_id b_conv w =
     (case user of None \<Rightarrow> False
      | Some u \<Rightarrow> (case guard_target pg_uuid p_conv p_id b_conv of None \<Rightarrow> False
                   | Some c \<Rightarrow> may_access (au_sub u) (au_role u) c w))"

interpretation guard: access_control
  "\<lambda>(user, a, b, c). conversation_access_guard pg_uuid t user a b c"
  "\<lambda>(user, a, b, c). guard_may pg_uuid user a b c" access_frame for pg_uuid t
proof (unfold_locales, goal_cases)
  case (1 p s)
  then show ?case
    using assertCanAccess_denied
    by (auto simp: conversation_access_guard_def guard_may_def guard_target_def Let_def
        split: prod.splits option.splits if_splits)
next
  case (2 p s)
  then show ?case
    using assertCanAccess_granted
    by (fastforce simp: conversation_access_guard_def guard_may_def guard_target_def Let_def
        split: prod.splits option.splits if_splits)
qed

section \<open>Conversations of orders\<close>

lemma orders_getOrThrow_Inr: "orders_getOrThrow i w = Inr r \<Longrightarrow> r \<in> set (w_orders w) \<and> or_id r = i"
  by (auto simp: orders_getOrThrow_def orders_findById_def split: option.splits dest: find_SomeD)

lemma orders_getOrThrow_cong: "w_orders w' = w_orders w \<Longrightarrow> orders_getOrThrow i w' = orders_getOrThrow i w"
  by (simp add: orders_getOrThrow_def orders_findById_def)

lemma recover_conv_not_Inr [simp]: "recover_conv e i w \<noteq> Inr x"
  by (simp add: recover_conv_def tx_find_conv_def)

lemma insert_two_parts_InrD:
  "insert_two_parts p q rows = Inr rows' \<Longrightarrow> rows' = rows @ [p, q] \<and>
   (clash_free part_clash rows \<longrightarrow> clash_free part_clash rows')"
  unfolding insert_two_parts_def
  by (auto split: sum.splits dest!: insert_row_InrD simp: clash_free_snoc clash_free_def
      sorted_wrt_append)

lemma create_conversation_Inr:
  assumes "create_conversation t i ord a w = Inr (conv, w')"
  shows "cv_orderId conv = or_id ord" "cv_id conv = i" "cv_status conv = Open"
    "cv_lastSequence conv = 0" "\<forall>c \<in> set (w_convs w). \<not> conv_clash c conv"
    "\<exists>au. w' = audit_log au (w\<lparr>w_convs := w_convs w @ [conv],
       w_parts := w_parts w @ [new_part t i (or_customerId ord) Customer,
                               new_part t i (or_sellerId ord) Seller]\<rparr>)"
    "clash_free part_clash (w_parts w) \<Longrightarrow> clash_free part_clash (w_parts w')"
  using assms unfolding create_conversation_def Let_def
  by (auto split: sum.splits dest!: insert_row_InrD insert_two_parts_InrD)

lemma getOrCreate_Inr:
  assumes "getOrCreateForOrder t i oid a w = (Inr conv, w')"
  shows "orders_getOrThrow oid w' = orders_getOrThrow oid w
    \<and> find (\<lambda>c. cv_orderId c = oid) (w_convs w') = Some conv
    \<and> (w' = w \<or> find (\<lambda>c. cv_orderId c = oid) (w_convs w) = None
         \<and> (\<exists>ord. orders_getOrThrow oid w = Inr ord \<and> create_conversation t i ord a w = Inr (conv, w')))"
proof -
  from assms obtain ord where ord: "orders_getOrThrow oid w = Inr ord"
    by (cases "orders_getOrThrow oid w") (auto simp: getOrCreateForOrder_def)
  show ?thesis
  proof (cases "find (\<lambda>c. cv_orderId c = oid) (w_convs w)")
    case (Some c)
    with assms ord show ?thesis by (simp add: getOrCreateForOrder_def)
  next
    case None
    with assms ord have cr: "create_conversation t i ord a w = Inr (conv, w')"
      by (auto simp: getOrCreateForOrder_def dest: transact_InrD)
    obtain au where w': "w' = audit_log au (w\<lparr>w_convs := w_convs w @ [conv],
       w_parts := w_parts w @ [new_part t i (or_customerId ord) Customer,
                               new_part t i (or_sellerId ord) Seller]\<rparr>)"
      using create_conversation_Inr(6) [OF cr] by blast
    with None create_conversation_Inr(1) [OF cr] orders_getOrThrow_Inr [OF ord]
    have "find (\<lambda>c. cv_orderId c = oid) (w_convs w') = Some conv" by (simp add: find_append)
    moreover have "orders_getOrThrow oid w' = orders_getOrThrow oid w"
      by (rule orders_getOrThrow_cong) (simp add: w')
    ultimately show ?thesis using cr ord None by blast
  qed
qed

lemma getOrCreate_schema_ok [inv_intros]:
  assumes "schema_ok w"
  shows "schema_ok (snd (getOrCreateForOrder t i oid a w))"
proof (cases "getOrCreateForOrder t i oid a w")
  case (Pair r w')
  show ?thesis
  proof (cases r)
    case (Inl e)
    with Pair have "w' = w"
      by (auto simp: getOrCreateForOrder_def split: sum.splits option.splits dest: transact_InlD)
    with Pair assms show ?thesis by simp
  next
    case (Inr conv)
    with Pair have "getOrCreateForOrder t i oid a w = (Inr conv, w')" by simp
    from getOrCreate_Inr [OF this] consider "w' = w"
      | ord where "create_conversation t i ord a w = Inr (conv, w')" by blast
    then show ?thesis
    proof cases
      case 2
      from create_conversation_Inr(5-7) [OF 2] assms Pair
      show ?thesis by (auto simp: schema_ok_def clash_free_snoc)
    qed (simp add: Pair assms)
  qed
qed

section \<open>Properties\<close>

text \<open>
  C11: \<open>assertCanAccess\<close> decides exactly the policy: it succeeds when the conversation exists
  and the user is support, admin or an active participant, returning that conversation and
  changing participants and audit log only; otherwise it fails and changes nothing.
\<close>

theorem access_decision:
  "case assertCanAccess t u r c w of
     (Inl e, w') \<Rightarrow> \<not> may_access u r c w \<and> w' = w
   | (Inr (conv, pr), w') \<Rightarrow>
       may_access u r c w \<and> conv \<in> set (w_convs w) \<and> cv_id conv = c \<and> access_frame w w'"
proof (cases "may_access u r c w")
  case True
  with assertCanAccess_granted [OF True, of t] show ?thesis by auto
next
  case False
  with assertCanAccess_denied [OF False, of t] show ?thesis by simp
qed

text \<open>
  a support agent or administrator who never took part is added to the participants with
  his role, and the access is written to the audit log.
\<close>

theorem staff_join_logged:
  assumes "is_staff r" "getByIdOrThrow c w = Inr conv" "w_auditUp w"
    and "\<forall>p \<in> set (w_parts w). \<not> (pt_conversationId p = c \<and> pt_userId p = u)"
  shows "assertCanAccess t u r c w =
    (Inr (conv, r), w\<lparr>w_parts := w_parts w @ [new_part t c u r],
       w_audit := w_audit w @ [mk_audit u ''conversation.support_joined'' ''conversation'' c
         (Some [(''role'', JStr (role_string r))])]\<rparr>)"
proof -
  have "active_part c u w = None"
    using assms(4) by (cases "active_part c u w") (auto dest: active_part_Some)
  moreover have "save_part (new_part t c u r) (w_parts w) = w_parts w @ [new_part t c u r]"
    using assms(4) by (intro save_part_new) (auto simp: part_clash_def new_part_def)
  ultimately show ?thesis
    using assms(1-3) by (simp add: assertCanAccess_def audit_log_def)
qed

theorem staff_join_logged_witness:
  "\<exists>w'. assertCanAccess 5 u_sam Support c_one sample_world = (Inr (sample_conv c_one o_one, Support), w')
     \<and> length (w_parts w') = 3 \<and> length (w_audit w') = 1"
  by (subst staff_join_logged [where conv = "sample_conv c_one o_one"])
    (simp_all add: is_staff_def getByIdOrThrow_def sample_defs sample_ids)

text \<open>
  C27: one conversation per order: a successful \<open>getOrCreateForOrder\<close> returns the conversation
  of that order, every later call returns the same one and changes nothing, and the unique
  constraint on the order is kept.
\<close>

theorem one_conversation_per_order:
  assumes "getOrCreateForOrder t i oid a w = (Inr conv, w')"
  shows "cv_orderId conv = oid \<and> conv \<in> set (w_convs w')
    \<and> getOrCreateForOrder t2 i2 oid a2 w' = (Inr conv, w')
    \<and> (clash_free conv_clash (w_convs w) \<longrightarrow> (\<forall>c \<in> set (w_convs w'). cv_orderId c = oid \<longrightarrow> c = conv))"
proof -
  note gc = getOrCreate_Inr [OF assms]
  have found: "conv \<in> set (w_convs w') \<and> cv_orderId conv = oid" using gc by (auto dest: find_SomeD)
  obtain ord where "orders_getOrThrow oid w' = Inr ord"
    using assms gc by (cases "orders_getOrThrow oid w") (auto simp: getOrCreateForOrder_def)
  then have again: "getOrCreateForOrder t2 i2 oid a2 w' = (Inr conv, w')"
    using gc by (simp add: getOrCreateForOrder_def)
  have "c = conv" if "clash_free conv_clash (w_convs w)" "c \<in> set (w_convs w')" "cv_orderId c = oid" for c
  proof -
    have "clash_free conv_clash (w_convs w')"
      using gc that(1) create_conversation_Inr(5,6) by (fastforce simp: clash_free_snoc)
    from clash_freeD [OF this that(2), of conv] found that(3) show ?thesis
      by (auto simp: conv_clash_def)
  qed
  with found again show ?thesis by blast
qed

theorem one_conversation_per_order_witness:
  "\<exists>conv w'. getOrCreateForOrder 7 c_two o_two u_alice sample_world = (Inr conv, w')
     \<and> getOrCreateForOrder 9 c_one o_two u_bob w' = (Inr conv, w')"
proof -
  have "\<exists>conv w'. getOrCreateForOrder 7 c_two o_two u_alice sample_world = (Inr conv, w')"
    by (rule run_Inr) code_simp
  then show ?thesis using one_conversation_per_order by blast
qed

text \<open>
  the recovery of a lost race is dead code: once another transaction has created the
  conversation of the order, the insertion fails, and so does the query that should fetch
  the winner's row, because PostgreSQL refuses statements in a failed transaction.
\<close>

theorem lost_race_not_recovered:
  assumes "c \<in> set (w_convs w)" "cv_orderId c = or_id ord"
  shows "transact (create_conversation t i ord a) w = (Inl (DbError ''25P02''), w)"
proof -
  have "create_conversation t i ord a w = Inl (DbError ''25P02'')"
    using assms unfolding create_conversation_def Let_def insert_row_def
    by (auto simp: list_ex_iff conv_clash_def recover_conv_def tx_find_conv_def)
  then show ?thesis by simp
qed

theorem lost_race_not_recovered_witness:
  "transact (create_conversation 7 c_two (sample_order o_one ''R1'') u_alice) sample_world
     = (Inl (DbError ''25P02''), sample_world)"
  by (rule lost_race_not_recovered [of "sample_conv c_one o_one"]) (simp_all add: sample_defs)

text \<open>
  opening a conversation by its order asks for no right on the order: every
  authenticated user obtains the stored conversation of any order whose identifier he
  knows, also when the guard of the other endpoints refuses him.
\<close>

theorem open_by_order_unchecked:
  assumes "uuid_pipe raw = Inr oid" "orders_getOrThrow oid w = Inr ord"
    and "find (\<lambda>c. cv_orderId c = oid) (w_convs w) = Some conv"
    and "\<not> may_access (au_sub user) (au_role user) (cv_id conv) w"
  shows "openByOrder t i user raw w = (Inr conv, w) \<and>
    (\<exists>e. assertCanAccess t (au_sub user) (au_role user) (cv_id conv) w = (Inl e, w))"
  using assms assertCanAccess_denied
  by (simp add: openByOrder_def getOrCreateForOrder_def)

theorem open_by_order_unchecked_witness:
  "openByOrder 7 c_two \<lparr>au_sub = u_eve, au_role = Customer, au_email = []\<rparr> o_one sample_world =
     (Inr (sample_conv c_one o_one), sample_world)"
proof -
  have "uuid_pipe o_one = Inr o_one" by code_simp
  moreover have "orders_getOrThrow o_one sample_world = Inr (sample_order o_one ''R1'')"
    by (simp add: orders_getOrThrow_def orders_findById_def sample_defs)
  moreover have "find (\<lambda>c. cv_orderId c = o_one) (w_convs sample_world) = Some (sample_conv c_one o_one)"
    by (simp add: sample_defs)
  moreover have "\<not> may_access u_eve Customer (cv_id (sample_conv c_one o_one)) sample_world"
    by (simp add: may_access_def is_staff_def active_part_def sample_defs sample_ids)
  ultimately show ?thesis
    using open_by_order_unchecked [of o_one o_one sample_world _ _
        "\<lparr>au_sub = u_eve, au_role = Customer, au_email = []\<rparr>" 7 c_two] by simp
qed

end
