(* ===== verification/Crypto.thy ===== *)
theory Crypto
  imports World
begin

text \<open>
  Envelope encryption of message bodies (backend/src/modules/crypto): the text encodings, the
  local and the AWS key providers, the factory that chooses one, and \<open>EnvelopeCryptoService\<close>
  with its cache of data keys.

  AES-256-GCM and the AWS client are parameters, the record \<open>crypto_env\<close>; a failing call is
  \<open>None\<close>. What the code relies on is \<open>aead_ok\<close>: decryption with the same key and nonce undoes
  encryption, and the tag has 16 bytes. Random bytes are arguments. The data key that is
  overwritten after use is a local value here.

  UTF-8 is modelled on the code units below 256 (see \<open>Js_Text\<close>); any other decoded character,
  the replacement character included, appears as \<open>CHR 0x1A\<close>.
\<close>

section \<open>Encodings\<close>

definition byte_of :: "nat \<Rightarrow> byte" where
  "byte_of n = word_of_nat n"

fun utf8_encode :: "string \<Rightarrow> bytes" where
  "utf8_encode [] = []"
| "utf8_encode (c # s) =
     (let n = code c in
      (if n < 128 then [byte_of n] else [byte_of (192 + n div 64), byte_of (128 + n mod 64)])
      @ utf8_encode s)"

fun utf8_decode :: "bytes \<Rightarrow> string" where
  "utf8_decode [] = []"
| "utf8_decode [b] = [if unat b < 128 then char_of (unat b) else CHR 0x1A]"
| "utf8_decode (b # b2 # bs) =
     (if unat b < 128 then char_of (unat b) # utf8_decode (b2 # bs)
      else if (unat b = 194 \<or> unat b = 195) \<and> 128 \<le> unat b2 \<and> unat b2 < 192
      then char_of ((unat b - 192) * 64 + (unat b2 - 128)) # utf8_decode bs
      else CHR 0x1A # utf8_decode (b2 # bs))"

definition b64_char :: "nat \<Rightarrow> char" where
  "b64_char n = (if n < 26 then char_of (65 + n) else if n < 52 then char_of (71 + n)
     else if n < 62 then char_of (n - 4) else if n = 62 then CHR ''+'' else CHR ''/'')"

definition b64_val :: "char \<Rightarrow> nat option" where
  "b64_val c = (let n = code c in
     if is_upper c then Some (n - 65) else if is_lower c then Some (n - 71)
     else if is_digit c then Some (n + 4)
     else if c = CHR ''+'' \<or> c = CHR ''-'' then Some 62
     else if c = CHR ''/'' \<or> c = CHR ''_'' then Some 63 else None)"

fun b64_encode :: "bytes \<Rightarrow> string" where
  "b64_encode [] = []"
| "b64_encode [a] =
     (let x = unat a in [b64_char (x div 4), b64_char (x mod 4 * 16), CHR ''='', CHR ''=''])"
| "b64_encode [a, b] =
     (let x = unat a; y = unat b in
      [b64_char (x div 4), b64_char (x mod 4 * 16 + y div 16), b64_char (y mod 16 * 4), CHR ''=''])"
| "b64_encode (a # b # c # bs) =
     (let x = unat a; y = unat b; z = unat c in
      [b64_char (x div 4), b64_char (x mod 4 * 16 + y div 16),
       b64_char (y mod 16 * 4 + z div 64), b64_char (z mod 64)] @ b64_encode bs)"

fun b64_group :: "nat list \<Rightarrow> bytes" where
  "b64_group (p # q # r # s # xs) =
     [byte_of (p * 4 + q div 16), byte_of (q mod 16 * 16 + r div 4), byte_of (r mod 4 * 64 + s)]
     @ b64_group xs"
| "b64_group [p, q, r] = [byte_of (p * 4 + q div 16), byte_of (q mod 16 * 16 + r div 4)]"
| "b64_group [p, q] = [byte_of (p * 4 + q div 16)]"
| "b64_group xs = []"

text \<open>\<open>Buffer.from(s, 'base64')\<close> skips what is not in the alphabet and stops at the padding.\<close>

definition b64_decode :: "string \<Rightarrow> bytes" where
  "b64_decode s = b64_group (List.map_filter b64_val (takeWhile (\<lambda>c. c \<noteq> CHR ''='') s))"

section \<open>The third-party primitives\<close>

record crypto_env =
  ce_enc :: "bytes \<Rightarrow> bytes \<Rightarrow> bytes \<Rightarrow> bytes \<times> bytes"
  ce_dec :: "bytes \<Rightarrow> bytes \<Rightarrow> bytes \<Rightarrow> bytes \<Rightarrow> bytes option"
  ce_aws_gen :: "string \<Rightarrow> (bytes \<times> bytes) option"
  ce_aws_dec :: "string \<Rightarrow> bytes \<Rightarrow> bytes option"

definition aead_ok :: "crypto_env \<Rightarrow> bool" where
  "aead_ok env \<longleftrightarrow> (\<forall>key iv pt. ce_dec env key iv (fst (ce_enc env key iv pt)) (snd (ce_enc env key iv pt))
       = Some pt \<and> length (snd (ce_enc env key iv pt)) = 16
       \<and> length (fst (ce_enc env key iv pt)) = length pt)"

section \<open>LocalKmsProvider\<close>

record local_kms =
  lk_keys :: "(string \<times> bytes) list"
  lk_active :: string

text \<open>\<open>Map.set\<close>: a stored key keeps its place.\<close>

fun js_map_set :: "'k \<Rightarrow> 'v \<Rightarrow> ('k \<times> 'v) list \<Rightarrow> ('k \<times> 'v) list" where
  "js_map_set k v [] = [(k, v)]"
| "js_map_set k v ((k', v') # m) = (if k' = k then (k, v) # m else (k', v') # js_map_set k v m)"

definition parse_pair :: "string \<Rightarrow> exn + string \<times> bytes" where
  "parse_pair pair =
     (case js_split '':'' pair of
        i # b64 # _ \<Rightarrow>
          (let buf = b64_decode b64 in
           if length buf \<noteq> 32 then Inl (JsError (''KMS key '' @ i @ '' must be 32 bytes''))
           else Inr (js_trim i, buf))
      | _ \<Rightarrow> Inl (JsError ''TypeError''))"

fun parse_pairs :: "string list \<Rightarrow> (string \<times> bytes) list \<Rightarrow> exn + (string \<times> bytes) list" where
  "parse_pairs [] m = Inr m"
| "parse_pairs (p # ps) m =
     (case parse_pair p of Inl e \<Rightarrow> Inl e | Inr (i, buf) \<Rightarrow> parse_pairs ps (js_map_set i buf m))"

definition local_construct :: "string option \<Rightarrow> string option \<Rightarrow> bytes \<Rightarrow> exn + local_kms" where
  "local_construct raw active rand =
     (if \<not> truthy raw
      then Inr \<lparr>lk_keys = [(''dev-key-1'', rand)], lk_active = ''dev-key-1''\<rparr>
      else (case parse_pairs (js_split '','' (coalesce raw [])) [] of
              Inl e \<Rightarrow> Inl e
            | Inr m \<Rightarrow>
                (let act = coalesce active (fst (last m)) in
                 if map_of m act = None
                 then Inl (JsError (''Active key '' @ act @ '' not in KMS_LOCAL_KEYS''))
                 else Inr \<lparr>lk_keys = m, lk_active = act\<rparr>)))"

definition local_generate ::
  "crypto_env \<Rightarrow> local_kms \<Rightarrow> bytes \<Rightarrow> bytes \<Rightarrow> exn + string \<times> bytes \<times> bytes" where
  "local_generate env k rand iv =
     (case map_of (lk_keys k) (lk_active k) of
        None \<Rightarrow> Inl (JsError ''TypeError'')
      | Some kek \<Rightarrow>
          (let (wrapped, tag) = ce_enc env kek iv rand
           in Inr (lk_active k, rand,
                [byte_of (length iv)] @ iv @ [byte_of (length tag)] @ tag @ wrapped)))"

definition local_decrypt :: "crypto_env \<Rightarrow> local_kms \<Rightarrow> string \<Rightarrow> bytes \<Rightarrow> exn + bytes" where
  "local_decrypt env k keyId ct =
     (case map_of (lk_keys k) keyId of
        None \<Rightarrow> Inl (JsError (''Unknown KMS key '' @ keyId))
      | Some kek \<Rightarrow>
          (case ct of
             [] \<Rightarrow> Inl (JsError ''RangeError'')
           | ivLen # r1 \<Rightarrow>
               (let iv = take (unat ivLen) r1 in
                case drop (unat ivLen) r1 of
                  [] \<Rightarrow> Inl (JsError ''RangeError'')
                | tagLen # r2 \<Rightarrow>
                    (case ce_dec env kek iv (drop (unat tagLen) r2) (take (unat tagLen) r2) of
                       None \<Rightarrow> Inl (JsError ''Unsupported state or unable to authenticate data'')
                     | Some pt \<Rightarrow> Inr pt))))"

section \<open>AwsKmsProvider and the factory\<close>

datatype kms = Local_kms local_kms | Aws_kms string

definition aws_construct :: "string option \<Rightarrow> exn + string" where
  "aws_construct arn =
     (if coalesce arn [] = [] then Inl (JsError ''AWS_KMS_KEY_ARN requis pour KMS_DRIVER=aws'')
      else Inr (coalesce arn []))"

definition aws_generate :: "crypto_env \<Rightarrow> string \<Rightarrow> exn + string \<times> bytes \<times> bytes" where
  "aws_generate env arn =
     (case ce_aws_gen env arn of
        None \<Rightarrow> Inl (JsError ''KMS'') | Some (pt, blob) \<Rightarrow> Inr (arn, pt, blob))"

definition aws_decrypt :: "crypto_env \<Rightarrow> string \<Rightarrow> bytes \<Rightarrow> exn + bytes" where
  "aws_decrypt env keyId ct =
     (case ce_aws_dec env keyId ct of None \<Rightarrow> Inl (JsError ''KMS'') | Some pt \<Rightarrow> Inr pt)"

definition kms_factory ::
  "string option \<Rightarrow> string option \<Rightarrow> string option \<Rightarrow> string option \<Rightarrow> bytes \<Rightarrow> exn + kms" where
  "kms_factory driver raw active arn rand =
     (if coalesce driver ''local'' = ''aws''
      then (case aws_construct arn of Inl e \<Rightarrow> Inl e | Inr a \<Rightarrow> Inr (Aws_kms a))
      else (case local_construct raw active rand of Inl e \<Rightarrow> Inl e | Inr k \<Rightarrow> Inr (Local_kms k)))"

fun activeKeyId :: "kms \<Rightarrow> string" where
  "activeKeyId (Local_kms k) = lk_active k"
| "activeKeyId (Aws_kms arn) = arn"

fun generateDataKey :: "crypto_env \<Rightarrow> kms \<Rightarrow> bytes \<Rightarrow> bytes \<Rightarrow> exn + string \<times> bytes \<times> bytes" where
  "generateDataKey env (Local_kms k) rand iv = local_generate env k rand iv"
| "generateDataKey env (Aws_kms arn) rand iv = aws_generate env arn"

fun decryptDataKey :: "crypto_env \<Rightarrow> kms \<Rightarrow> string \<Rightarrow> bytes \<Rightarrow> exn + bytes" where
  "decryptDataKey env (Local_kms k) keyId ct = local_decrypt env k keyId ct"
| "decryptDataKey env (Aws_kms arn) keyId ct = aws_decrypt env keyId ct"

section \<open>EnvelopeCryptoService\<close>

record encrypted =
  en_ciphertext :: bytes
  en_iv :: bytes
  en_tag :: bytes
  en_alg :: string
  en_dekId :: string

definition encrypt ::
  "crypto_env \<Rightarrow> kms \<Rightarrow> bytes \<Rightarrow> bytes \<Rightarrow> bytes \<Rightarrow> string \<Rightarrow> exn + encrypted" where
  "encrypt env k rand kiv iv plaintext =
     (case generateDataKey env k rand kiv of
        Inl e \<Rightarrow> Inl e
      | Inr (keyId, dek, wrapped) \<Rightarrow>
          (let (ct, tag) = ce_enc env dek iv (utf8_encode plaintext)
           in Inr \<lparr>en_ciphertext = ct, en_iv = iv, en_tag = tag, en_alg = ''aes-256-gcm'',
                   en_dekId = keyId @ ''::'' @ b64_encode wrapped\<rparr>))"

definition unwrap_dek ::
  "crypto_env \<Rightarrow> kms \<Rightarrow> int \<Rightarrow> string \<Rightarrow> dek_cache \<Rightarrow> (exn + bytes) \<times> dek_cache" where
  "unwrap_dek env k t dekId cache =
     (case (case map_of cache dekId of
              Some (dek, ex) \<Rightarrow> if ex > t then Some dek else None | None \<Rightarrow> None) of
        Some dek \<Rightarrow> (Inr dek, cache)
      | None \<Rightarrow>
          (case js_split ''::'' dekId of
             keyId # b64 # _ \<Rightarrow>
               (case decryptDataKey env k keyId (b64_decode b64) of
                  Inl e \<Rightarrow> (Inl e, cache)
                | Inr dek \<Rightarrow>
                    (let cache' = (if length cache > 5000 then [] else cache)
                     in (Inr dek, js_map_set dekId (dek, t + 60000) cache')))
           | _ \<Rightarrow> (Inl (JsError ''TypeError''), cache)))"

definition decrypt ::
  "crypto_env \<Rightarrow> kms \<Rightarrow> int \<Rightarrow> bytes \<Rightarrow> bytes \<Rightarrow> bytes \<Rightarrow> string \<Rightarrow> dek_cache \<Rightarrow>
   (exn + string) \<times> dek_cache" where
  "decrypt env k t ct iv tag dekId cache =
     (case unwrap_dek env k t dekId cache of
        (Inl e, c) \<Rightarrow> (Inl e, c)
      | (Inr dek, c) \<Rightarrow>
          (case ce_dec env dek iv ct tag of
             None \<Rightarrow> (Inl (JsError ''Unsupported state or unable to authenticate data''), c)
           | Some pt \<Rightarrow> (Inr (utf8_decode pt), c)))"

section \<open>Round trips of the encodings\<close>

lemma code_less: "code c < 256"
  by (simp add: code_def)

lemma char_of_code [simp]: "char_of (code c) = c"
  by (simp add: code_def)

lemma code_char_of [simp]: "n < 256 \<Longrightarrow> code (char_of n) = n"
  by (simp add: code_def of_char_mod_256)

lemma unat_byte_of [simp]: "n < 256 \<Longrightarrow> unat (byte_of n) = n"
  by (simp add: byte_of_def unsigned_of_nat take_bit_eq_mod)

lemma byte_of_unat [simp]: "byte_of (unat b) = b"
  by (simp add: byte_of_def)

lemma unat_less [simp]: "unat (b :: byte) < 256"
  using unsigned_less [of b] by simp

lemma utf8_decode_ascii:
  "unat b < 128 \<Longrightarrow> utf8_decode (b # bs) = char_of (unat b) # utf8_decode bs"
  by (cases bs) auto

lemma utf8_round_trip [simp]: "utf8_decode (utf8_encode s) = s"
proof (induction s)
  case (Cons c s)
  show ?case
  proof (cases "code c < 128")
    case True
    with Cons show ?thesis by (simp add: utf8_decode_ascii)
  next
    case False
    define n where "n = code c"
    have n: "128 \<le> n" "n < 256" using False code_less [of c] by (simp_all add: n_def)
    then have d: "n div 64 = 2 \<or> n div 64 = 3" by auto
    have "(n div 64) * 64 + n mod 64 = n" by simp
    with d have "(192 + n div 64 - 192) * 64 + (128 + n mod 64 - 128) = n" by auto
    moreover have "192 + n div 64 < 256" "128 + n mod 64 < 256" using d by auto
    ultimately show ?thesis
      using Cons d False by (auto simp: n_def [symmetric]) (simp_all add: n_def)
  qed
qed simp

lemma b64_val_char [simp]: "n < 64 \<Longrightarrow> b64_val (b64_char n) = Some n"
  by (auto simp: b64_val_def b64_char_def is_upper_def is_lower_def is_digit_def Let_def code_def
      of_char_mod_256)

lemma b64_char_not_pad [simp]: "n < 64 \<Longrightarrow> b64_char n \<noteq> CHR ''=''"
  using b64_val_char [of n] by (auto simp: b64_val_def is_upper_def is_lower_def is_digit_def code_def)

lemma b64_char_not_colon [simp]: "n < 64 \<Longrightarrow> b64_char n \<noteq> CHR '':''"
  using b64_val_char [of n] by (auto simp: b64_val_def is_upper_def is_lower_def is_digit_def code_def)

lemma b64_digits:
  fixes a b :: byte
  shows "unat a div 4 < 64" "unat a mod 4 * 16 + unat b div 16 < 64" "unat a mod 4 * 16 < 64"
    "unat a mod 16 * 4 + unat b div 64 < 64" "unat a mod 16 * 4 < 64" "unat a mod 64 < 64"
proof -
  have "unat a < 256" "unat b < 256" by simp_all
  then show "unat a div 4 < 64" "unat a mod 4 * 16 + unat b div 16 < 64" "unat a mod 4 * 16 < 64"
    "unat a mod 16 * 4 + unat b div 64 < 64" "unat a mod 16 * 4 < 64" "unat a mod 64 < 64"
    by linarith+
qed

lemma b64_carry [simp]:
  fixes b :: byte
  shows "unat b div 16 div 16 = 0" "unat b div 16 mod 16 = unat b div 16"
    "unat b div 64 div 4 = 0" "unat b div 64 mod 4 = unat b div 64"
proof -
  have "unat b < 256" by simp
  then have "unat b div 16 < 16" "unat b div 64 < 4" by linarith+
  then show "unat b div 16 div 16 = 0" "unat b div 16 mod 16 = unat b div 16"
    "unat b div 64 div 4 = 0" "unat b div 64 mod 4 = unat b div 64"
    by simp_all
qed

lemma b64_round_trip [simp]: "b64_decode (b64_encode bs) = bs"
proof (induction bs rule: b64_encode.induct)
  case (2 a)
  then show ?case
    by (simp add: b64_decode_def Let_def b64_digits map_filter_simps)
next
  case (3 a b)
  then show ?case
    by (simp add: b64_decode_def Let_def b64_digits map_filter_simps)
next
  case (4 a b c bs)
  then show ?case
    by (simp add: b64_decode_def Let_def b64_digits map_filter_simps)
qed (simp add: b64_decode_def map_filter_simps)

lemma b64_encode_no_colon: "CHR '':'' \<notin> set (b64_encode bs)"
  by (induction bs rule: b64_encode.induct) (auto simp: Let_def b64_digits dest!: sym [of "CHR '':''"])

lemma length_b64_encode: "length (b64_encode bs) = 4 * ((length bs + 2) div 3)"
proof (induction bs rule: b64_encode.induct)
  case (4 a b c bs)
  have "(length (a # b # c # bs) + 2) div 3 = Suc ((length bs + 2) div 3)" by simp
  with 4 show ?case by (simp add: Let_def)
qed (simp_all add: Let_def)

section \<open>Splitting a key identifier\<close>

text \<open>\<open>no_sep s\<close>: the first occurrence of a double colon in \<open>s @ ''::'' @ t\<close> is the one in the middle.\<close>

fun no_sep :: "string \<Rightarrow> bool" where
  "no_sep [] = True"
| "no_sep (c # s) = (\<not> (c = CHR '':'' \<and> (s = [] \<or> hd s = CHR '':'')) \<and> no_sep s)"

lemma strip_colons:
  "c \<noteq> CHR '':'' \<Longrightarrow> strip_prefix ''::'' (c # s) = None"
  "strip_prefix ''::'' (CHR '':'' # s) = (case s of [] \<Rightarrow> None
     | d # s' \<Rightarrow> if d = CHR '':'' then Some s' else None)"
  by (auto split: list.splits)

lemma split_no_sep:
  "no_sep u \<Longrightarrow> js_split_aux ''::'' acc (u @ CHR '':'' # CHR '':'' # v) = (rev acc @ u) # js_split_aux ''::'' [] v"
proof (induction u arbitrary: acc)
  case (Cons c u)
  then have "strip_prefix ''::'' ((c # u) @ CHR '':'' # CHR '':'' # v) = None"
    by (cases u) auto
  with Cons show ?case by simp
qed simp

lemma split_no_colon:
  "CHR '':'' \<notin> set v \<Longrightarrow> js_split_aux ''::'' acc v = [rev acc @ v]"
proof (induction v arbitrary: acc)
  case (Cons c v)
  then have "strip_prefix ''::'' (c # v) = None" by (auto simp: strip_colons)
  with Cons show ?case by simp
qed simp

lemma split_dekId:
  "no_sep u \<Longrightarrow> js_split ''::'' (u @ ''::'' @ b64_encode w) = [u, b64_encode w]"
  by (simp add: js_split_def split_no_sep split_no_colon b64_encode_no_colon)

lemma no_colon_no_sep: "CHR '':'' \<notin> set u \<Longrightarrow> no_sep u"
  by (induction u) auto

text \<open>The pieces of a split on a character do not contain it, so local key names have no colon.\<close>

lemma split_char_pieces:
  "CHR '':'' \<notin> set acc \<Longrightarrow> p \<in> set (js_split_aux '':'' acc s) \<Longrightarrow> CHR '':'' \<notin> set p"
proof (induction s arbitrary: acc)
  case (Cons c s)
  then show ?case
    using Cons.IH [of "[]"] Cons.IH [of "c # acc"] by (cases "c = CHR '':''") auto
qed simp

lemma set_js_trim: "set (js_trim s) \<subseteq> set s"
  unfolding js_trim_def by (auto dest!: set_dropWhileD)

lemma parse_pair_Inr:
  assumes "parse_pair p = Inr (i, buf)"
  shows "CHR '':'' \<notin> set i \<and> length buf = 32"
proof -
  from assms obtain j b64 rest where js: "js_split '':'' p = j # b64 # rest"
    and i: "i = js_trim j" and "buf = b64_decode b64" "length buf = 32"
    by (auto simp: parse_pair_def Let_def split: list.splits if_splits)
  moreover from js have "CHR '':'' \<notin> set j"
    using split_char_pieces [of "[]" j p] by (simp add: js_split_def)
  ultimately show ?thesis using set_js_trim [of j] by auto
qed

definition local_ok :: "local_kms \<Rightarrow> bool" where
  "local_ok k \<longleftrightarrow> map_of (lk_keys k) (lk_active k) \<noteq> None
     \<and> (\<forall>(i, buf) \<in> set (lk_keys k). CHR '':'' \<notin> set i \<and> length buf = 32)"

lemma js_map_set_set: "set (js_map_set k v m) \<subseteq> insert (k, v) (set m)"
  by (induction m) (auto split: if_splits)

lemma parse_pairs_ok:
  assumes "parse_pairs ps m = Inr m'" "\<forall>(i, buf) \<in> set m. CHR '':'' \<notin> set i \<and> length (buf :: bytes) = 32"
  shows "\<forall>(i, buf) \<in> set m'. CHR '':'' \<notin> set i \<and> length buf = 32"
  using assms
proof (induction ps arbitrary: m)
  case (Cons p ps)
  from Cons.prems(1) obtain i buf where p: "parse_pair p = Inr (i, buf)"
    and rest: "parse_pairs ps (js_map_set i buf m) = Inr m'"
    by (auto split: sum.splits)
  have "\<forall>(i, buf) \<in> set (js_map_set i buf m). CHR '':'' \<notin> set i \<and> length buf = 32"
    using js_map_set_set [of i buf m] Cons.prems(2) parse_pair_Inr [OF p] by blast
  then show ?case by (rule Cons.IH [OF rest])
qed simp

lemma local_construct_ok:
  assumes "local_construct raw active rand = Inr k" "length rand = 32"
  shows "local_ok k"
proof (cases "truthy raw")
  case True
  with assms(1) obtain m where m: "parse_pairs (js_split '','' (coalesce raw [])) [] = Inr m"
    by (auto simp: local_construct_def split: sum.splits)
  with assms(1) True parse_pairs_ok [OF m] show ?thesis
    by (auto simp: local_construct_def local_ok_def Let_def split: if_splits)
next
  case False
  with assms show ?thesis by (auto simp: local_construct_def local_ok_def)
qed

section \<open>Key providers\<close>

text \<open>
  The interface of \<open>KmsProvider\<close>: a generated data key is what decrypting its wrapped form
  gives back, under a name that survives the format of \<open>dekId\<close>. \<open>good\<close> says that a provider
  is well configured. The laws of the cache and of the envelope follow from it.
\<close>

locale kms_provider =
  fixes generate :: "'p \<Rightarrow> 'r \<Rightarrow> exn + string \<times> bytes \<times> bytes"
    and unwrap_key :: "'p \<Rightarrow> string \<Rightarrow> bytes \<Rightarrow> exn + bytes"
    and good :: "'p \<Rightarrow> 'r \<Rightarrow> bool"
  assumes generate_unwrap:
      "good p r \<Longrightarrow> generate p r = Inr (keyId, dek, wrapped) \<Longrightarrow> unwrap_key p keyId wrapped = Inr dek"
    and generate_no_sep: "good p r \<Longrightarrow> generate p r = Inr (keyId, dek, wrapped) \<Longrightarrow> no_sep keyId"
begin

lemma unwrap_generated:
  assumes "good p r" "generate p r = Inr (keyId, dek, wrapped)"
  shows "\<exists>b64 rest. js_split ''::'' (keyId @ ''::'' @ b64_encode wrapped) = keyId # b64 # rest
     \<and> unwrap_key p keyId (b64_decode b64) = Inr dek"
  using generate_unwrap [OF assms] split_dekId [OF generate_no_sep [OF assms]] by simp

end

definition good_kms :: "crypto_env \<times> kms \<Rightarrow> bytes \<times> bytes \<Rightarrow> bool" where
  "good_kms p r \<longleftrightarrow> aead_ok (fst p) \<and> length (snd r) = 12 \<and>
     (case snd p of Local_kms k \<Rightarrow> local_ok k
      | Aws_kms arn \<Rightarrow> no_sep arn \<and> (\<forall>pt blob. ce_aws_gen (fst p) arn = Some (pt, blob) \<longrightarrow>
          ce_aws_dec (fst p) arn blob = Some pt))"

lemma local_unwrap:
  assumes "aead_ok env" "length iv = 12" "local_generate env k rand iv = Inr (keyId, dek, wrapped)"
  shows "local_decrypt env k keyId wrapped = Inr dek \<and> keyId = lk_active k \<and> dek = rand
    \<and> length wrapped = 30 + length rand"
proof -
  from assms(3) obtain kek where kek: "map_of (lk_keys k) (lk_active k) = Some kek"
    by (auto simp: local_generate_def split: option.splits)
  obtain c tag where enc: "ce_enc env kek iv rand = (c, tag)" by fastforce
  with assms(1) have dec: "ce_dec env kek iv c tag = Some rand" "length tag = 16"
    "length c = length rand"
    unfolding aead_ok_def by (metis fst_conv snd_conv)+
  from assms(3) kek enc have "keyId = lk_active k" "dek = rand"
    "wrapped = byte_of (length iv) # iv @ byte_of (length tag) # tag @ c"
    by (simp_all add: local_generate_def)
  with kek dec assms(2) show ?thesis by (simp add: local_decrypt_def)
qed

interpretation kms: kms_provider
  "\<lambda>(env, k) (rand, iv). generateDataKey env k rand iv"
  "\<lambda>(env, k). decryptDataKey env k" good_kms
proof (unfold_locales, goal_cases)
  case (1 p r keyId dek wrapped)
  obtain env k rand iv where p: "p = (env, k)" "r = (rand, iv)" by (metis surj_pair)
  with 1 show ?case
    using local_unwrap [of env iv _ rand keyId dek wrapped]
    by (cases k) (auto simp: good_kms_def aws_generate_def aws_decrypt_def split: option.splits)
next
  case (2 p r keyId dek wrapped)
  obtain env k rand iv where p: "p = (env, k)" "r = (rand, iv)" by (metis surj_pair)
  with 2 show ?case
    using local_unwrap [of env iv _ rand keyId dek wrapped]
    by (cases k) (auto simp: good_kms_def aws_generate_def local_ok_def split: option.splits
        dest!: map_of_SomeD intro!: no_colon_no_sep)
qed

section \<open>The cache\<close>

text \<open>Every cached key is the one the provider would return, and the cache stays small.\<close>

definition cache_ok :: "crypto_env \<Rightarrow> kms \<Rightarrow> dek_cache \<Rightarrow> bool" where
  "cache_ok env k cache \<longleftrightarrow> length cache \<le> 5001 \<and>
     (\<forall>dekId dek ex. map_of cache dekId = Some (dek, ex) \<longrightarrow>
        (\<exists>keyId b64 rest. js_split ''::'' dekId = keyId # b64 # rest
           \<and> decryptDataKey env k keyId (b64_decode b64) = Inr dek))"

lemma map_of_js_map_set: "map_of (js_map_set k v m) = (map_of m)(k \<mapsto> v)"
  by (induction m) (auto simp: fun_eq_iff)

lemma length_js_map_set: "length (js_map_set k v m) \<le> Suc (length m)"
  by (induction m) auto

lemma unwrap_dek_fresh:
  assumes "cache_ok env k cache"
  shows "cache_ok env k (snd (unwrap_dek env k t dekId cache)) \<and>
    fst (unwrap_dek env k t dekId cache) = fst (unwrap_dek env k t dekId [])"
proof (cases "case map_of cache dekId of Some (dek, ex) \<Rightarrow> if ex > t then Some dek else None | None \<Rightarrow> None")
  case None
  then show ?thesis
  proof (cases "js_split ''::'' dekId")
    case (Cons keyId r)
    show ?thesis
    proof (cases r)
      case r: (Cons b64 rest)
      show ?thesis
      proof (cases "decryptDataKey env k keyId (b64_decode b64)")
        case (Inr dek)
        define c where "c = (if length cache > 5000 then [] else cache)"
        have "length c \<le> 5000" "cache_ok env k c"
          using assms by (auto simp: c_def cache_ok_def)
        then have "cache_ok env k (js_map_set dekId (dek, t + 60000) c)"
          using length_js_map_set [of dekId "(dek, t + 60000)" c] Cons r Inr
          by (auto simp: cache_ok_def map_of_js_map_set)
        with None Cons r Inr show ?thesis by (simp add: unwrap_dek_def c_def)
      qed (use None Cons r assms in \<open>simp_all add: unwrap_dek_def\<close>)
    qed (use None Cons assms in \<open>simp_all add: unwrap_dek_def\<close>)
  qed (use None assms in \<open>simp_all add: unwrap_dek_def\<close>)
next
  case (Some dek)
  then obtain ex where "map_of cache dekId = Some (dek, ex)"
    by (auto split: option.splits if_splits)
  then obtain keyId b64 rest where "js_split ''::'' dekId = keyId # b64 # rest"
    "decryptDataKey env k keyId (b64_decode b64) = Inr dek"
    using assms unfolding cache_ok_def by blast
  with Some assms show ?thesis by (simp add: unwrap_dek_def)
qed

section \<open>Properties\<close>

lemma kms_unwrap:
  assumes "good_kms (env, k) (rand, iv)" "generateDataKey env k rand iv = Inr (keyId, dek, wrapped)"
  shows "\<exists>b64 rest. js_split ''::'' (keyId @ ''::'' @ b64_encode wrapped) = keyId # b64 # rest
     \<and> decryptDataKey env k keyId (b64_decode b64) = Inr dek"
  using kms.unwrap_generated [OF assms(1)] assms(2) by simp

lemma encrypt_InrD:
  assumes "encrypt env k rand kiv iv text = Inr e"
  obtains keyId dek wrapped where "generateDataKey env k rand kiv = Inr (keyId, dek, wrapped)"
    "en_dekId e = keyId @ ''::'' @ b64_encode wrapped" "en_iv e = iv"
    "(en_ciphertext e, en_tag e) = ce_enc env dek iv (utf8_encode text)"
  using assms by (auto simp: encrypt_def Let_def split: sum.splits prod.splits)

lemma decrypt_with_key:
  assumes "aead_ok env" "(ct, tag) = ce_enc env dek iv (utf8_encode text)"
    "fst (unwrap_dek env k t dekId cache) = Inr dek"
  shows "fst (decrypt env k t ct iv tag dekId cache) = Inr text"
proof -
  have "ce_dec env dek iv ct tag = Some (utf8_encode text)"
    using assms(1,2) unfolding aead_ok_def by (metis fst_conv snd_conv)
  with assms(3) show ?thesis
    by (cases "unwrap_dek env k t dekId cache") (simp add: decrypt_def)
qed

lemma unwrap_dek_empty:
  "js_split ''::'' dekId = keyId # b64 # rest \<Longrightarrow> decryptDataKey env k keyId (b64_decode b64) = Inr dek \<Longrightarrow>
   fst (unwrap_dek env k t dekId []) = Inr dek"
  by (simp add: unwrap_dek_def Let_def)

text \<open>An authenticated cipher that is not one: enough to compute with.\<close>

definition toy_env :: crypto_env where
  "toy_env = \<lparr>ce_enc = (\<lambda>key iv pt. (rev pt, replicate 16 0)),
     ce_dec = (\<lambda>key iv ct tag. if tag = replicate 16 0 then Some (rev ct) else None),
     ce_aws_gen = (\<lambda>arn. Some (replicate 32 1, replicate 32 1)),
     ce_aws_dec = (\<lambda>arn ct. Some ct)\<rparr>"

definition toy_kms :: local_kms where
  "toy_kms = \<lparr>lk_keys = [(''k1'', replicate 32 1), (''k2'', replicate 32 2)], lk_active = ''k1''\<rparr>"

lemma toy_ok: "aead_ok toy_env" "local_ok toy_kms"
  by (simp_all add: aead_ok_def toy_env_def local_ok_def toy_kms_def)

lemma cache_ok_Nil [simp]: "cache_ok env k []"
  by (simp add: cache_ok_def)

lemma envelope_decrypts:
  assumes "good_kms (env, k) (rand, kiv)" "encrypt env k rand kiv iv text = Inr e" "cache_ok env k cache"
  shows "fst (decrypt env k t (en_ciphertext e) (en_iv e) (en_tag e) (en_dekId e) cache) = Inr text"
proof -
  from assms(2) obtain keyId dek wrapped where
    gen: "generateDataKey env k rand kiv = Inr (keyId, dek, wrapped)"
    and e: "en_dekId e = keyId @ ''::'' @ b64_encode wrapped" "en_iv e = iv"
      "(en_ciphertext e, en_tag e) = ce_enc env dek iv (utf8_encode text)"
    by (rule encrypt_InrD)
  have "fst (unwrap_dek env k t (en_dekId e) []) = Inr dek"
    using kms_unwrap [OF assms(1) gen] e(1) by (auto intro: unwrap_dek_empty)
  then have "fst (unwrap_dek env k t (en_dekId e) cache) = Inr dek"
    using unwrap_dek_fresh [OF assms(3)] by simp
  then show ?thesis
    using assms(1) e decrypt_with_key [of env "en_ciphertext e" "en_tag e" dek iv "text"]
    by (simp add: good_kms_def)
qed

text \<open>
  C21: decrypting what \<open>encrypt\<close> returned gives back the text, for the local and the AWS
  provider, through the textual \<open>dekId\<close> and whatever the cache of data keys holds.
\<close>

theorem envelope_round_trip:
  assumes "good_kms (env, k) (rand, kiv)" "encrypt env k rand kiv iv text = Inr e" "cache_ok env k cache"
  shows "fst (decrypt env k t (en_ciphertext e) (en_iv e) (en_tag e) (en_dekId e) cache) = Inr text"
  using assms by (rule envelope_decrypts)

theorem envelope_round_trip_witness:
  "\<exists>e. encrypt toy_env (Local_kms toy_kms) (replicate 32 7) (replicate 12 3) [5] ''Bonjour'' = Inr e
     \<and> fst (decrypt toy_env (Local_kms toy_kms) 0 (en_ciphertext e) (en_iv e) (en_tag e) (en_dekId e) [])
       = Inr ''Bonjour''"
proof -
  have "\<exists>e. encrypt toy_env (Local_kms toy_kms) (replicate 32 7) (replicate 12 3) [5] ''Bonjour'' = Inr e"
    by (simp add: encrypt_def local_generate_def toy_kms_def toy_env_def)
  moreover have "good_kms (toy_env, Local_kms toy_kms) (replicate 32 7, replicate 12 3)"
    by (simp add: good_kms_def toy_ok)
  ultimately show ?thesis using envelope_round_trip [of toy_env "Local_kms toy_kms"] by fastforce
qed

lemma ring_decrypts:
  assumes "aead_ok env" "local_ok k" "length kiv = 12"
    and "encrypt env (Local_kms k) rand kiv iv text = Inr e"
    and "map_of (lk_keys k) \<subseteq>\<^sub>m map_of (lk_keys k')" "cache_ok env (Local_kms k') cache"
  shows "fst (decrypt env (Local_kms k') t (en_ciphertext e) (en_iv e) (en_tag e) (en_dekId e) cache)
    = Inr text"
proof -
  from assms(4) obtain keyId dek wrapped where
    gen: "generateDataKey env (Local_kms k) rand kiv = Inr (keyId, dek, wrapped)"
    and e: "en_dekId e = keyId @ ''::'' @ b64_encode wrapped" "en_iv e = iv"
      "(en_ciphertext e, en_tag e) = ce_enc env dek iv (utf8_encode text)"
    by (rule encrypt_InrD)
  have "good_kms (env, Local_kms k) (rand, kiv)" using assms(1-3) by (simp add: good_kms_def)
  from kms_unwrap [OF this gen] obtain b64 rest where sp: "js_split ''::'' (en_dekId e) = keyId # b64 # rest"
    and old: "local_decrypt env k keyId (b64_decode b64) = Inr dek"
    using e(1) by auto
  have "map_of (lk_keys k') keyId = map_of (lk_keys k) keyId"
    using assms(5) old by (auto simp: map_le_def dom_def local_decrypt_def split: option.splits)
  with old have "decryptDataKey env (Local_kms k') keyId (b64_decode b64) = Inr dek"
    by (simp add: local_decrypt_def)
  then have "fst (unwrap_dek env (Local_kms k') t (en_dekId e) cache) = Inr dek"
    using unwrap_dek_fresh [OF assms(6)] sp by (simp add: unwrap_dek_empty)
  then show ?thesis
    using assms(1) e decrypt_with_key [of env "en_ciphertext e" "en_tag e" dek iv "text"] by simp
qed

text \<open>
  rotation of the local master key: a message encrypted under one configuration stays
  readable under any later one that keeps the old keys, whichever key is active.
\<close>

theorem key_rotation:
  assumes "aead_ok env" "local_ok k" "length kiv = 12"
    and "encrypt env (Local_kms k) rand kiv iv text = Inr e"
    and "map_of (lk_keys k) \<subseteq>\<^sub>m map_of (lk_keys k')" "cache_ok env (Local_kms k') cache"
  shows "fst (decrypt env (Local_kms k') t (en_ciphertext e) (en_iv e) (en_tag e) (en_dekId e) cache)
    = Inr text"
  using assms by (rule ring_decrypts)

theorem key_rotation_witness:
  "\<exists>e. encrypt toy_env (Local_kms toy_kms) (replicate 32 7) (replicate 12 3) [5] ''vieux'' = Inr e
     \<and> fst (decrypt toy_env (Local_kms (toy_kms\<lparr>lk_active := ''k2''\<rparr>)) 0 (en_ciphertext e) (en_iv e)
         (en_tag e) (en_dekId e) []) = Inr ''vieux''"
proof -
  have "\<exists>e. encrypt toy_env (Local_kms toy_kms) (replicate 32 7) (replicate 12 3) [5] ''vieux'' = Inr e"
    by (simp add: encrypt_def local_generate_def toy_kms_def toy_env_def)
  then show ?thesis
    using key_rotation [of toy_env toy_kms "replicate 12 3" "replicate 32 7" "[5]" "''vieux''" _
        "toy_kms\<lparr>lk_active := ''k2''\<rparr>" "[]" 0] by (fastforce simp: toy_ok)
qed



text \<open>
  the length of a local \<open>dekId\<close>: it fits the 128 characters of the column
  \<open>body_dek_id\<close> exactly when the name of the active key has at most 42.
\<close>

theorem local_dekId_length:
  assumes "aead_ok env" "length kiv = 12" "length rand = 32"
    and "encrypt env (Local_kms k) rand kiv iv text = Inr e"
  shows "length (en_dekId e) = length (lk_active k) + 86
    \<and> (length (en_dekId e) \<le> 128 \<longleftrightarrow> length (lk_active k) \<le> 42)"
proof -
  from assms(4) obtain keyId dek wrapped where
    "local_generate env k rand kiv = Inr (keyId, dek, wrapped)"
    "en_dekId e = keyId @ ''::'' @ b64_encode wrapped"
    by (rule encrypt_InrD) auto
  with local_unwrap [OF assms(1,2), of k rand keyId dek wrapped] assms(3) show ?thesis
    by (simp add: length_b64_encode)
qed

theorem local_dekId_length_witness:
  "\<exists>e. encrypt toy_env (Local_kms toy_kms) (replicate 32 7) (replicate 12 3) [5] ''a'' = Inr e
     \<and> length (en_dekId e) = 88"
proof -
  have "\<exists>e. encrypt toy_env (Local_kms toy_kms) (replicate 32 7) (replicate 12 3) [5] ''a'' = Inr e"
    by (simp add: encrypt_def local_generate_def toy_kms_def toy_env_def)
  then show ?thesis
    using local_dekId_length [OF toy_ok(1), of "replicate 12 3" "replicate 32 7" toy_kms "[5]" "''a''"]
    by (fastforce simp: toy_kms_def)
qed

text \<open>The \<open>dekId\<close> of the AWS provider is long as soon as the wrapped key has 94 bytes.\<close>

lemma aws_dekId_too_long:
  assumes "ce_aws_gen env arn = Some (pt, blob)" "length blob \<ge> 94"
    and "encrypt env (Aws_kms arn) rand kiv iv text = Inr e"
  shows "length (en_dekId e) > 128"
proof -
  from assms(3) obtain keyId dek wrapped where
    "aws_generate env arn = Inr (keyId, dek, wrapped)"
    "en_dekId e = keyId @ ''::'' @ b64_encode wrapped"
    by (rule encrypt_InrD) auto
  moreover have "(length blob + 2) div 3 \<ge> 32" using assms(2) by linarith
  ultimately show ?thesis using assms(1) by (auto simp: aws_generate_def length_b64_encode)
qed

end
