(* ===== verification/Scanner.thy ===== *)
theory Scanner
  imports Js_Text
begin

text \<open>
  \<open>ContentScannerService\<close> (backend/src/modules/moderation/content-scanner.service.ts): the
  heuristic redaction of card numbers, IBANs, security codes, emails and telephone numbers
  that every message passes before it is stored, and the Luhn check it relies on.

  The \<open>Set\<close> of flags is the list of its elements in insertion order. The score is counted in
  tenths, as \<open>min 10 (3 * n)\<close> for \<open>Math.min(1, n * 0.3)\<close>; the code compares it with 0.6 only,
  and \<open>2 * 0.3\<close> is exactly the double 0.6.
\<close>

section \<open>Definitions\<close>

record scan_result =
  sr_cleaned :: string
  sr_flags :: "string list"
  sr_score10 :: nat
  sr_hadSensitive :: bool

fun luhn_loop :: "string \<Rightarrow> bool \<Rightarrow> nat \<Rightarrow> nat" where
  "luhn_loop [] alt acc = acc"
| "luhn_loop (c # cs) alt acc =
     (let n = digit_val c;
          n' = (if alt then (if n * 2 > 9 then n * 2 - 9 else n * 2) else n)
      in luhn_loop cs (\<not> alt) (acc + n'))"

definition luhn :: "string \<Rightarrow> bool" where
  "luhn num = (luhn_loop (rev num) False 0 mod 10 = 0)"

definition add_flag :: "string \<Rightarrow> string list \<Rightarrow> string list" where
  "add_flag f fs = (if f \<in> set fs then fs else fs @ [f])"

definition digits_of :: "string \<Rightarrow> string" where
  "digits_of m = filter is_digit m"

definition pan_sep :: "char \<Rightarrow> bool" where
  "pan_sep c = (c = CHR '' '' \<or> c = CHR ''-'')"

definition pan_item :: re where
  "pan_item = Cat (Cls is_digit) (opt (Cls pan_sep))"

definition pan_re :: re where
  "pan_re = Cat WordB (Cat (Rep 13 19 pan_item) WordB)"

definition pan_cb :: "string \<Rightarrow> string list \<Rightarrow> string \<times> string list" where
  "pan_cb m flags =
     (let digits = digits_of m in
      if length digits < 13 \<or> length digits > 19 then (m, flags)
      else if luhn digits then (''[REDACTED_PAN]'', add_flag ''pan'' flags)
      else (m, flags))"

definition iban_re :: re where
  "iban_re = Cat WordB (Cat (times 2 (Cls (ci is_upper))) (Cat (times 2 (Cls is_digit))
     (Cat (Rep 10 30 (Cls (ci (\<lambda>c. is_upper c \<or> is_digit c)))) WordB)))"

definition iban_cb :: "string \<Rightarrow> string list \<Rightarrow> string \<times> string list" where
  "iban_cb m flags = (''[REDACTED_IBAN]'', add_flag ''iban'' flags)"

definition ci_lit :: "string \<Rightarrow> re" where
  "ci_lit w = foldr (\<lambda>c r. Cat (Cls (\<lambda>a. lower_char a = c)) r) w Eps"

definition cvv_re :: re where
  "cvv_re = Cat WordB (Cat (Alt (ci_lit ''cvv'') (Alt (ci_lit ''cvc'') (ci_lit ''cv2'')))
     (Cat (Star is_space) (Cat (opt (Cls (\<lambda>c. c = CHR '':'' \<or> c = CHR ''='')))
     (Cat (Star is_space) (Cat (Rep 3 4 (Cls is_digit)) WordB)))))"

definition cvv_cb :: "string \<Rightarrow> string list \<Rightarrow> string \<times> string list" where
  "cvv_cb m flags = (''[REDACTED_CVV]'', add_flag ''cvv'' flags)"

definition email_re :: re where
  "email_re =
     Cat (plus (\<lambda>c. is_word c \<or> c = CHR ''.'' \<or> c = CHR ''+'' \<or> c = CHR ''-''))
     (Cat (lit ''@'') (Cat (plus (\<lambda>c. is_word c \<or> c = CHR ''-''))
     (Cat (lit ''.'') (plus (\<lambda>c. is_word c \<or> c = CHR ''.'' \<or> c = CHR ''-'')))))"

definition email_cb :: "string \<Rightarrow> string list \<Rightarrow> string \<times> string list" where
  "email_cb m flags = (''[REDACTED_EMAIL]'', add_flag ''email'' flags)"

definition phone_sep :: "char \<Rightarrow> bool" where
  "phone_sep c = (c = CHR '' '' \<or> c = CHR ''.'' \<or> c = CHR ''-'')"

definition phone_re :: re where
  "phone_re = Cat WordB
     (Cat (opt (Cat (opt (lit ''+'')) (Cat (Rep 1 3 (Cls is_digit)) (opt (Cls phone_sep)))))
     (Cat (Rep 2 5 (Cat (opt (lit ''('')) (Cat (Rep 2 4 (Cls is_digit))
        (Cat (opt (lit '')'')) (opt (Cls phone_sep))))))
     (Cat (Rep 2 4 (Cls is_digit)) WordB)))"

definition phone_cb :: "string \<Rightarrow> string list \<Rightarrow> string \<times> string list" where
  "phone_cb m flags =
     (let digits = digits_of m in
      if length digits \<ge> 8 \<and> length digits \<le> 15
      then (''[REDACTED_PHONE]'', add_flag ''phone'' flags) else (m, flags))"

definition scan :: "string \<Rightarrow> scan_result" where
  "scan input =
     (let (c1, f1) = replace_g pan_re pan_cb None input [];
          (c2, f2) = replace_g iban_re iban_cb None c1 f1;
          (c3, f3) = replace_g cvv_re cvv_cb None c2 f2;
          (c4, f4) = replace_g email_re email_cb None c3 f3;
          (c5, f5) = replace_g phone_re phone_cb None c4 f4
      in \<lparr>sr_cleaned = c5, sr_flags = f5, sr_score10 = min 10 (3 * length f5),
          sr_hadSensitive = (length f5 > 0)\<rparr>)"

section \<open>The Luhn check\<close>

definition weight :: "bool \<Rightarrow> nat \<Rightarrow> nat" where
  "weight alt n = (if alt then (if n * 2 > 9 then n * 2 - 9 else n * 2) else n)"

lemma luhn_loop_step:
  "luhn_loop (c # cs) alt s = luhn_loop cs (\<not> alt) (s + weight alt (digit_val c))"
  by (simp add: Let_def weight_def)

lemma luhn_loop_add: "luhn_loop cs alt s = s + luhn_loop cs alt 0"
proof (induction cs arbitrary: alt s)
  case (Cons c cs)
  have "luhn_loop (c # cs) alt s = (s + weight alt (digit_val c)) + luhn_loop cs (\<not> alt) 0"
    unfolding luhn_loop_step by (rule Cons.IH)
  moreover have "luhn_loop (c # cs) alt 0 = (0 + weight alt (digit_val c)) + luhn_loop cs (\<not> alt) 0"
    unfolding luhn_loop_step by (rule Cons.IH)
  ultimately show ?case by linarith
qed simp

lemma luhn_loop_Cons:
  "luhn_loop (c # cs) alt s = s + weight alt (digit_val c) + luhn_loop cs (\<not> alt) 0"
  unfolding luhn_loop_step by (rule luhn_loop_add)

lemma luhn_loop_append:
  "luhn_loop (us @ vs) alt s = luhn_loop us alt s + luhn_loop vs (alt \<noteq> odd (length us)) 0"
proof (induction us arbitrary: alt s)
  case Nil
  then show ?case by (simp add: luhn_loop_add [of vs alt s])
next
  case (Cons c us)
  have "(\<not> alt) \<noteq> odd (length us) \<longleftrightarrow> alt \<noteq> odd (length (c # us))" by auto
  then show ?case
    using Cons.IH [of "\<not> alt" 0] by (simp add: luhn_loop_Cons del: luhn_loop.simps)
qed

lemma digit_val_less: "is_digit c \<Longrightarrow> digit_val c < 10"
  by (auto simp: is_digit_def digit_val_def Let_def)

lemma digit_val_inj:
  assumes "is_digit c" "is_digit d" "digit_val c = digit_val d"
  shows "c = d"
proof -
  from assms have "code c = code d" by (auto simp: is_digit_def digit_val_def Let_def)
  then show ?thesis by (simp add: code_def)
qed

lemma weight_less: "n < 10 \<Longrightarrow> weight alt n < 10"
  by (auto simp: weight_def)

lemma weight_eqD: "m < 10 \<Longrightarrow> n < 10 \<Longrightarrow> weight alt m = weight alt n \<Longrightarrow> m = n"
  by (auto simp: weight_def split: if_splits) presburger+

lemma weight_inj:
  assumes "m < 10" "n < 10" "weight a m mod 10 = weight a n mod 10"
  shows "m = n"
  using assms weight_less [OF assms(1)] weight_less [OF assms(2)]
  by (simp add: weight_eqD)

lemma mod_cancel_mid:
  assumes "((a::nat) + (x + b)) mod 10 = (a + (y + b)) mod 10"
  shows "x mod 10 = y mod 10"
proof -
  have "(int x + int (a + b)) mod 10 = (int y + int (a + b)) mod 10"
    using arg_cong [OF assms, of int] by (simp add: zmod_int ac_simps)
  then have "int x mod 10 = int y mod 10"
    by (simp add: mod_eq_dvd_iff)
  then have "int (x mod 10) = int (y mod 10)" by (simp add: zmod_int)
  then show ?thesis by (rule of_nat_eq_iff [THEN iffD1])
qed

lemma luhn_change_one:
  assumes "is_digit c" "is_digit d" "c \<noteq> d" "luhn (xs @ c # ys)"
  shows "\<not> luhn (xs @ d # ys)"
proof
  assume d: "luhn (xs @ d # ys)"
  define A where "A = luhn_loop (rev ys) False 0"
  define alt where "alt = (False \<noteq> odd (length (rev ys)))"
  define B where "B = luhn_loop (rev xs) (\<not> alt) 0"
  have eq: "luhn_loop (rev (xs @ e # ys)) False 0 = A + (weight alt (digit_val e) + B)" for e
    by (simp add: luhn_loop_append luhn_loop_Cons A_def B_def alt_def del: luhn_loop.simps)
  have "(A + (weight alt (digit_val c) + B)) mod 10 = (A + (weight alt (digit_val d) + B)) mod 10"
    using assms(4) d unfolding luhn_def eq by simp
  then have "weight alt (digit_val c) mod 10 = weight alt (digit_val d) mod 10"
    by (rule mod_cancel_mid)
  then have "digit_val c = digit_val d"
    using assms(1,2) by (blast intro: weight_inj digit_val_less)
  with assms(1-3) show False by (blast dest: digit_val_inj)
qed

section \<open>What the redaction keeps\<close>

lemma honest_if: "honest x (\<lambda>m st. if p m then (t, add_flag x st) else (m, st))"
  unfolding honest_def by (auto simp: add_flag_def)

lemma callback_shapes:
  "pan_cb = (\<lambda>m st. if 13 \<le> length (digits_of m) \<and> length (digits_of m) \<le> 19 \<and> luhn (digits_of m)
     then (''[REDACTED_PAN]'', add_flag ''pan'' st) else (m, st))"
  "iban_cb = (\<lambda>m st. if True then (''[REDACTED_IBAN]'', add_flag ''iban'' st) else (m, st))"
  "cvv_cb = (\<lambda>m st. if True then (''[REDACTED_CVV]'', add_flag ''cvv'' st) else (m, st))"
  "email_cb = (\<lambda>m st. if True then (''[REDACTED_EMAIL]'', add_flag ''email'' st) else (m, st))"
  "phone_cb = (\<lambda>m st. if 8 \<le> length (digits_of m) \<and> length (digits_of m) \<le> 15
     then (''[REDACTED_PHONE]'', add_flag ''phone'' st) else (m, st))"
  by (auto simp: fun_eq_iff pan_cb_def iban_cb_def cvv_cb_def email_cb_def phone_cb_def Let_def)

lemma honest_callbacks:
  "honest ''pan'' pan_cb" "honest ''iban'' iban_cb" "honest ''cvv'' cvv_cb"
  "honest ''email'' email_cb" "honest ''phone'' phone_cb"
  unfolding callback_shapes by (rule honest_if)+

text \<open>The stages in order, each with its own flag.\<close>

definition stages :: "(string \<times> re \<times> (string \<Rightarrow> string list \<Rightarrow> string \<times> string list)) list" where
  "stages = [(''pan'', pan_re, pan_cb), (''iban'', iban_re, iban_cb), (''cvv'', cvv_re, cvv_cb),
     (''email'', email_re, email_cb), (''phone'', phone_re, phone_cb)]"

definition run_stages ::
  "(string \<times> re \<times> (string \<Rightarrow> string list \<Rightarrow> string \<times> string list)) list \<Rightarrow>
   string \<times> string list \<Rightarrow> string \<times> string list" where
  "run_stages sts x = fold (\<lambda>(n, r, f) (s, st). replace_g r f None s st) sts x"

lemma run_stages_simps [simp]:
  "run_stages [] x = x"
  "run_stages ((n, r, f) # sts) (s, st) = run_stages sts (replace_g r f None s st)"
  by (simp_all add: run_stages_def)

lemma scan_run_stages:
  "scan s = (let (c, fl) = run_stages stages (s, [])
     in \<lparr>sr_cleaned = c, sr_flags = fl, sr_score10 = min 10 (3 * length fl),
         sr_hadSensitive = (length fl > 0)\<rparr>)"
  by (simp add: scan_def stages_def case_prod_unfold Let_def run_stages_def)

lemma run_stages_flags:
  assumes "\<forall>(n, r, f) \<in> set sts. honest n f" "run_stages sts (s, st) = (s', st')"
  shows "set st \<subseteq> set st' \<and> set st' \<subseteq> set st \<union> fst ` set sts \<and> (distinct st \<longrightarrow> distinct st')"
  using assms
proof (induction sts arbitrary: s st)
  case (Cons a sts)
  obtain n r f where a: "a = (n, r, f)" by (cases a)
  obtain s1 st1 where r1: "replace_g r f None s st = (s1, st1)" by fastforce
  from Cons.prems(1) a have "honest n f" by simp
  from replace_g_flags [OF this, of st r None s] r1
  have "set st \<subseteq> set st1 \<and> set st1 \<subseteq> insert n (set st) \<and> (distinct st \<longrightarrow> distinct st1)" by simp
  moreover have "set st1 \<subseteq> set st' \<and> set st' \<subseteq> set st1 \<union> fst ` set sts \<and>
      (distinct st1 \<longrightarrow> distinct st')"
    using Cons.IH [of s1 st1] Cons.prems a r1 by simp
  ultimately show ?case using a by auto
qed simp

lemma run_stages_unflagged:
  assumes "\<forall>(n, r, f) \<in> set sts. honest n f" "run_stages sts (s, st) = (s', st')"
    and "\<forall>n \<in> fst ` set sts. n \<notin> set st'"
  shows "s' = s \<and> st' = st"
  using assms
proof (induction sts arbitrary: s st)
  case (Cons a sts)
  obtain n r f where a: "a = (n, r, f)" by (cases a)
  obtain s1 st1 where r1: "replace_g r f None s st = (s1, st1)" by fastforce
  have rest: "run_stages sts (s1, st1) = (s', st')" using Cons.prems(2) a r1 by simp
  have hs: "\<forall>(n, r, f) \<in> set sts. honest n f" using Cons.prems(1) by simp
  have "n \<notin> set st1"
    using run_stages_flags [OF hs rest] Cons.prems(3) a by auto
  then have "(s1, st1) = (s, st)"
    using replace_g_unflagged [of n f r None s st] Cons.prems(1) a r1 by simp
  moreover have "s' = s1 \<and> st' = st1"
    using Cons.IH [OF hs rest] Cons.prems(3) by simp
  ultimately show ?case by simp
qed simp

lemma stages_honest: "\<forall>(n, r, f) \<in> set stages. honest n f"
  by (simp add: stages_def honest_callbacks)

lemma fst_stages: "fst ` set stages = {''pan'', ''iban'', ''cvv'', ''email'', ''phone''}"
  by (auto simp: stages_def)

lemma scan_fields:
  assumes "run_stages stages (s, []) = (c, fl)"
  shows "scan s = \<lparr>sr_cleaned = c, sr_flags = fl, sr_score10 = min 10 (3 * length fl),
         sr_hadSensitive = (length fl > 0)\<rparr>"
  using assms by (simp add: scan_run_stages)

lemma scan_flags_known:
  "set (sr_flags (scan s)) \<subseteq> {''pan'', ''iban'', ''cvv'', ''email'', ''phone''} \<and>
   distinct (sr_flags (scan s))"
proof -
  obtain c fl where r: "run_stages stages (s, []) = (c, fl)" by fastforce
  from run_stages_flags [OF stages_honest r] show ?thesis
    by (simp add: scan_fields [OF r] fst_stages)
qed

lemma scan_clean_unchanged: "\<not> sr_hadSensitive (scan s) \<Longrightarrow> sr_cleaned (scan s) = s"
proof -
  assume clean: "\<not> sr_hadSensitive (scan s)"
  obtain c fl where r: "run_stages stages (s, []) = (c, fl)" by fastforce
  from clean have "fl = []" by (simp add: scan_fields [OF r])
  with run_stages_unflagged [OF stages_honest r] have "c = s" by simp
  then show ?thesis by (simp add: scan_fields [OF r])
qed

section \<open>A card number standing alone is redacted\<close>

lemma is_digit_word: "is_digit c \<Longrightarrow> is_word c"
  by (simp add: is_word_def)

lemma is_digit_not_sep: "is_digit c \<Longrightarrow> \<not> pan_sep c"
  by (auto simp: is_digit_def pan_sep_def code_def Let_def)

text \<open>A character that neither continues nor separates a card number ends the run.\<close>

definition ends_run :: "string \<Rightarrow> bool" where
  "ends_run post = (case post of [] \<Rightarrow> True | c # _ \<Rightarrow> \<not> is_digit c \<and> \<not> pan_sep c)"

lemma m_re_pan_item:
  "m_re pan_item k (b, []) = None"
  "\<not> is_digit c \<Longrightarrow> m_re pan_item k (b, c # s) = None"
  by (simp_all add: pan_item_def)

lemma m_re_pan_item_digit:
  assumes "is_digit c" "s = [] \<or> \<not> pan_sep (hd s)"
  shows "m_re pan_item k (b, c # s) = k (Some c, s)"
  using assms by (cases s) (auto simp: pan_item_def opt_def split: option.splits)

lemma ends_run_head:
  "ends_run post \<Longrightarrow> ds @ post = [] \<or> \<not> pan_sep (hd (ds @ post))" if "\<forall>d \<in> set ds. is_digit d"
  using that by (cases ds; cases post) (auto simp: ends_run_def is_digit_not_sep)

lemma pan_rep_run:
  assumes "\<forall>d \<in> set ds. is_digit d" "length ds \<le> hi" "lo \<le> length ds" "ends_run post"
    and "k (if ds = [] then b else Some (last ds), post) = Some z"
  shows "m_re (Rep lo hi pan_item) k (b, ds @ post) = Some z"
  using assms
proof (induction ds arbitrary: lo hi b)
  case Nil
  have "m_re pan_item k' (b, post) = None" for k'
    using Nil.prems(4) by (cases post) (auto simp: m_re_pan_item ends_run_def)
  with Nil.prems show ?case by (cases hi) auto
next
  case (Cons d ds)
  then obtain hi' where hi: "hi = Suc hi'" by (cases hi) auto
  have rec: "m_re (Rep (lo - 1) hi' pan_item) k (Some d, ds @ post) = Some z"
    using Cons.prems hi by (intro Cons.IH) (auto split: if_splits)
  have "m_re pan_item k' (b, d # ds @ post) = k' (Some d, ds @ post)" for k'
    using Cons.prems(1,4) by (intro m_re_pan_item_digit ends_run_head) auto
  with rec show ?case by (simp add: hi)
qed

lemma pan_match_run:
  assumes "\<forall>d \<in> set ds. is_digit d" "13 \<le> length ds" "length ds \<le> 19" "ends_run post"
    and "post = [] \<or> \<not> is_word (hd post)" "b = None \<or> \<not> is_word (the b)"
  shows "match_at pan_re (b, ds @ post) = Some (Some (last ds), post)"
proof -
  from assms(2) obtain d ds' where ds: "ds = d # ds'" by (cases ds) auto
  have "is_digit (last ds)" using assms(1) ds by auto
  then have "m_re (Rep 13 19 pan_item) (m_re WordB (\<lambda>y. Some y)) (b, ds @ post) =
      Some (Some (last ds), post)"
    using assms ds
    by (intro pan_rep_run) (auto simp: word_before_def word_after_def is_digit_word split: list.splits)
  then show ?thesis
    using assms(1,6) ds
    by (auto simp: match_at_def pan_re_def word_before_def word_after_def is_digit_word
        split: option.splits)
qed

lemma pan_no_match: "s = [] \<or> \<not> is_digit (hd s) \<Longrightarrow> match_at pan_re (b, s) = None"
  using m_re.simps(7) [of 13 18 pan_item]
  by (cases s) (simp_all add: match_at_def pan_re_def m_re_pan_item eval_nat_numeral)

lemma pan_replace_free:
  "\<forall>c \<in> set s. \<not> is_digit c \<Longrightarrow> replace_g pan_re pan_cb b s st = (s, st)"
proof (induction s arbitrary: b)
  case Nil
  then show ?case by (simp add: replace_g_none_Nil pan_no_match)
next
  case (Cons c s)
  then show ?case by (simp add: replace_g_none_Cons pan_no_match)
qed

lemma pan_replace_skip:
  assumes "\<forall>c \<in> set pre. \<not> is_digit c"
  shows "replace_g pan_re pan_cb b (pre @ s) st =
    (let x = replace_g pan_re pan_cb (if pre = [] then b else Some (last pre)) s st
     in (pre @ fst x, snd x))"
  using assms
proof (induction pre arbitrary: b)
  case (Cons c pre)
  have "match_at pan_re (b, c # pre @ s) = None"
    using Cons.prems by (intro pan_no_match) simp
  then show ?case
    using Cons.IH [of "Some c"] Cons.prems by (simp add: replace_g_none_Cons Let_def)
qed simp

lemma digits_of_digits: "\<forall>d \<in> set ds. is_digit d \<Longrightarrow> digits_of ds = ds"
  by (simp add: digits_of_def)

lemma pan_stage_run:
  assumes ds: "\<forall>d \<in> set ds. is_digit d" "13 \<le> length ds" "length ds \<le> 19"
    and pre: "\<forall>c \<in> set pre. \<not> is_digit c" "pre = [] \<or> \<not> is_word (last pre)"
    and post: "\<forall>c \<in> set post. \<not> is_digit c"
      "post = [] \<or> \<not> is_word (hd post) \<and> \<not> pan_sep (hd post)"
  shows "replace_g pan_re pan_cb None (pre @ ds @ post) st =
    (if luhn ds then (pre @ ''[REDACTED_PAN]'' @ post, add_flag ''pan'' st)
     else (pre @ ds @ post, st))"
proof -
  let ?b = "if pre = [] then None else Some (last pre)"
  have "ends_run post" using post by (cases post) (auto simp: ends_run_def)
  then have m: "match_at pan_re (?b, ds @ post) = Some (Some (last ds), post)"
    using ds pre(2) post(2) by (intro pan_match_run) auto
  have "ds \<noteq> []" using ds(2) by auto
  then have "replace_g pan_re pan_cb ?b (ds @ post) st =
      (fst (pan_cb ds st) @ post, snd (pan_cb ds st))"
    using replace_g_match [OF m, of pan_cb st] post(1) by (simp add: pan_replace_free)
  then show ?thesis
    using ds by (simp add: pan_replace_skip [OF pre(1)] Let_def pan_cb_def digits_of_digits)
qed

lemma scan_score:
  "sr_score10 (scan s) = min 10 (3 * length (sr_flags (scan s)))"
  "sr_hadSensitive (scan s) \<longleftrightarrow> sr_flags (scan s) \<noteq> []"
  by (simp_all add: scan_run_stages case_prod_unfold Let_def)

section \<open>Properties\<close>


text \<open>
  a card number of 13 to 19 digits that stands alone in a text without other digits is
  replaced by the marker and reported when it passes the Luhn check, and left as it is when
  it does not.
\<close>

theorem lone_card_number_redacted:
  assumes "\<forall>d \<in> set ds. is_digit d" "13 \<le> length ds" "length ds \<le> 19"
    and "\<forall>c \<in> set pre. \<not> is_digit c" "pre = [] \<or> \<not> is_word (last pre)"
    and "\<forall>c \<in> set post. \<not> is_digit c" "post = [] \<or> \<not> is_word (hd post) \<and> \<not> pan_sep (hd post)"
  shows "replace_g pan_re pan_cb None (pre @ ds @ post) st =
    (if luhn ds then (pre @ ''[REDACTED_PAN]'' @ post, add_flag ''pan'' st)
     else (pre @ ds @ post, st))"
  using assms by (rule pan_stage_run)

theorem lone_card_number_redacted_witness:
  "replace_g pan_re pan_cb None (''carte: '' @ ''4242424242424242'' @ ''.'') []
     = (''carte: '' @ ''[REDACTED_PAN]'' @ ''.'', [''pan''])"
proof -
  have "luhn ''4242424242424242''" by code_simp
  moreover have "list_all is_digit ''4242424242424242''" "list_all (\<lambda>c. \<not> is_digit c) ''carte: ''"
    "list_all (\<lambda>c. \<not> is_digit c) ''.''" "\<not> is_word (CHR '' '')" "\<not> is_word (CHR ''.'')"
    "\<not> pan_sep (CHR ''.'')" by code_simp+
  ultimately show ?thesis
    by (subst lone_card_number_redacted) (simp_all add: list_all_iff add_flag_def)
qed

text \<open>
  the Luhn check detects every error in a single digit.
\<close>

theorem luhn_detects_one_digit:
  assumes "is_digit c" "is_digit d" "c \<noteq> d" "luhn (xs @ c # ys)"
  shows "\<not> luhn (xs @ d # ys)"
  using assms by (rule luhn_change_one)

theorem luhn_detects_one_digit_witness: "\<not> luhn (''424242424242424'' @ ''3'')"
proof -
  have "luhn (''424242424242424'' @ ''2'')" "is_digit (CHR ''2'')" "is_digit (CHR ''3'')" by code_simp+
  then show ?thesis using luhn_detects_one_digit [of "CHR ''2''" "CHR ''3''" "''424242424242424''" "[]"] by simp
qed

text \<open>
  a valid card number followed by its expiry date is not detected: the greedy match takes
  18 digits, fails the Luhn check as a whole, and no later rule applies.
\<close>

theorem card_before_expiry_missed:
  "scan ''4242 4242 4242 4242 12/27''
     = \<lparr>sr_cleaned = ''4242 4242 4242 4242 12/27'', sr_flags = [], sr_score10 = 0, sr_hadSensitive = False\<rparr>
   \<and> luhn (digits_of ''4242 4242 4242 4242'')"
  by code_simp

end
