(* ===== verification/Realtime.thy ===== *)
theory Realtime
  imports Platform
begin

text \<open>
  \<open>RealtimeService\<close> (backend/src/modules/realtime/realtime.service.ts): what is emitted to the
  sockets of a conversation's room. In the dedicated mode it emits nothing. The socket server
  is initialised (it is from the moment the application listens), and its \<open>emit\<close> does not
  throw.
\<close>

definition roomForConversation :: "uuid \<Rightarrow> string" where
  "roomForConversation i = ''conv:'' @ i"

definition roomForUser :: "uuid \<Rightarrow> string" where
  "roomForUser i = ''user:'' @ i"

definition emit :: "emission \<Rightarrow> world \<Rightarrow> world" where
  "emit e w = w\<lparr>w_emits := w_emits w @ [e]\<rparr>"

definition publishMessageCreated :: "config \<Rightarrow> msg_row \<Rightarrow> world \<Rightarrow> world" where
  "publishMessageCreated cfg m w =
     (if cf_wsGatewayDedicated cfg then w
      else emit (EmitCreated (roomForConversation (ms_conversationId m)) (ms_id m)
             (ms_conversationId m) (ms_senderId m) (ms_sequence m) (coalesce (ms_body m) [])
             (ms_createdAt m)) w)"

definition publishMessageDeleted :: "config \<Rightarrow> msg_row \<Rightarrow> world \<Rightarrow> world" where
  "publishMessageDeleted cfg m w =
     (if cf_wsGatewayDedicated cfg then w
      else emit (EmitDeleted (roomForConversation (ms_conversationId m)) (ms_id m)
             (ms_conversationId m) (ms_sequence m)) w)"

definition publishReadReceipt :: "config \<Rightarrow> uuid \<Rightarrow> uuid \<Rightarrow> string \<Rightarrow> world \<Rightarrow> world" where
  "publishReadReceipt cfg c u s w =
     (if cf_wsGatewayDedicated cfg then w
      else emit (EmitRead (roomForConversation c) c u s) w)"

text \<open>Two rooms are the same only for the same conversation, and never a user's room.\<close>

lemma roomForConversation_inj [simp]:
  "roomForConversation i = roomForConversation j \<longleftrightarrow> i = j"
  "roomForConversation i \<noteq> roomForUser j"
  by (simp_all add: roomForConversation_def roomForUser_def)

lemma db_publish [simp]:
  "db (emit e w) = db w" "db (publishMessageCreated cfg m w) = db w"
  "db (publishMessageDeleted cfg m w) = db w" "db (publishReadReceipt cfg c u s w) = db w"
  by (simp_all add: db_def emit_def publishMessageCreated_def publishMessageDeleted_def
      publishReadReceipt_def)

end
