(* ===== verification/Messages.thy ===== *)
theory Messages
  imports Access Crypto Scanner Realtime
begin

text \<open>
  \<open>MessagesService\<close> and its controller (backend/src/modules/messages): sending with
  redaction, encryption, idempotency and a per-conversation sequence under a row lock;
  listing; read receipts; deletion.

  The transaction of \<open>send\<close> locks the conversation row first, so two sends of a conversation
  run one after the other and each is one step here. \<open>entropy\<close> holds the random bytes and
  identifiers one call draws. \<open>pg_int8\<close> is PostgreSQL's reading of a \<open>bigint\<close> from text and
  \<open>qb_limit\<close> what the query builder does with a limit that is not a positive number.
\<close>

section \<open>Definitions\<close>

record send_input =
  si_conversationId :: uuid
  si_senderId :: uuid
  si_body :: string
  si_idempotencyKey :: "string option"

record entropy =
  ry_dek :: bytes
  ry_kiv :: bytes
  ry_iv :: bytes
  ry_msgId :: uuid
  ry_outboxId :: uuid

record stored_body =
  sb_plain :: "string option"
  sb_ciphertext :: "bytes option"
  sb_iv :: "bytes option"
  sb_tag :: "bytes option"
  sb_dekId :: "string option"
  sb_alg :: "string option"

text \<open>What a client receives: the entity without ciphertext, nonce and tag, and with the text.\<close>

definition strip_cipher :: "msg_row \<Rightarrow> string \<Rightarrow> msg_row" where
  "strip_cipher m body =
     m\<lparr>ms_bodyCiphertext := None, ms_bodyIv := None, ms_bodyTag := None, ms_body := Some body\<rparr>"

definition hidden_text :: string where
  "hidden_text = ''[Message masqu'' @ [CHR 0xE9] @ '' par la mod'' @ [CHR 0xE9] @ ''ration]''"

definition toDecrypted ::
  "crypto_env \<Rightarrow> kms \<Rightarrow> int \<Rightarrow> msg_row \<Rightarrow> string option \<Rightarrow> world \<Rightarrow> (world, msg_row) res" where
  "toDecrypted env k t m known w =
     (if ms_status m = Deleted then (Inr (strip_cipher m []), w)
      else if ms_status m = Hidden then (Inr (strip_cipher m hidden_text), w)
      else (case known of
              Some p \<Rightarrow> (Inr (strip_cipher m p), w)
            | None \<Rightarrow>
                (case ms_body m of
                   Some b \<Rightarrow> (Inr (strip_cipher m b), w)
                 | None \<Rightarrow>
                     (case (ms_bodyCiphertext m, ms_bodyIv m, ms_bodyTag m) of
                        (Some ct, Some iv, Some tag) \<Rightarrow>
                          if truthy (ms_bodyDekId m) then
                            (case decrypt env k t ct iv tag (coalesce (ms_bodyDekId m) []) (w_dekCache w) of
                               (Inl e, c) \<Rightarrow> (Inl e, w\<lparr>w_dekCache := c\<rparr>)
                             | (Inr body, c) \<Rightarrow> (Inr (strip_cipher m body), w\<lparr>w_dekCache := c\<rparr>))
                          else (Inr (strip_cipher m []), w)
                      | _ \<Rightarrow> (Inr (strip_cipher m []), w)))))"

definition count_flags :: "config \<Rightarrow> int \<Rightarrow> scan_result \<Rightarrow> world \<Rightarrow> world" where
  "count_flags cfg t sr w =
     (if sr_hadSensitive sr
      then fold (\<lambda>f w. metrics_count cfg t ''ModerationFlagByType'' 1 (Some [(''flag'', f)]) w)
             (sr_flags sr) (metrics_count cfg t ''ModerationFlagged'' 1 None w)
      else w)"

definition prepare_body ::
  "crypto_env \<Rightarrow> kms \<Rightarrow> config \<Rightarrow> int \<Rightarrow> entropy \<Rightarrow> string \<Rightarrow> world \<Rightarrow> (world, stored_body) res" where
  "prepare_body env k cfg t ry cleaned w =
     (if cf_encryptBody cfg then
        (case encrypt env k (ry_dek ry) (ry_kiv ry) (ry_iv ry) cleaned of
           Inl e \<Rightarrow> (Inl e, w)
         | Inr enc \<Rightarrow>
             (Inr \<lparr>sb_plain = None, sb_ciphertext = Some (en_ciphertext enc),
                   sb_iv = Some (en_iv enc), sb_tag = Some (en_tag enc),
                   sb_dekId = Some (en_dekId enc), sb_alg = Some (en_alg enc)\<rparr>,
              metrics_count cfg t ''MessagesEncrypted'' 1 None w))
      else (Inr \<lparr>sb_plain = Some cleaned, sb_ciphertext = None, sb_iv = None, sb_tag = None,
                 sb_dekId = None, sb_alg = None\<rparr>,
            metrics_count cfg t ''MessagesPlaintext'' 1 None w))"

text \<open>\<open>save\<close> of receipts: the rows whose key is stored already are left as they are.\<close>

definition save_receipt :: "receipt_row \<Rightarrow> receipt_row list \<Rightarrow> receipt_row list" where
  "save_receipt r rows = (if list_ex (\<lambda>x. receipt_clash x r) rows then rows else rows @ [r])"

definition flags_or_null :: "scan_result \<Rightarrow> string list option" where
  "flags_or_null sr = (if sr_flags sr = [] then None else Some (sr_flags sr))"

definition new_message ::
  "int \<Rightarrow> entropy \<Rightarrow> send_input \<Rightarrow> scan_result \<Rightarrow> stored_body \<Rightarrow> int \<Rightarrow> msg_row" where
  "new_message t ry inp sr sb n =
     \<lparr>ms_id = ry_msgId ry, ms_conversationId = si_conversationId inp,
      ms_senderId = si_senderId inp, ms_sequence = n, ms_body = sb_plain sb,
      ms_bodyCiphertext = sb_ciphertext sb, ms_bodyDekId = sb_dekId sb, ms_bodyAlg = sb_alg sb,
      ms_bodyIv = sb_iv sb, ms_bodyTag = sb_tag sb, ms_bodyFormat = Plain_text,
      ms_status = (if sr_score10 sr \<ge> 6 then Flagged else Sent),
      ms_idempotencyKey = si_idempotencyKey inp, ms_moderationFlags = flags_or_null sr,
      ms_moderationScore10 = sr_score10 sr, ms_moderatedBy = None, ms_moderatedAt = None,
      ms_createdAt = t, ms_editedAt = None, ms_deletedAt = None\<rparr>"

definition new_outbox :: "int \<Rightarrow> uuid \<Rightarrow> string \<Rightarrow> uuid \<Rightarrow> payload \<Rightarrow> outbox_row" where
  "new_outbox t i type agg pl =
     \<lparr>ob_id = i, ob_eventType = type, ob_aggregateId = agg, ob_payload = pl,
      ob_processedAt = None, ob_createdAt = t, ob_attempts = 0, ob_nextAttemptAt = t,
      ob_lastError = None\<rparr>"

definition created_event ::
  "send_input \<Rightarrow> scan_result \<Rightarrow> msg_row \<Rightarrow> uuid list \<Rightarrow> payload" where
  "created_event inp sr msg recipients =
     Created \<lparr>cp_messageId = ms_id msg, cp_conversationId = ms_conversationId msg,
       cp_senderId = si_senderId inp, cp_sequence = ms_sequence msg,
       cp_createdAt = ms_createdAt msg, cp_body = sr_cleaned sr,
       cp_moderationFlags = flags_or_null sr, cp_recipients = recipients\<rparr>"

definition column_too_long :: "msg_row \<Rightarrow> bool" where
  "column_too_long m \<longleftrightarrow> length (coalesce (ms_idempotencyKey m) []) > 128
     \<or> length (coalesce (ms_bodyDekId m) []) > 128"

text \<open>The writes of the transaction, once the message is known to be new.\<close>

definition store_message ::
  "int \<Rightarrow> entropy \<Rightarrow> send_input \<Rightarrow> scan_result \<Rightarrow> stored_body \<Rightarrow> conv_row \<Rightarrow> world \<Rightarrow>
   exn + msg_row \<times> world" where
  "store_message t ry inp sr sb conv w =
     (let msg = new_message t ry inp sr sb (cv_lastSequence conv + 1);
          others = filter (\<lambda>p. pt_userId p \<noteq> si_senderId inp) (listParticipants (cv_id conv) w);
          receipts = map (\<lambda>p. \<lparr>rc_messageId = ms_id msg, rc_userId = pt_userId p,
                                rc_deliveredAt = None, rc_readAt = None\<rparr>)
                       (filter (\<lambda>p. pt_leftAt p = None) others);
          event = new_outbox t (ry_outboxId ry) ''message.created'' (cv_id conv)
                    (created_event inp sr msg (map pt_userId others))
      in if column_too_long msg then Inl (DbError ''22001'')
         else (case insert_row msg_clash msg (w_msgs w) of
           Inl e \<Rightarrow> Inl e
         | Inr msgs \<Rightarrow>
             (case insert_row outbox_clash event (w_outbox w) of
                Inl e \<Rightarrow> Inl e
              | Inr events \<Rightarrow>
                  (let w1 = bumpLastMessage t (cv_id conv) (ms_sequence msg)
                         (w\<lparr>w_msgs := msgs, w_receipts := fold save_receipt receipts (w_receipts w),
                            w_outbox := events\<rparr>)
                   in Inr (msg,
                        if sr_hadSensitive sr
                        then audit_log (mk_audit (si_senderId inp) ''message.sensitive_redacted''
                               ''message'' (ms_id msg)
                               (Some [(''flags'', JArr (sr_flags sr)),
                                      (''score'', JNum (int (sr_score10 sr)))])) w1
                        else w1)))))"

definition e2ee_refusal :: exn where
  "e2ee_refusal = Forbidden (''Conversation E2EE : utiliser /e2ee/messages (le serveur ne d''
     @ [CHR 0xE9] @ ''chiffre pas)'')"

definition find_replay :: "send_input \<Rightarrow> world \<Rightarrow> msg_row option" where
  "find_replay inp w =
     (if truthy (si_idempotencyKey inp)
      then find (\<lambda>m. ms_conversationId m = si_conversationId inp \<and> ms_senderId m = si_senderId inp
             \<and> ms_idempotencyKey m = si_idempotencyKey inp) (w_msgs w)
      else None)"

definition send_tx ::
  "int \<Rightarrow> entropy \<Rightarrow> send_input \<Rightarrow> scan_result \<Rightarrow> stored_body \<Rightarrow> world \<Rightarrow> exn + msg_row \<times> world" where
  "send_tx t ry inp sr sb w =
     (case find (\<lambda>c. cv_id c = si_conversationId inp) (w_convs w) of
        None \<Rightarrow> Inl (NotFound ''Conversation introuvable'')
      | Some conv \<Rightarrow>
          if cv_e2eeEnabled conv then Inl e2ee_refusal
          else (case assertCanWrite conv of
            Inl e \<Rightarrow> Inl e
          | Inr _ \<Rightarrow>
              (case find (\<lambda>p. pt_conversationId p = cv_id conv \<and> pt_userId p = si_senderId inp)
                      (w_parts w) of
                 None \<Rightarrow> Inl (Forbidden (''Vous n'' @ [CHR 0x27] @ [CHR 0xEA] @ ''tes pas participant''))
               | Some part \<Rightarrow>
                   if pt_leftAt part \<noteq> None
                   then Inl (Forbidden (''Vous n'' @ [CHR 0x27] @ [CHR 0xEA] @ ''tes pas participant''))
                   else (case find_replay inp w of
                           Some existing \<Rightarrow> Inr (existing, w)
                         | None \<Rightarrow> store_message t ry inp sr sb conv w))))"

definition messages_send ::
  "crypto_env \<Rightarrow> kms \<Rightarrow> config \<Rightarrow> int \<Rightarrow> int \<Rightarrow> entropy \<Rightarrow> send_input \<Rightarrow> world \<Rightarrow>
   (world, msg_row) res" where
  "messages_send env k cfg t0 t ry inp w =
     (let trimmed = js_trim (si_body inp) in
      if trimmed = [] then (Inl (Forbidden ''Message vide''), w)
      else if length trimmed > cf_maxMessageLength cfg then (Inl (Forbidden ''Message trop long''), w)
      else
        (let sr = scan trimmed in
         case prepare_body env k cfg t0 ry (sr_cleaned sr) (count_flags cfg t0 sr w) of
           (Inl e, w1) \<Rightarrow> (Inl e, w1)
         | (Inr sb, w1) \<Rightarrow>
             (case transact (send_tx t ry inp sr sb) w1 of
                (Inl e, w2) \<Rightarrow> (Inl e, w2)
              | (Inr message, w2) \<Rightarrow>
                  (case toDecrypted env k t message (Some (sr_cleaned sr)) w2 of
                     (Inl e, w3) \<Rightarrow> (Inl e, w3)
                   | (Inr d, w3) \<Rightarrow>
                       (Inr d,
                        metrics_timing cfg t ''MessageSendDurationMs'' (t - t0)
                          (metrics_count cfg t ''MessagesSent'' 1 None
                             (publishMessageCreated cfg d w3)))))))"

fun decrypt_all ::
  "crypto_env \<Rightarrow> kms \<Rightarrow> int \<Rightarrow> msg_row list \<Rightarrow> world \<Rightarrow> (world, msg_row list) res" where
  "decrypt_all env k t [] w = (Inr [], w)"
| "decrypt_all env k t (m # ms) w =
     (let (r, w1) = toDecrypted env k t m None w;
          (rs, w2) = decrypt_all env k t ms w1
      in (case r of Inl e \<Rightarrow> Inl e
          | Inr d \<Rightarrow> (case rs of Inl e \<Rightarrow> Inl e | Inr ds \<Rightarrow> Inr (d # ds)), w2))"

record list_params =
  lp_conversationId :: uuid
  lp_afterSequence :: "string option"
  lp_beforeSequence :: "string option"
  lp_limit :: "int option option"

text \<open>
  \<open>lp_limit\<close> is \<open>None\<close> when absent and \<open>Some None\<close> for NaN.
\<close>

definition apply_limit ::
  "(int option \<Rightarrow> msg_row list \<Rightarrow> exn + msg_row list) \<Rightarrow> int option option \<Rightarrow> msg_row list \<Rightarrow>
   exn + msg_row list" where
  "apply_limit qb_limit l rows =
     (case map_option (min 100) (coalesce l (Some 50)) of
        None \<Rightarrow> qb_limit None rows
      | Some n \<Rightarrow> if n > 0 then Inr (take (nat n) rows) else qb_limit (Some n) rows)"

definition select_messages ::
  "(string \<Rightarrow> exn + int) \<Rightarrow> list_params \<Rightarrow> world \<Rightarrow> exn + msg_row list" where
  "select_messages pg_int8 p w =
     (let rows = filter (\<lambda>m. ms_conversationId m = lp_conversationId p \<and> ms_deletedAt m = None)
                   (w_msgs w)
      in if truthy (lp_afterSequence p) then
           (case pg_int8 (coalesce (lp_afterSequence p) []) of
              Inl e \<Rightarrow> Inl e
            | Inr n \<Rightarrow> Inr (sort_key ms_sequence (filter (\<lambda>m. ms_sequence m > n) rows)))
         else if truthy (lp_beforeSequence p) then
           (case pg_int8 (coalesce (lp_beforeSequence p) []) of
              Inl e \<Rightarrow> Inl e
            | Inr n \<Rightarrow> Inr (rev (sort_key ms_sequence (filter (\<lambda>m. ms_sequence m < n) rows))))
         else Inr (rev (sort_key ms_sequence rows)))"

definition messages_list ::
  "crypto_env \<Rightarrow> kms \<Rightarrow> (string \<Rightarrow> exn + int) \<Rightarrow> (int option \<Rightarrow> msg_row list \<Rightarrow> exn + msg_row list) \<Rightarrow>
   int \<Rightarrow> list_params \<Rightarrow> world \<Rightarrow> (world, msg_row list) res" where
  "messages_list env k pg_int8 qb_limit t p w =
     (case select_messages pg_int8 p w of
        Inl e \<Rightarrow> (Inl e, w)
      | Inr rows \<Rightarrow>
          (case apply_limit qb_limit (lp_limit p) rows of
             Inl e \<Rightarrow> (Inl e, w) | Inr page \<Rightarrow> decrypt_all env k t page w))"

definition mark_read_tx ::
  "(string \<Rightarrow> exn + int) \<Rightarrow> int \<Rightarrow> uuid \<Rightarrow> uuid \<Rightarrow> uuid \<Rightarrow> string \<Rightarrow> world \<Rightarrow> exn + unit \<times> world" where
  "mark_read_tx pg_int8 t obid c u s w =
     (case pg_int8 s of
        Inl e \<Rightarrow> Inl e
      | Inr n \<Rightarrow>
          (let parts = update_rows (\<lambda>p. pt_conversationId p = c \<and> pt_userId p = u)
                         (\<lambda>p. p\<lparr>pt_lastReadSequence := n\<rparr>) (w_parts w);
               ids = map ms_id (filter (\<lambda>m. ms_conversationId m = c \<and> ms_sequence m \<le> n) (w_msgs w));
               receipts = update_rows (\<lambda>r. rc_userId r = u \<and> rc_readAt r = None \<and> rc_messageId r \<in> set ids)
                            (\<lambda>r. r\<lparr>rc_readAt := Some t\<rparr>) (w_receipts w)
           in case insert_row outbox_clash (new_outbox t obid ''message.read'' c (ReadUpto c u s))
                     (w_outbox w) of
                Inl e \<Rightarrow> Inl e
              | Inr events \<Rightarrow>
                  Inr ((), w\<lparr>w_parts := parts, w_receipts := receipts, w_outbox := events\<rparr>)))"

definition markRead ::
  "config \<Rightarrow> (string \<Rightarrow> exn + int) \<Rightarrow> int \<Rightarrow> uuid \<Rightarrow> uuid \<Rightarrow> uuid \<Rightarrow> string \<Rightarrow> world \<Rightarrow>
   (world, unit) res" where
  "markRead cfg pg_int8 t obid c u s w =
     (case transact (mark_read_tx pg_int8 t obid c u s) w of
        (Inl e, w') \<Rightarrow> (Inl e, w')
      | (Inr _, w') \<Rightarrow> (Inr (), publishReadReceipt cfg c u s w'))"

definition erase_body :: "int \<Rightarrow> msg_row \<Rightarrow> msg_row" where
  "erase_body t m =
     m\<lparr>ms_status := Deleted, ms_deletedAt := Some t, ms_body := None, ms_bodyCiphertext := None,
       ms_bodyIv := None, ms_bodyTag := None, ms_bodyDekId := None\<rparr>"

definition softDelete :: "config \<Rightarrow> int \<Rightarrow> uuid \<Rightarrow> uuid \<Rightarrow> world \<Rightarrow> (world, unit) res" where
  "softDelete cfg t mid actor w =
     (case find (\<lambda>m. ms_id m = mid) (w_msgs w) of
        None \<Rightarrow> (Inl (NotFound ''Not Found''), w)
      | Some m \<Rightarrow>
          if ms_senderId m \<noteq> actor
          then (Inl (Forbidden ''Vous ne pouvez supprimer que vos messages''), w)
          else (Inr (),
            publishMessageDeleted cfg (erase_body t m)
              (audit_log (mk_audit actor ''message.deleted'' ''message'' mid None)
                (w\<lparr>w_msgs := update_rows (\<lambda>x. ms_id x = mid) (\<lambda>x. erase_body t m) (w_msgs w)\<rparr>))))"

section \<open>The controller\<close>

record send_dto =
  sd_body :: string
  sd_idempotencyKey :: "string option"

definition valid_send :: "send_dto \<Rightarrow> bool" where
  "valid_send d \<longleftrightarrow> 1 \<le> length (sd_body d) \<and> length (sd_body d) \<le> 4000
     \<and> (case sd_idempotencyKey d of None \<Rightarrow> True | Some s \<Rightarrow> length s \<le> 128)"

definition messages_post ::
  "crypto_env \<Rightarrow> kms \<Rightarrow> (string \<Rightarrow> uuid option) \<Rightarrow> config \<Rightarrow> int \<Rightarrow> int \<Rightarrow> entropy \<Rightarrow> auth_user \<Rightarrow>
   string \<Rightarrow> send_dto \<Rightarrow> string option \<Rightarrow> world \<Rightarrow> (world, msg_row) res" where
  "messages_post env k pg_uuid cfg t0 t ry user raw d headerKey w =
     guarded (conversation_access_guard pg_uuid t0 (Some user) (Some raw) None None)
       (\<lambda>_ w1. case uuid_pipe raw of
          Inl e \<Rightarrow> (Inl e, w1)
        | Inr c \<Rightarrow>
            if \<not> valid_send d then (Inl (BadRequest ''Bad Request''), w1)
            else messages_send env k cfg t0 t ry
              \<lparr>si_conversationId = c, si_senderId = au_sub user, si_body = sd_body d,
               si_idempotencyKey = (case sd_idempotencyKey d of Some s \<Rightarrow> Some s | None \<Rightarrow> headerKey)\<rparr>
              w1) w"

definition messages_get ::
  "crypto_env \<Rightarrow> kms \<Rightarrow> (string \<Rightarrow> uuid option) \<Rightarrow> (string \<Rightarrow> exn + int) \<Rightarrow>
   (int option \<Rightarrow> msg_row list \<Rightarrow> exn + msg_row list) \<Rightarrow> int \<Rightarrow> auth_user \<Rightarrow> string \<Rightarrow> string option \<Rightarrow>
   string option \<Rightarrow> string option \<Rightarrow> world \<Rightarrow> (world, msg_row list) res" where
  "messages_get env k pg_uuid pg_int8 qb_limit t user raw after before limit w =
     guarded (conversation_access_guard pg_uuid t (Some user) (Some raw) None None)
       (\<lambda>_ w1. case uuid_pipe raw of
          Inl e \<Rightarrow> (Inl e, w1)
        | Inr c \<Rightarrow> messages_list env k pg_int8 qb_limit t
              \<lparr>lp_conversationId = c, lp_afterSequence = after, lp_beforeSequence = before,
               lp_limit = (if truthy limit then Some (parse_int (coalesce limit [])) else None)\<rparr> w1) w"

definition messages_read ::
  "(string \<Rightarrow> uuid option) \<Rightarrow> (string \<Rightarrow> exn + int) \<Rightarrow> config \<Rightarrow> int \<Rightarrow> uuid \<Rightarrow> auth_user \<Rightarrow> string \<Rightarrow>
   string \<Rightarrow> world \<Rightarrow> (world, unit) res" where
  "messages_read pg_uuid pg_int8 cfg t obid user raw s w =
     guarded (conversation_access_guard pg_uuid t (Some user) (Some raw) None None)
       (\<lambda>_ w1. case uuid_pipe raw of
          Inl e \<Rightarrow> (Inl e, w1)
        | Inr c \<Rightarrow> markRead cfg pg_int8 t obid c (au_sub user) s w1) w"

definition messages_delete ::
  "(string \<Rightarrow> uuid option) \<Rightarrow> config \<Rightarrow> int \<Rightarrow> auth_user \<Rightarrow> string \<Rightarrow> string \<Rightarrow> world \<Rightarrow>
   (world, unit) res" where
  "messages_delete pg_uuid cfg t user rawConv rawMsg w =
     guarded (conversation_access_guard pg_uuid t (Some user) (Some rawConv) None None)
       (\<lambda>_ w1. case uuid_pipe rawMsg of
          Inl e \<Rightarrow> (Inl e, w1) | Inr m \<Rightarrow> softDelete cfg t m (au_sub user) w1) w"

section \<open>What the parts of a send do\<close>

lemma db_dekCache [simp]: "db (w\<lparr>w_dekCache := c\<rparr>) = db w"
  by (simp add: db_def)

lemma db_toDecrypted: "db (snd (toDecrypted env k t m known w)) = db w"
  by (auto simp: toDecrypted_def split: option.splits sum.splits prod.splits)

lemma toDecrypted_known:
  "toDecrypted env k t m (Some p) w = (Inr (strip_cipher m
     (if ms_status m = Deleted then [] else if ms_status m = Hidden then hidden_text else p)), w)"
  by (simp add: toDecrypted_def)

lemma db_count_flags [simp]: "db (count_flags cfg t sr w) = db w"
proof -
  have "db (fold (\<lambda>f w. metrics_count cfg t n 1 (Some [(''flag'', f)]) w) fs w) = db w" for n fs w
    by (induction fs arbitrary: w) simp_all
  then show ?thesis by (simp add: count_flags_def)
qed

lemma count_flags_dekCache [simp]: "w_dekCache (count_flags cfg t sr w) = w_dekCache w"
proof -
  have "w_dekCache (fold (\<lambda>f w. metrics_count cfg t n 1 (Some [(''flag'', f)]) w) fs w) = w_dekCache w"
    for n fs w by (induction fs arbitrary: w) simp_all
  then show ?thesis by (simp add: count_flags_def)
qed

lemma prepare_body_dekCache: "w_dekCache (snd (prepare_body env k cfg t ry c w)) = w_dekCache w"
  by (simp add: prepare_body_def split: sum.split)

lemma publish_dekCache [simp]: "w_dekCache (publishMessageCreated cfg m w) = w_dekCache w"
  by (simp add: publishMessageCreated_def emit_def)

lemma db_prepare_body: "db (snd (prepare_body env k cfg t ry c w)) = db w"
  by (simp add: prepare_body_def split: sum.split)

text \<open>What is stored, by configuration.\<close>

definition body_stored_as :: "crypto_env \<Rightarrow> kms \<Rightarrow> config \<Rightarrow> entropy \<Rightarrow> string \<Rightarrow> stored_body \<Rightarrow> bool" where
  "body_stored_as env k cfg ry cleaned sb \<longleftrightarrow>
     (if cf_encryptBody cfg then
        (\<exists>enc. encrypt env k (ry_dek ry) (ry_kiv ry) (ry_iv ry) cleaned = Inr enc
           \<and> sb = \<lparr>sb_plain = None, sb_ciphertext = Some (en_ciphertext enc),
                   sb_iv = Some (en_iv enc), sb_tag = Some (en_tag enc),
                   sb_dekId = Some (en_dekId enc), sb_alg = Some (en_alg enc)\<rparr>)
      else sb = \<lparr>sb_plain = Some cleaned, sb_ciphertext = None, sb_iv = None, sb_tag = None,
                 sb_dekId = None, sb_alg = None\<rparr>)"

lemma prepare_body_Inr:
  "prepare_body env k cfg t ry c w = (Inr sb, w') \<Longrightarrow> body_stored_as env k cfg ry c sb"
  by (auto simp: prepare_body_def body_stored_as_def split: if_splits sum.splits)

lemma save_receipt_clash_free [inv_intros]:
  "clash_free receipt_clash rows \<Longrightarrow> clash_free receipt_clash (save_receipt r rows)"
  by (auto simp: save_receipt_def clash_free_snoc list_ex_iff)

lemma fold_save_receipt_clash_free [inv_intros]:
  "clash_free receipt_clash rows \<Longrightarrow> clash_free receipt_clash (fold save_receipt rs rows)"
  by (induction rs arbitrary: rows) (auto intro: save_receipt_clash_free)

text \<open>The effect of \<open>store_message\<close> on every table.\<close>

definition others_of :: "send_input \<Rightarrow> uuid \<Rightarrow> world \<Rightarrow> part_row list" where
  "others_of inp c w = filter (\<lambda>p. pt_userId p \<noteq> si_senderId inp) (listParticipants c w)"

definition new_event ::
  "int \<Rightarrow> entropy \<Rightarrow> send_input \<Rightarrow> scan_result \<Rightarrow> msg_row \<Rightarrow> uuid \<Rightarrow> world \<Rightarrow> outbox_row" where
  "new_event t ry inp sr msg c w = new_outbox t (ry_outboxId ry) ''message.created'' c
     (created_event inp sr msg (map pt_userId (others_of inp c w)))"

lemma store_message_Inr:
  assumes "store_message t ry inp sr sb conv w = Inr (msg, w')"
  shows "msg = new_message t ry inp sr sb (cv_lastSequence conv + 1)"
    "w_msgs w' = w_msgs w @ [msg]" "\<not> column_too_long msg"
    "\<forall>x \<in> set (w_msgs w). \<not> msg_clash x msg"
    "w_outbox w' = w_outbox w @ [new_event t ry inp sr msg (cv_id conv) w]"
    "\<forall>x \<in> set (w_outbox w). \<not> outbox_clash x (new_event t ry inp sr msg (cv_id conv) w)"
    "w_convs w' = update_rows (\<lambda>x. cv_id x = cv_id conv)
        (\<lambda>x. x\<lparr>cv_lastMessageAt := Some t, cv_lastSequence := cv_lastSequence conv + 1\<rparr>) (w_convs w)"
    "w_receipts w' = fold save_receipt (map (\<lambda>p. \<lparr>rc_messageId = ms_id msg, rc_userId = pt_userId p,
        rc_deliveredAt = None, rc_readAt = None\<rparr>)
        (filter (\<lambda>p. pt_leftAt p = None) (others_of inp (cv_id conv) w))) (w_receipts w)"
    "w_parts w' = w_parts w" "w_users w' = w_users w" "w_orders w' = w_orders w"
    "w_tokens w' = w_tokens w" "w_emails w' = w_emails w" "w_groups w' = w_groups w"
    "w_mls w' = w_mls w" "w_dekCache w' = w_dekCache w"
proof -
  define msg0 where "msg0 = new_message t ry inp sr sb (cv_lastSequence conv + 1)"
  define ev where "ev = new_event t ry inp sr msg0 (cv_id conv) w"
  define rs where "rs = map (\<lambda>p. \<lparr>rc_messageId = ms_id msg0, rc_userId = pt_userId p,
        rc_deliveredAt = None, rc_readAt = None\<rparr>)
        (filter (\<lambda>p. pt_leftAt p = None) (others_of inp (cv_id conv) w))"
  define au where "au = mk_audit (si_senderId inp) ''message.sensitive_redacted'' ''message''
     (ms_id msg0) (Some [(''flags'', JArr (sr_flags sr)), (''score'', JNum (int (sr_score10 sr)))])"
  have seq: "ms_sequence msg0 = cv_lastSequence conv + 1" by (simp add: msg0_def new_message_def)
  define W where "W = (\<lambda>msgs events. let w1 = bumpLastMessage t (cv_id conv) (ms_sequence msg0)
        (w\<lparr>w_msgs := msgs, w_receipts := fold save_receipt rs (w_receipts w), w_outbox := events\<rparr>)
      in if sr_hadSensitive sr then audit_log au w1 else w1)"
  have eq: "store_message t ry inp sr sb conv w =
     (if column_too_long msg0 then Inl (DbError ''22001'')
      else case insert_row msg_clash msg0 (w_msgs w) of Inl e \<Rightarrow> Inl e
        | Inr msgs \<Rightarrow> (case insert_row outbox_clash ev (w_outbox w) of Inl e \<Rightarrow> Inl e
            | Inr events \<Rightarrow> Inr (msg0, W msgs events)))"
    by (simp only: store_message_def msg0_def ev_def rs_def au_def others_of_def new_event_def
        W_def Let_def)
  from assms [unfolded eq] obtain msgs events where ins: "\<not> column_too_long msg0"
    "insert_row msg_clash msg0 (w_msgs w) = Inr msgs"
    "insert_row outbox_clash ev (w_outbox w) = Inr events" and m: "msg = msg0"
    and W: "w' = W msgs events"
    by (auto split: if_splits sum.splits)
  note w' = W [unfolded W_def]
  note i = insert_row_InrD [OF ins(2)] insert_row_InrD [OF ins(3)]
  show "msg = new_message t ry inp sr sb (cv_lastSequence conv + 1)" "\<not> column_too_long msg"
    using m ins(1) by (simp_all add: msg0_def)
  show "w_msgs w' = w_msgs w @ [msg]" "\<forall>x \<in> set (w_msgs w). \<not> msg_clash x msg"
    using i w' m by (simp_all add: bumpLastMessage_def Let_def)
  show "w_outbox w' = w_outbox w @ [new_event t ry inp sr msg (cv_id conv) w]"
    "\<forall>x \<in> set (w_outbox w). \<not> outbox_clash x (new_event t ry inp sr msg (cv_id conv) w)"
    using i w' m by (simp_all add: bumpLastMessage_def Let_def ev_def)
  show "w_convs w' = update_rows (\<lambda>x. cv_id x = cv_id conv)
        (\<lambda>x. x\<lparr>cv_lastMessageAt := Some t, cv_lastSequence := cv_lastSequence conv + 1\<rparr>) (w_convs w)"
    using w' seq by (simp add: bumpLastMessage_def Let_def)
  show "w_receipts w' = fold save_receipt (map (\<lambda>p. \<lparr>rc_messageId = ms_id msg, rc_userId = pt_userId p,
        rc_deliveredAt = None, rc_readAt = None\<rparr>)
        (filter (\<lambda>p. pt_leftAt p = None) (others_of inp (cv_id conv) w))) (w_receipts w)"
    using w' m by (simp add: bumpLastMessage_def Let_def rs_def)
  show "w_parts w' = w_parts w" "w_users w' = w_users w" "w_orders w' = w_orders w"
    "w_tokens w' = w_tokens w" "w_emails w' = w_emails w" "w_groups w' = w_groups w"
    "w_mls w' = w_mls w" "w_dekCache w' = w_dekCache w"
    using w' by (simp_all add: bumpLastMessage_def Let_def)
qed

lemma send_tx_Inr:
  assumes "send_tx t ry inp sr sb w = Inr (m, w')"
  obtains conv part where "conv \<in> set (w_convs w)" "cv_id conv = si_conversationId inp"
    "\<not> cv_e2eeEnabled conv" "cv_status conv = Open" "part \<in> set (w_parts w)"
    "pt_conversationId part = si_conversationId inp" "pt_userId part = si_senderId inp"
    "pt_leftAt part = None"
    "find_replay inp w = Some m \<and> w' = w
     \<or> find_replay inp w = None \<and> store_message t ry inp sr sb conv w = Inr (m, w')"
proof -
  from assms obtain conv where c: "find (\<lambda>c. cv_id c = si_conversationId inp) (w_convs w) = Some conv"
    by (cases "find (\<lambda>c. cv_id c = si_conversationId inp) (w_convs w)") (simp_all add: send_tx_def)
  note conv = find_SomeD [OF c]
  have ok: "\<not> cv_e2eeEnabled conv" "cv_status conv = Open"
    using assms c by (simp_all add: send_tx_def assertCanWrite_def split: if_splits)
  from assms c ok obtain part where
    p: "find (\<lambda>p. pt_conversationId p = cv_id conv \<and> pt_userId p = si_senderId inp) (w_parts w) = Some part"
    by (cases "find (\<lambda>p. pt_conversationId p = cv_id conv \<and> pt_userId p = si_senderId inp) (w_parts w)")
      (simp_all add: send_tx_def assertCanWrite_def)
  note part = find_SomeD [OF p]
  have "pt_leftAt part = None" "find_replay inp w = Some m \<and> w' = w
     \<or> find_replay inp w = None \<and> store_message t ry inp sr sb conv w = Inr (m, w')"
    using assms c p ok
    by (simp_all add: send_tx_def assertCanWrite_def split: if_splits option.splits)
  with conv ok part show thesis by (intro that [of conv part]) simp_all
qed

section \<open>The numbering of a conversation\<close>

text \<open>
  An append-only log per group whose entries are numbered under a lock: the interface, and
  what follows for any sequence of appends.
\<close>

locale sequenced_log =
  fixes nums :: "'s \<Rightarrow> 'k \<Rightarrow> int list"
    and append_entry :: "'k \<Rightarrow> 'e \<Rightarrow> 's \<Rightarrow> 's option"
    and ok :: "'s \<Rightarrow> bool"
  assumes append_ok: "ok s \<Longrightarrow> append_entry k e s = Some s' \<Longrightarrow> ok s'"
    and append_nums: "ok s \<Longrightarrow> append_entry k e s = Some s' \<Longrightarrow>
        nums s' j = (if j = k then nums s j @ [int (length (nums s j)) + 1] else nums s j)"
begin

definition gap_free :: "'s \<Rightarrow> bool" where
  "gap_free s \<longleftrightarrow> (\<forall>k. nums s k = [1..int (length (nums s k))])"

lemma append_gap_free:
  assumes "ok s" "gap_free s" "append_entry k e s = Some s'"
  shows "gap_free s'"
  unfolding gap_free_def
proof
  fix j
  have "nums s j = [1..int (length (nums s j))]" using assms(2) by (simp add: gap_free_def)
  moreover have "[1..int n] @ [int n + 1] = [1..int n + 1]" for n
    using upto_rec2 [of 1 "int n + 1"] by simp
  ultimately show "nums s' j = [1..int (length (nums s' j))]"
    using append_nums [OF assms(1,3), of j] by (metis (no_types, lifting) length_append_singleton of_nat_Suc add.commute)
qed

fun append_all :: "('k \<times> 'e) list \<Rightarrow> 's \<Rightarrow> 's" where
  "append_all [] s = s"
| "append_all ((k, e) # es) s =
     (case append_entry k e s of None \<Rightarrow> append_all es s | Some s' \<Rightarrow> append_all es s')"

lemma append_all_gap_free: "ok s \<Longrightarrow> gap_free s \<Longrightarrow> ok (append_all es s) \<and> gap_free (append_all es s)"
proof (induction es arbitrary: s)
  case (Cons a es)
  obtain k e where a: "a = (k, e)" by (cases a)
  show ?case
  proof (cases "append_entry k e s")
    case None
    with Cons a show ?thesis by simp
  next
    case (Some s')
    with Cons.IH [of s'] append_ok [OF Cons.prems(1) Some] append_gap_free [OF Cons.prems Some] a
    show ?thesis by simp
  qed
qed simp

lemma gap_free_distinct: "gap_free s \<Longrightarrow> distinct (nums s k)"
  unfolding gap_free_def by (metis distinct_upto)

end

text \<open>The messages of a conversation are numbered from 1 to \<open>last_sequence\<close>, without a gap.\<close>

definition msgs_of :: "uuid \<Rightarrow> world \<Rightarrow> msg_row list" where
  "msgs_of c w = filter (\<lambda>m. ms_conversationId m = c) (w_msgs w)"

definition seq_ok :: "world \<Rightarrow> bool" where
  "seq_ok w \<longleftrightarrow>
     (\<forall>c \<in> set (w_convs w). 0 \<le> cv_lastSequence c
        \<and> map ms_sequence (msgs_of (cv_id c) w) = [1..cv_lastSequence c])
     \<and> ms_conversationId ` set (w_msgs w) \<subseteq> cv_id ` set (w_convs w)"

text \<open>It depends on these columns only.\<close>

definition msg_keys :: "world \<Rightarrow> (uuid \<times> int) list" where
  "msg_keys w = map (\<lambda>m. (ms_conversationId m, ms_sequence m)) (w_msgs w)"

definition conv_keys :: "world \<Rightarrow> (uuid \<times> int) list" where
  "conv_keys w = map (\<lambda>c. (cv_id c, cv_lastSequence c)) (w_convs w)"

lemma nums_keys: "map ms_sequence (msgs_of c w) = map snd (filter (\<lambda>k. fst k = c) (msg_keys w))"
  by (simp add: msgs_of_def msg_keys_def filter_map comp_def)

lemma seq_ok_keys:
  "seq_ok w \<longleftrightarrow>
     (\<forall>(i, n) \<in> set (conv_keys w). 0 \<le> n \<and> map snd (filter (\<lambda>k. fst k = i) (msg_keys w)) = [1..n])
     \<and> fst ` set (msg_keys w) \<subseteq> fst ` set (conv_keys w)"
proof -
  have "fst ` set (msg_keys w) = ms_conversationId ` set (w_msgs w)"
    "fst ` set (conv_keys w) = cv_id ` set (w_convs w)"
    by (simp_all add: msg_keys_def conv_keys_def image_image)
  then show ?thesis unfolding seq_ok_def nums_keys by (simp add: conv_keys_def)
qed

lemma seq_ok_cong: "msg_keys w' = msg_keys w \<Longrightarrow> conv_keys w' = conv_keys w \<Longrightarrow> seq_ok w' = seq_ok w"
  by (simp add: seq_ok_keys)

lemma keys_cong:
  "w_msgs w' = w_msgs w \<Longrightarrow> msg_keys w' = msg_keys w" "w_convs w' = w_convs w \<Longrightarrow> conv_keys w' = conv_keys w"
  by (simp_all add: msg_keys_def conv_keys_def)

lemma seq_ok_db: "db w' = db w \<Longrightarrow> seq_ok w' = seq_ok w"
  by (intro seq_ok_cong keys_cong db_eqD)

lemma schema_ok_db: "db w' = db w \<Longrightarrow> schema_ok w' = schema_ok w"
  unfolding schema_ok_def by (simp only: db_eqD [of w' w])

lemma conv_unique:
  "schema_ok w \<Longrightarrow> c \<in> set (w_convs w) \<Longrightarrow> c' \<in> set (w_convs w) \<Longrightarrow> cv_id c = cv_id c' \<Longrightarrow> c = c'"
  using clash_freeD [of conv_clash "w_convs w" c c'] by (auto simp: schema_ok_def conv_clash_def)

lemma bump_clash_free:
  "clash_free conv_clash rows \<Longrightarrow> clash_free conv_clash (update_rows p
     (\<lambda>x. x\<lparr>cv_lastMessageAt := Some t, cv_lastSequence := n\<rparr>) rows)"
  by (rule clash_free_update) (auto simp: conv_clash_def split: if_splits)

lemma store_message_inv:
  assumes "schema_ok w" "seq_ok w" "conv \<in> set (w_convs w)" "cv_id conv = si_conversationId inp"
    and "store_message t ry inp sr sb conv w = Inr (msg, w')"
  shows "schema_ok w' \<and> seq_ok w' \<and> cv_lastSequence conv = int (length (msgs_of (cv_id conv) w))"
proof -
  note st = store_message_Inr [OF assms(5)]
  have last: "0 \<le> cv_lastSequence conv" "map ms_sequence (msgs_of (cv_id conv) w) = [1..cv_lastSequence conv]"
    using assms(2,3) unfolding seq_ok_def by blast+
  have len: "cv_lastSequence conv = int (length (msgs_of (cv_id conv) w))"
    using arg_cong [OF last(2), of length] last(1) by simp
  have schema: "schema_ok w'"
    using assms(1) st(4,6) unfolding schema_ok_def st(2,5,7-15)
    by (auto simp: clash_free_snoc intro!: bump_clash_free fold_save_receipt_clash_free)
  have msg: "ms_conversationId msg = cv_id conv" "ms_sequence msg = cv_lastSequence conv + 1"
    using st(1) assms(4) by (simp_all add: new_message_def)
  have keys: "msg_keys w' = msg_keys w @ [(cv_id conv, cv_lastSequence conv + 1)]"
    using msg by (simp add: msg_keys_def st(2))
  have snoc: "[1..cv_lastSequence conv + 1] = [1..cv_lastSequence conv] @ [cv_lastSequence conv + 1]"
    using last(1) upto_rec2 [of 1 "cv_lastSequence conv + 1"] by simp
  have "seq_ok w'"
    unfolding seq_ok_def
  proof (intro conjI ballI)
    fix c assume "c \<in> set (w_convs w')"
    then obtain c0 where c0: "c0 \<in> set (w_convs w)" and c: "c = (if cv_id c0 = cv_id conv
        then c0\<lparr>cv_lastMessageAt := Some t, cv_lastSequence := cv_lastSequence conv + 1\<rparr> else c0)"
      unfolding st(7) by (rule in_update_rowsE)
    have old: "0 \<le> cv_lastSequence c0" "map ms_sequence (msgs_of (cv_id c0) w) = [1..cv_lastSequence c0]"
      using assms(2) c0 unfolding seq_ok_def by blast+
    show "0 \<le> cv_lastSequence c" using c old(1) last(1) by simp
    show "map ms_sequence (msgs_of (cv_id c) w') = [1..cv_lastSequence c]"
    proof (cases "cv_id c0 = cv_id conv")
      case True
      with c last(2) snoc show ?thesis by (simp add: nums_keys keys)
    next
      case False
      with c old(2) show ?thesis by (simp add: nums_keys keys)
    qed
  next
    have "map cv_id (w_convs w') = map cv_id (w_convs w)"
      unfolding st(7) by (rule map_update_rows) simp
    from arg_cong [OF this, of set] show "ms_conversationId ` set (w_msgs w') \<subseteq> cv_id ` set (w_convs w')"
      using assms(2,3) msg(1) by (auto simp: st(2) seq_ok_def)
  qed
  with schema len show ?thesis by blast
qed

definition append_message ::
  "uuid \<Rightarrow> int \<times> entropy \<times> send_input \<times> scan_result \<times> stored_body \<Rightarrow> world \<Rightarrow> world option" where
  "append_message c e w = (case e of (t, ry, inp, sr, sb) \<Rightarrow>
     if si_conversationId inp = c \<and> find_replay inp w = None
     then (case send_tx t ry inp sr sb w of Inl _ \<Rightarrow> None | Inr (m, w') \<Rightarrow> Some w') else None)"

interpretation msg_log: sequenced_log "\<lambda>w c. map ms_sequence (msgs_of c w)" append_message
  "\<lambda>w. schema_ok w \<and> seq_ok w"
proof -
  have step: "schema_ok w' \<and> seq_ok w' \<and> (\<forall>j. map ms_sequence (msgs_of j w') =
      (if j = c then map ms_sequence (msgs_of j w) @ [int (length (msgs_of j w)) + 1]
       else map ms_sequence (msgs_of j w)))"
    if "schema_ok w \<and> seq_ok w" "append_message c e w = Some w'" for w c e w'
  proof -
    obtain t ry inp sr sb where e: "e = (t, ry, inp, sr, sb)" by (cases e)
    with that(2) obtain m where c: "si_conversationId inp = c" "find_replay inp w = None"
      and tx: "send_tx t ry inp sr sb w = Inr (m, w')"
      by (auto simp: append_message_def split: if_splits sum.splits)
    from send_tx_Inr [OF tx] c(2) obtain conv where conv: "conv \<in> set (w_convs w)"
      "cv_id conv = si_conversationId inp" "store_message t ry inp sr sb conv w = Inr (m, w')"
      by auto
    note st = store_message_Inr [OF conv(3)]
    have inv: "schema_ok w'" "seq_ok w'" "cv_lastSequence conv = int (length (msgs_of (cv_id conv) w))"
      using store_message_inv [OF _ _ conv] that(1) by blast+
    have "ms_conversationId m = c" "ms_sequence m = int (length (msgs_of c w)) + 1"
      using st(1) inv(3) c(1) conv(2) by (simp_all add: new_message_def)
    then have "map ms_sequence (msgs_of j w') = (if j = c
       then map ms_sequence (msgs_of j w) @ [int (length (msgs_of j w)) + 1]
       else map ms_sequence (msgs_of j w))" for j
      by (simp add: msgs_of_def st(2))
    with inv(1,2) show ?thesis by blast
  qed
  show "sequenced_log (\<lambda>w c. map ms_sequence (msgs_of c w)) append_message (\<lambda>w. schema_ok w \<and> seq_ok w)"
  proof (unfold_locales, goal_cases)
    case (1 s k e s')
    with step show ?case by blast
  next
    case (2 s k e s' j)
    with step [of s k e s'] show ?case by simp
  qed
qed

section \<open>Outcomes of a send\<close>

definition sendable :: "send_input \<Rightarrow> world \<Rightarrow> bool" where
  "sendable inp w \<longleftrightarrow>
     (\<exists>conv \<in> set (w_convs w). cv_id conv = si_conversationId inp \<and> \<not> cv_e2eeEnabled conv
        \<and> cv_status conv = Open)
     \<and> (\<exists>p \<in> set (w_parts w). pt_conversationId p = si_conversationId inp
          \<and> pt_userId p = si_senderId inp \<and> pt_leftAt p = None)"

definition cleaned_text :: "send_input \<Rightarrow> string" where
  "cleaned_text inp = sr_cleaned (scan (js_trim (si_body inp)))"

lemma encrypt_Inl: "encrypt env k a b c s = Inl e \<Longrightarrow> \<exists>x. e = JsError x"
  by (cases k) (auto simp: encrypt_def local_generate_def aws_generate_def Let_def
      split: sum.splits option.splits prod.splits)

lemma prepare_body_Inl: "prepare_body env k cfg t ry c w = (Inl e, w') \<Longrightarrow> \<exists>x. e = JsError x"
  by (auto simp: prepare_body_def dest: encrypt_Inl split: if_splits sum.splits)

text \<open>A send fails before the transaction, in it, or succeeds.\<close>

lemma messages_send_cases [consumes 1, case_names early tx sent]:
  assumes "messages_send env k cfg t0 t ry inp w = (r, w')"
  obtains e where "r = Inl e" "db w' = db w" "e \<noteq> DbError ''23505''"
  | e sb w1 where "r = Inl e" "db w' = db w" "db w1 = db w"
      "body_stored_as env k cfg ry (cleaned_text inp) sb"
      "send_tx t ry inp (scan (js_trim (si_body inp))) sb w1 = Inl e"
  | sb w1 m w2 where "db w1 = db w" "body_stored_as env k cfg ry (cleaned_text inp) sb"
      "send_tx t ry inp (scan (js_trim (si_body inp))) sb w1 = Inr (m, w2)"
      "r = Inr (strip_cipher m (if ms_status m = Deleted then [] else if ms_status m = Hidden
         then hidden_text else cleaned_text inp))" "db w' = db w2" "w_dekCache w' = w_dekCache w2"
      "w_dekCache w1 = w_dekCache w"
      "w_emits w' = w_emits (publishMessageCreated cfg (projr r) w2)"
proof (cases "js_trim (si_body inp) = [] \<or> length (js_trim (si_body inp)) > cf_maxMessageLength cfg")
  case True
  with assms have "r = Inl (Forbidden ''Message vide'') \<or> r = Inl (Forbidden ''Message trop long'')" "w' = w"
    by (auto simp: messages_send_def Let_def split: if_splits)
  then show thesis using that(1) by auto
next
  case False
  define sr where "sr = scan (js_trim (si_body inp))"
  obtain rb w1 where pb: "prepare_body env k cfg t0 ry (sr_cleaned sr) (count_flags cfg t0 sr w) = (rb, w1)"
    by fastforce
  have db1: "db w1 = db w" using db_prepare_body [of env k cfg t0 ry "sr_cleaned sr" "count_flags cfg t0 sr w"] pb
    by simp
  have cache1: "w_dekCache w1 = w_dekCache w"
    using prepare_body_dekCache [of env k cfg t0 ry "sr_cleaned sr" "count_flags cfg t0 sr w"] pb by simp
  have eq: "messages_send env k cfg t0 t ry inp w =
     (case (rb, w1) of (Inl e, w1) \<Rightarrow> (Inl e, w1)
       | (Inr sb, w1) \<Rightarrow> (case transact (send_tx t ry inp sr sb) w1 of
            (Inl e, w2) \<Rightarrow> (Inl e, w2)
          | (Inr message, w2) \<Rightarrow> (case toDecrypted env k t message (Some (sr_cleaned sr)) w2 of
                (Inl e, w3) \<Rightarrow> (Inl e, w3)
              | (Inr d, w3) \<Rightarrow> (Inr d, metrics_timing cfg t ''MessageSendDurationMs'' (t - t0)
                   (metrics_count cfg t ''MessagesSent'' 1 None (publishMessageCreated cfg d w3))))))"
    using False pb by (simp add: messages_send_def Let_def sr_def [symmetric])
  show thesis
  proof (cases rb)
    case (Inl e)
    with eq assms have "r = Inl e" "w' = w1" by simp_all
    moreover have "e \<noteq> DbError ''23505''" using prepare_body_Inl [of env k cfg t0 ry] pb Inl by blast
    ultimately show thesis using that(1) db1 by blast
  next
    case (Inr sb)
    have sb: "body_stored_as env k cfg ry (cleaned_text inp) sb"
      using prepare_body_Inr [of env k cfg t0 ry] pb Inr by (simp add: cleaned_text_def sr_def)
    show thesis
    proof (cases "send_tx t ry inp sr sb w1")
      case tx: (Inl e)
      with eq assms Inr have "r = Inl e" "w' = w1" by simp_all
      then show thesis using that(2) [of e w1 sb] db1 sb tx by (simp add: sr_def)
    next
      case tx: (Inr mw)
      obtain m w2 where mw: "mw = (m, w2)" by (cases mw)
      with eq assms Inr tx have r: "r = Inr (strip_cipher m (if ms_status m = Deleted then []
          else if ms_status m = Hidden then hidden_text else cleaned_text inp))"
        and w': "w' = metrics_timing cfg t ''MessageSendDurationMs'' (t - t0)
            (metrics_count cfg t ''MessagesSent'' 1 None (publishMessageCreated cfg (projr r) w2))"
        by (simp_all add: toDecrypted_known cleaned_text_def sr_def)
      show thesis
        by (rule that(3) [OF db1 sb _ r]) (use tx mw w' cache1 in \<open>simp_all add: sr_def\<close>)
    qed
  qed
qed

text \<open>The invariant of the message tables, kept by every send.\<close>

lemma messages_send_inv [inv_intros]:
  assumes "schema_ok w" "seq_ok w"
  shows "schema_ok (snd (messages_send env k cfg t0 t ry inp w))
    \<and> seq_ok (snd (messages_send env k cfg t0 t ry inp w))"
proof -
  obtain r w' where send: "messages_send env k cfg t0 t ry inp w = (r, w')" by fastforce
  then have "schema_ok w' \<and> seq_ok w'"
  proof (cases rule: messages_send_cases)
    case (early e)
    with assms show ?thesis using schema_ok_db seq_ok_db by blast
  next
    case (tx e sb w1)
    with assms show ?thesis using schema_ok_db seq_ok_db by blast
  next
    case (sent sb w1 m w2)
    have ok1: "schema_ok w1" "seq_ok w1" using assms sent(1) schema_ok_db seq_ok_db by blast+
    from send_tx_Inr [OF sent(3)] obtain conv where conv: "conv \<in> set (w_convs w1)"
      "cv_id conv = si_conversationId inp"
      and or: "w2 = w1 \<or> store_message t ry inp (scan (js_trim (si_body inp))) sb conv w1 = Inr (m, w2)"
      by metis
    from or have "schema_ok w2 \<and> seq_ok w2"
      using store_message_inv [OF ok1 conv] ok1 by blast
    with sent(5) show ?thesis using schema_ok_db seq_ok_db by blast
  qed
  with send show ?thesis by simp
qed

lemma send_tx_sendable: "send_tx t ry inp sr sb w = Inr x \<Longrightarrow> sendable inp w"
  by (cases x) (auto simp: sendable_def elim!: send_tx_Inr)

lemma sendable_db: "db w' = db w \<Longrightarrow> sendable inp w' = sendable inp w"
  by (simp only: sendable_def db_eqD [of w' w])

lemma find_replay_db: "db w' = db w \<Longrightarrow> find_replay inp w' = find_replay inp w"
  by (simp only: find_replay_def db_eqD [of w' w])

lemma find_replay_SomeD:
  "find_replay inp w = Some m \<Longrightarrow> m \<in> set (w_msgs w) \<and> ms_conversationId m = si_conversationId inp
     \<and> ms_senderId m = si_senderId inp \<and> ms_idempotencyKey m = si_idempotencyKey inp"
  by (auto simp: find_replay_def split: if_splits dest: find_SomeD)

lemma find_replay_NoneD:
  "find_replay inp w = None \<Longrightarrow> truthy (si_idempotencyKey inp) \<Longrightarrow> x \<in> set (w_msgs w) \<Longrightarrow>
   \<not> (ms_conversationId x = si_conversationId inp \<and> ms_senderId x = si_senderId inp
      \<and> ms_idempotencyKey x = si_idempotencyKey inp)"
  by (auto simp: find_replay_def dest: find_NoneD)

text \<open>A new message clashes with no stored one: number, identifier and key are new.\<close>

lemma new_message_no_clash:
  assumes "schema_ok w" "seq_ok w" "conv \<in> set (w_convs w)" "cv_id conv = si_conversationId inp"
    and "find_replay inp w = None" "si_idempotencyKey inp \<noteq> Some []"
    and "ry_msgId ry \<notin> ms_id ` set (w_msgs w)" "x \<in> set (w_msgs w)"
  shows "\<not> msg_clash x (new_message t ry inp sr sb (cv_lastSequence conv + 1))"
proof -
  have "ms_sequence x \<noteq> cv_lastSequence conv + 1" if "ms_conversationId x = cv_id conv"
  proof -
    have "ms_sequence x \<in> set (map ms_sequence (msgs_of (cv_id conv) w))"
      using that assms(8) by (auto simp: msgs_of_def)
    also have "\<dots> = set [1..cv_lastSequence conv]"
      using assms(2,3) unfolding seq_ok_def by metis
    finally show ?thesis by simp
  qed
  moreover have "ms_id x \<noteq> ry_msgId ry" using assms(7,8) by (metis imageI)
  moreover have "si_idempotencyKey inp = None \<or> truthy (si_idempotencyKey inp)"
    using assms(6) by (cases "si_idempotencyKey inp") auto
  ultimately show ?thesis
    using assms(4) find_replay_NoneD [OF assms(5) _ assms(8)]
    by (auto simp: msg_clash_def new_message_def)
qed

lemma send_tx_no_clash:
  assumes "schema_ok w" "seq_ok w" "si_idempotencyKey inp \<noteq> Some []"
    and "ry_msgId ry \<notin> ms_id ` set (w_msgs w)" "ry_outboxId ry \<notin> ob_id ` set (w_outbox w)"
  shows "send_tx t ry inp sr sb w \<noteq> Inl (DbError ''23505'')"
proof
  assume err: "send_tx t ry inp sr sb w = Inl (DbError ''23505'')"
  then obtain conv where c: "find (\<lambda>c. cv_id c = si_conversationId inp) (w_convs w) = Some conv"
    by (cases "find (\<lambda>c. cv_id c = si_conversationId inp) (w_convs w)") (simp_all add: send_tx_def)
  note conv = find_SomeD [OF c]
  have new: "find_replay inp w = None" "store_message t ry inp sr sb conv w = Inl (DbError ''23505'')"
    using err c by (simp_all add: send_tx_def assertCanWrite_def e2ee_refusal_def split: if_splits option.splits)
  let ?msg = "new_message t ry inp sr sb (cv_lastSequence conv + 1)"
  have "insert_row msg_clash ?msg (w_msgs w) = Inr (w_msgs w @ [?msg])"
    using new_message_no_clash [OF assms(1,2) _ _ new(1) assms(3,4)] conv by (intro insert_row_Inr) auto
  moreover have "insert_row outbox_clash (new_outbox t (ry_outboxId ry) ty a pl) (w_outbox w)
      = Inr (w_outbox w @ [new_outbox t (ry_outboxId ry) ty a pl])" for ty a pl
    using assms(5) by (intro insert_row_Inr) (simp add: outbox_clash_def new_outbox_def, metis imageI)
  ultimately show False
    using new(2) unfolding store_message_def Let_def by (simp split: if_splits)
qed

section \<open>Listing\<close>

lemma toDecrypted_Inr:
  "toDecrypted env k t m known w = (Inr d, w') \<Longrightarrow> \<exists>b. d = strip_cipher m b"
  by (auto simp: toDecrypted_def split: if_splits option.splits sum.splits prod.splits)

lemma decrypt_all_Inr:
  "decrypt_all env k t ms w = (Inr ds, w') \<Longrightarrow> list_all2 (\<lambda>m d. \<exists>b. d = strip_cipher m b) ms ds"
proof (induction ms arbitrary: w ds w')
  case (Cons m ms)
  obtain r w1 where td: "toDecrypted env k t m None w = (r, w1)" by fastforce
  obtain rs w2 where da: "decrypt_all env k t ms w1 = (rs, w2)" by fastforce
  from Cons.prems td da obtain d ds' where "r = Inr d" "rs = Inr ds'" "ds = d # ds'"
    by (auto split: sum.splits)
  with td da Cons.IH toDecrypted_Inr show ?case by auto
qed simp

lemma select_messages_Inr:
  assumes "select_messages pg p w = Inr rows"
  shows "set rows \<subseteq> {m \<in> set (w_msgs w). ms_conversationId m = lp_conversationId p \<and> ms_deletedAt m = None}"
    and "\<not> truthy (lp_afterSequence p) \<Longrightarrow> sorted_wrt (\<lambda>x y. ms_sequence y \<le> ms_sequence x) rows"
    and "truthy (lp_afterSequence p) \<Longrightarrow> \<exists>n. pg (the (lp_afterSequence p)) = Inr n
       \<and> (\<forall>m \<in> set rows. n < ms_sequence m) \<and> sorted_wrt (\<lambda>x y. ms_sequence x \<le> ms_sequence y) rows"
proof -
  have srt: "sorted_wrt (\<lambda>x y. ms_sequence x \<le> ms_sequence y) (sort_key ms_sequence xs)" for xs
    using sorted_sort_key [of ms_sequence xs] by (simp add: sorted_wrt_map)
  then have rsrt: "sorted_wrt (\<lambda>x y. ms_sequence y \<le> ms_sequence x) (rev (sort_key ms_sequence xs))" for xs
    by (simp add: sorted_wrt_rev)
  show "set rows \<subseteq> {m \<in> set (w_msgs w). ms_conversationId m = lp_conversationId p \<and> ms_deletedAt m = None}"
    using assms by (auto simp: select_messages_def Let_def split: if_splits sum.splits)
  show "\<not> truthy (lp_afterSequence p) \<Longrightarrow> sorted_wrt (\<lambda>x y. ms_sequence y \<le> ms_sequence x) rows"
    using assms rsrt by (auto simp: select_messages_def Let_def split: if_splits sum.splits)
  assume "truthy (lp_afterSequence p)"
  with assms srt show "\<exists>n. pg (the (lp_afterSequence p)) = Inr n
       \<and> (\<forall>m \<in> set rows. n < ms_sequence m) \<and> sorted_wrt (\<lambda>x y. ms_sequence x \<le> ms_sequence y) rows"
    by (cases "lp_afterSequence p") (auto simp: select_messages_def Let_def split: sum.splits)
qed

lemma apply_limit_Inr:
  assumes "apply_limit qb l rows = Inr page" "case l of None \<Rightarrow> True | Some None \<Rightarrow> False | Some (Some n) \<Rightarrow> 0 < n"
  shows "length page \<le> 100 \<and> (\<exists>n. page = take n rows)"
  using assms by (cases l) (auto simp: apply_limit_def split: if_splits option.splits)

lemma select_latest:
  assumes "seq_ok w" "c \<in> set (w_convs w)" "w_msgs w = ms @ [m]" "ms_conversationId m = cv_id c"
    "ms_deletedAt m = None"
  shows "\<exists>rest. select_messages pg \<lparr>lp_conversationId = cv_id c, lp_afterSequence = None,
     lp_beforeSequence = None, lp_limit = l\<rparr> w = Inr (m # rest)"
proof -
  let ?rows = "filter (\<lambda>m. ms_conversationId m = cv_id c \<and> ms_deletedAt m = None) (w_msgs w)"
  have rows: "?rows = filter (\<lambda>m. ms_deletedAt m = None) (msgs_of (cv_id c) w)"
    by (simp add: msgs_of_def conj_commute)
  have "sorted (map ms_sequence (msgs_of (cv_id c) w))"
    using assms(1,2) unfolding seq_ok_def by (metis sorted_upto)
  then have "sort_key ms_sequence ?rows = ?rows"
    unfolding rows by (intro sort_key_id_if_sorted sorted_filter)
  moreover have "?rows = filter (\<lambda>m. ms_conversationId m = cv_id c \<and> ms_deletedAt m = None) ms @ [m]"
    using assms(3-5) by simp
  ultimately show ?thesis by (simp add: select_messages_def)
qed

text \<open>What a successful send of a new message leaves.\<close>

lemma messages_send_new:
  assumes "messages_send env k cfg t0 t ry inp w = (Inr d, w')" "find_replay inp w = None"
  obtains sb conv w1 w2 m where "db w1 = db w" "db w' = db w2" "w_dekCache w' = w_dekCache w"
    "conv \<in> set (w_convs w1)" "cv_id conv = si_conversationId inp"
    "store_message t ry inp (scan (js_trim (si_body inp))) sb conv w1 = Inr (m, w2)"
    "body_stored_as env k cfg ry (cleaned_text inp) sb" "d = strip_cipher m (cleaned_text inp)"
    "m = new_message t ry inp (scan (js_trim (si_body inp))) sb (cv_lastSequence conv + 1)"
  using assms(1)
proof (cases rule: messages_send_cases)
  case (sent sb w1 m w2)
  from send_tx_Inr [OF sent(3)] find_replay_db [OF sent(1)] assms(2) obtain conv where
    conv: "conv \<in> set (w_convs w1)" "cv_id conv = si_conversationId inp"
      "store_message t ry inp (scan (js_trim (si_body inp))) sb conv w1 = Inr (m, w2)"
    by (metis option.distinct(1))
  note m = store_message_Inr(1) [OF conv(3)]
  then have "ms_status m \<noteq> Deleted" "ms_status m \<noteq> Hidden" by (simp_all add: new_message_def)
  with sent(4) have "d = strip_cipher m (cleaned_text inp)" by simp
  moreover have "w_dekCache w' = w_dekCache w"
    using sent(6,7) store_message_Inr(16) [OF conv(3)] by simp
  ultimately show thesis using that [OF sent(1,5) _ conv(1,2) conv(3) sent(2) _ m] by blast
qed auto

section \<open>A concrete conversation\<close>

definition sample_entropy :: entropy where
  "sample_entropy = \<lparr>ry_dek = replicate 32 7, ry_kiv = replicate 12 3, ry_iv = replicate 12 5,
     ry_msgId = m_one, ry_outboxId = b_one\<rparr>"

definition sample_input :: "uuid \<Rightarrow> string \<Rightarrow> string option \<Rightarrow> send_input" where
  "sample_input u body key = \<lparr>si_conversationId = c_one, si_senderId = u, si_body = body,
     si_idempotencyKey = key\<rparr>"

definition sample_send :: "send_input \<Rightarrow> world \<Rightarrow> (world, msg_row) res" where
  "sample_send inp w = messages_send toy_env (Local_kms toy_kms) default_config 10 20 sample_entropy inp w"

definition sample_plain :: "string \<Rightarrow> stored_body" where
  "sample_plain b = \<lparr>sb_plain = Some b, sb_ciphertext = None, sb_iv = None, sb_tag = None,
     sb_dekId = None, sb_alg = None\<rparr>"

definition sample_msg :: "string option \<Rightarrow> msg_row" where
  "sample_msg key = new_message 5 sample_entropy (sample_input u_alice ''a'' key)
     \<lparr>sr_cleaned = ''a'', sr_flags = [], sr_score10 = 0, sr_hadSensitive = False\<rparr> (sample_plain ''a'') 1"

lemma sample_seq_ok: "seq_ok sample_world"
  by (simp add: seq_ok_def msgs_of_def sample_defs)

definition sample_hello :: send_input where
  "sample_hello = sample_input u_alice '' Bonjour '' (Some ''k'')"

lemma sample_sent_eval:
  "(case sample_send sample_hello sample_world of (Inl _, _) \<Rightarrow> False
    | (Inr d, w') \<Rightarrow> ms_id d = m_one
        \<and> list_ex (\<lambda>c. cv_id c = c_one \<and> cv_lastSequence c = 1) (w_convs w')
        \<and> find_replay sample_hello w' \<noteq> None)"
  by code_simp

lemma sample_sent:
  obtains d w' c where "sample_send sample_hello sample_world = (Inr d, w')" "ms_id d = m_one"
    "c \<in> set (w_convs w')" "cv_id c = c_one" "cv_lastSequence c = 1"
    "find_replay sample_hello w' \<noteq> None"
  using sample_sent_eval by (auto simp: list_ex_iff split: prod.splits sum.splits)

section \<open>Properties\<close>

text \<open>
  C1: whatever sequence of sends is run, in every conversation the stored messages are
  numbered 1, 2, .. up to the conversation's \<open>last_sequence\<close>, without gap or duplicate, and
  every unique constraint of the schema still holds.
\<close>

theorem sends_keep_numbering:
  assumes "schema_ok w" "seq_ok w"
    and "w' = fold (\<lambda>(t0, t, ry, inp) w. snd (messages_send env k cfg t0 t ry inp w)) calls w"
    and "c \<in> set (w_convs w')"
  shows "map ms_sequence (msgs_of (cv_id c) w') = [1..cv_lastSequence c]
    \<and> distinct (map ms_sequence (msgs_of (cv_id c) w')) \<and> schema_ok w'"
proof -
  have "schema_ok (fold (\<lambda>(t0, t, ry, inp) w. snd (messages_send env k cfg t0 t ry inp w)) calls w)
    \<and> seq_ok (fold (\<lambda>(t0, t, ry, inp) w. snd (messages_send env k cfg t0 t ry inp w)) calls w)"
    using assms(1,2)
  proof (induction calls arbitrary: w)
    case (Cons a calls)
    obtain t0 t ry inp where a: "a = (t0, t, ry, inp)" by (cases a)
    show ?case
      using Cons.IH messages_send_inv [OF Cons.prems, of env k cfg t0 t ry inp] by (simp add: a)
  qed simp
  with assms(3,4) have "map ms_sequence (msgs_of (cv_id c) w') = [1..cv_lastSequence c]" "schema_ok w'"
    by (auto simp: seq_ok_def)
  then show ?thesis by simp
qed

theorem sends_keep_numbering_witness:
  "\<exists>c w'. w' = snd (sample_send sample_hello sample_world) \<and> c \<in> set (w_convs w')
     \<and> cv_lastSequence c = 1 \<and> map ms_sequence (msgs_of (cv_id c) w') = [1..1]"
proof -
  obtain d w' c where "sample_send sample_hello sample_world = (Inr d, w')"
    "c \<in> set (w_convs w')" "cv_lastSequence c = 1" by (rule sample_sent)
  then show ?thesis
    using sends_keep_numbering [OF schema_ok_sample sample_seq_ok, of w' toy_env "Local_kms toy_kms"
        default_config "[(10, 20, sample_entropy, sample_hello)]" c]
    by (auto simp: sample_send_def)
qed

text \<open>
  an append that goes through gives the next number to its conversation and leaves the
  numbering of every other conversation alone; so any interleaving of appends to any
  conversations leaves every numbering free of gaps and duplicates.
\<close>

theorem interleaved_appends_gap_free:
  assumes "schema_ok w" "seq_ok w" "\<forall>c. map ms_sequence (msgs_of c w) = [1..int (length (msgs_of c w))]"
    and "w' = fold (\<lambda>(c, e) w. case append_message c e w of None \<Rightarrow> w | Some w' \<Rightarrow> w') es w"
  shows "\<forall>c. map ms_sequence (msgs_of c w') = [1..int (length (msgs_of c w'))]
    \<and> distinct (map ms_sequence (msgs_of c w'))"
proof -
  have run: "fold (\<lambda>(c, e) w. case append_message c e w of None \<Rightarrow> w | Some w' \<Rightarrow> w') es w
      = msg_log.append_all es w"
  proof (induction es arbitrary: w)
    case (Cons a es)
    then show ?case by (cases a) (auto split: option.splits)
  qed simp
  have "msg_log.gap_free w" using assms(3) by (simp add: msg_log.gap_free_def)
  then have "msg_log.gap_free w'"
    using msg_log.append_all_gap_free assms(1,2) by (simp add: assms(4) run)
  then show ?thesis using msg_log.gap_free_distinct by (simp add: msg_log.gap_free_def)
qed

theorem interleaved_appends_gap_free_witness:
  "distinct (map ms_sequence (msgs_of c_one (fold (\<lambda>(c, e) w. case append_message c e w of None \<Rightarrow> w
      | Some w' \<Rightarrow> w') [(c_one, (20, sample_entropy, sample_hello, scan ''Bonjour'',
        sample_plain ''Bonjour''))] sample_world)))"
  by (rule interleaved_appends_gap_free [OF schema_ok_sample sample_seq_ok _ refl, THEN spec, THEN conjunct2])
    (simp add: msgs_of_def sample_defs)

text \<open>
  C14: a send succeeds only into an open conversation that is not end-to-end encrypted and for
  an active participant of it; otherwise it fails and no table changes.
\<close>

theorem send_refused_unless_sendable:
  assumes "\<not> sendable inp w"
  shows "\<exists>e. fst (messages_send env k cfg t0 t ry inp w) = Inl e
    \<and> db (snd (messages_send env k cfg t0 t ry inp w)) = db w"
proof -
  obtain r w' where send: "messages_send env k cfg t0 t ry inp w = (r, w')" by fastforce
  then show ?thesis
  proof (cases rule: messages_send_cases)
    case (sent sb w1 m w2)
    with send_tx_sendable [OF sent(3)] sendable_db [OF sent(1)] assms show ?thesis by simp
  qed (use send in auto)
qed

theorem send_refused_unless_sendable_witness:
  "\<exists>e. fst (sample_send (sample_input u_eve ''a'' None) sample_world) = Inl e"
proof -
  have "\<not> sendable (sample_input u_eve ''a'' None) sample_world"
    by (simp add: sendable_def sample_input_def sample_defs sample_ids)
  then show ?thesis using send_refused_unless_sendable by (auto simp: sample_send_def)
qed

text \<open>
  sending never violates a unique constraint when the drawn identifiers are new and the
  idempotency key is not the empty text: no two sends compete for a number.
\<close>

theorem send_never_clashes:
  assumes "schema_ok w" "seq_ok w" "si_idempotencyKey inp \<noteq> Some []"
    and "ry_msgId ry \<notin> ms_id ` set (w_msgs w)" "ry_outboxId ry \<notin> ob_id ` set (w_outbox w)"
  shows "fst (messages_send env k cfg t0 t ry inp w) \<noteq> Inl (DbError ''23505'')"
proof -
  obtain r w' where send: "messages_send env k cfg t0 t ry inp w = (r, w')" by fastforce
  then have "r \<noteq> Inl (DbError ''23505'')"
  proof (cases rule: messages_send_cases)
    case (tx e sb w1)
    have "schema_ok w1" "seq_ok w1" using assms(1,2) tx(3) schema_ok_db seq_ok_db by blast+
    then have "e \<noteq> DbError ''23505''"
      using send_tx_no_clash [of w1 inp ry] assms(3-5) tx(5) db_eqD(5,7) [OF tx(3)] by metis
    with tx(1) show ?thesis by simp
  qed auto
  with send show ?thesis by simp
qed

theorem send_never_clashes_witness:
  "fst (sample_send sample_hello sample_world) \<noteq> Inl (DbError ''23505'')"
  unfolding sample_send_def
  by (rule send_never_clashes [OF schema_ok_sample sample_seq_ok])
    (simp_all add: sample_hello_def sample_input_def sample_defs)

text \<open>
  the empty idempotency key is not looked up but stored, so the second send of a
  participant with that key fails on the unique index instead of being a replay.
\<close>

theorem empty_key_clashes:
  assumes "sendable inp w" "schema_ok w" "si_idempotencyKey inp = Some []"
    and "m \<in> set (w_msgs w)" "ms_conversationId m = si_conversationId inp"
    and "ms_senderId m = si_senderId inp" "ms_idempotencyKey m = Some []"
    and "\<not> length (coalesce (sb_dekId sb) []) > 128"
  shows "transact (send_tx t ry inp sr sb) w = (Inl (DbError ''23505''), w)"
proof -
  from assms(1) obtain conv p where conv: "conv \<in> set (w_convs w)" "cv_id conv = si_conversationId inp"
    "\<not> cv_e2eeEnabled conv" "cv_status conv = Open"
    and p: "p \<in> set (w_parts w)" "pt_conversationId p = si_conversationId inp"
      "pt_userId p = si_senderId inp" "pt_leftAt p = None"
    by (auto simp: sendable_def)
  have "find (\<lambda>c. cv_id c = si_conversationId inp) (w_convs w) = Some conv"
  proof (cases "find (\<lambda>c. cv_id c = si_conversationId inp) (w_convs w)")
    case None
    with conv find_NoneD show ?thesis by fastforce
  next
    case (Some c)
    with conv conv_unique [OF assms(2)] find_SomeD [OF Some] show ?thesis by metis
  qed
  moreover have "find (\<lambda>p. pt_conversationId p = cv_id conv \<and> pt_userId p = si_senderId inp) (w_parts w)
      = Some p"
  proof (cases "find (\<lambda>p. pt_conversationId p = cv_id conv \<and> pt_userId p = si_senderId inp) (w_parts w)")
    case None
    with p conv(2) find_NoneD [OF None p(1)] show ?thesis by simp
  next
    case (Some q)
    note q = find_SomeD [OF Some]
    have "clash_free part_clash (w_parts w)" using assms(2) by (simp add: schema_ok_def)
    from clash_freeD [OF this p(1), of q] q p conv(2) Some show ?thesis
      by (cases "q = p") (auto simp: part_clash_def)
  qed
  moreover have "find_replay inp w = None" using assms(3) by (simp add: find_replay_def)
  moreover have "store_message t ry inp sr sb conv w = Inl (DbError ''23505'')"
    using assms(3-8) unfolding store_message_def Let_def
    by (auto simp: insert_row_def list_ex_iff msg_clash_def new_message_def column_too_long_def)
  ultimately show ?thesis using conv p by (simp add: send_tx_def assertCanWrite_def)
qed

theorem empty_key_clashes_witness:
  "transact (send_tx 20 (sample_entropy\<lparr>ry_msgId := m_two\<rparr>)
        (sample_input u_alice ''b'' (Some [])) (scan ''b'') (sample_plain ''b''))
      (sample_world\<lparr>w_msgs := [sample_msg (Some [])]\<rparr>)
    = (Inl (DbError ''23505''), sample_world\<lparr>w_msgs := [sample_msg (Some [])]\<rparr>)"
proof (rule empty_key_clashes [where m = "sample_msg (Some [])"])
  show "sendable (sample_input u_alice ''b'' (Some [])) (sample_world\<lparr>w_msgs := [sample_msg (Some [])]\<rparr>)"
    by (simp add: sendable_def sample_input_def sample_defs sample_ids)
  show "schema_ok (sample_world\<lparr>w_msgs := [sample_msg (Some [])]\<rparr>)"
    using schema_ok_sample by (simp add: schema_ok_def clash_free_def)
qed (simp_all add: sample_input_def sample_msg_def new_message_def sample_plain_def)

text \<open>
  C22: a repeated send with a key that was used before stores nothing: the database is
  unchanged and the answer carries the identifier and number of the first message.
\<close>

theorem replay_has_no_effect:
  assumes "find_replay inp w = Some m" "messages_send env k cfg t0 t ry inp w = (Inr d, w')"
  shows "db w' = db w \<and> ms_id d = ms_id m \<and> ms_sequence d = ms_sequence m"
  using assms(2)
proof (cases rule: messages_send_cases)
  case (sent sb w1 m' w2)
  from send_tx_Inr [OF sent(3)] find_replay_db [OF sent(1), of inp] assms(1)
  have "m' = m" "w2 = w1" by auto
  with sent show ?thesis by (auto simp: strip_cipher_def)
qed auto

lemma sample_replay_eval:
  "\<not> isl (fst (messages_send toy_env (Local_kms toy_kms) (default_config\<lparr>cf_encryptBody := False\<rparr>) 10 20
     sample_entropy (sample_input u_alice ''b'' (Some ''k'')) (sample_world\<lparr>w_msgs := [sample_msg (Some ''k'')]\<rparr>)))"
  by code_simp

lemma sample_replay_found:
  "find_replay (sample_input u_alice ''b'' (Some ''k'')) (sample_world\<lparr>w_msgs := [sample_msg (Some ''k'')]\<rparr>)
    = Some (sample_msg (Some ''k''))"
  by (simp add: find_replay_def sample_input_def sample_msg_def new_message_def)

theorem replay_has_no_effect_witness:
  "\<exists>d w'. messages_send toy_env (Local_kms toy_kms) (default_config\<lparr>cf_encryptBody := False\<rparr>) 10 20
     sample_entropy (sample_input u_alice ''b'' (Some ''k'')) (sample_world\<lparr>w_msgs := [sample_msg (Some ''k'')]\<rparr>)
     = (Inr d, w') \<and> ms_id d = m_one \<and> length (w_msgs w') = 1"
proof -
  obtain d w' where send: "messages_send toy_env (Local_kms toy_kms) (default_config\<lparr>cf_encryptBody := False\<rparr>) 10 20
     sample_entropy (sample_input u_alice ''b'' (Some ''k'')) (sample_world\<lparr>w_msgs := [sample_msg (Some ''k'')]\<rparr>)
     = (Inr d, w')" using run_Inr [OF sample_replay_eval] by blast
  from replay_has_no_effect [OF sample_replay_found send]
  have "db w' = db (sample_world\<lparr>w_msgs := [sample_msg (Some ''k'')]\<rparr>)" "ms_id d = m_one"
    by (simp_all add: sample_msg_def new_message_def sample_entropy_def)
  with send db_eqD(5) [OF this(1)] show ?thesis by simp
qed

text \<open>
  the answer to such a repetition, and the event broadcast to the room, carry the text of
  the repetition under the identifier of the stored message, whose own text may differ.
\<close>

theorem replay_shows_new_text:
  assumes "find_replay inp w = Some m" "ms_status m = Sent \<or> ms_status m = Flagged"
    and "\<not> cf_wsGatewayDedicated cfg" "messages_send env k cfg t0 t ry inp w = (Inr d, w')"
  shows "ms_body d = Some (cleaned_text inp)
    \<and> last (w_emits w') = EmitCreated (roomForConversation (ms_conversationId m)) (ms_id m)
        (ms_conversationId m) (ms_senderId m) (ms_sequence m) (cleaned_text inp) (ms_createdAt m)"
  using assms(4)
proof (cases rule: messages_send_cases)
  case (sent sb w1 m' w2)
  from send_tx_Inr [OF sent(3)] find_replay_db [OF sent(1), of inp] assms(1)
  have "m' = m" by auto
  with sent assms(2,3) show ?thesis
    by (auto simp: strip_cipher_def publishMessageCreated_def emit_def)
qed auto

theorem replay_shows_new_text_witness:
  "\<exists>d w'. messages_send toy_env (Local_kms toy_kms) (default_config\<lparr>cf_encryptBody := False\<rparr>) 10 20
     sample_entropy (sample_input u_alice ''b'' (Some ''k'')) (sample_world\<lparr>w_msgs := [sample_msg (Some ''k'')]\<rparr>)
     = (Inr d, w') \<and> ms_body d = Some (cleaned_text (sample_input u_alice ''b'' (Some ''k'')))
     \<and> ms_body (sample_msg (Some ''k'')) = Some ''a''"
proof -
  obtain d w' where send: "messages_send toy_env (Local_kms toy_kms) (default_config\<lparr>cf_encryptBody := False\<rparr>) 10 20
     sample_entropy (sample_input u_alice ''b'' (Some ''k'')) (sample_world\<lparr>w_msgs := [sample_msg (Some ''k'')]\<rparr>)
     = (Inr d, w')" using run_Inr [OF sample_replay_eval] by blast
  from replay_shows_new_text [OF sample_replay_found _ _ send] send show ?thesis
    by (simp add: sample_msg_def new_message_def sample_plain_def default_config_def)
qed

text \<open>
  C7: end to end: after a successful send of a new message, asking for the latest message of
  the conversation returns what the sender received, namely the redacted text, also when the
  body was stored encrypted and whatever the cache of data keys holds.
\<close>

theorem sent_message_is_listed:
  assumes "schema_ok w" "seq_ok w" "good_kms (env, k) (ry_dek ry, ry_kiv ry)"
    and "cache_ok env k (w_dekCache w)" "find_replay inp w = None"
    and "messages_send env k cfg t0 t ry inp w = (Inr d, w')"
  shows "\<exists>w''. messages_list env k pg_int8 qb_limit t2 \<lparr>lp_conversationId = si_conversationId inp,
       lp_afterSequence = None, lp_beforeSequence = None, lp_limit = Some (Some 1)\<rparr> w' = (Inr [d], w'')
    \<and> ms_body d = Some (cleaned_text inp)"
proof -
  from assms(6,5) obtain sb conv w1 w2 m where s: "db w1 = db w" "db w' = db w2"
    "w_dekCache w' = w_dekCache w" "conv \<in> set (w_convs w1)" "cv_id conv = si_conversationId inp"
    "store_message t ry inp (scan (js_trim (si_body inp))) sb conv w1 = Inr (m, w2)"
    "body_stored_as env k cfg ry (cleaned_text inp) sb" "d = strip_cipher m (cleaned_text inp)"
    and m: "m = new_message t ry inp (scan (js_trim (si_body inp))) sb (cv_lastSequence conv + 1)"
    by (rule messages_send_new)
  have ok1: "schema_ok w1" "seq_ok w1" using assms(1,2) s(1) schema_ok_db seq_ok_db by blast+
  have "seq_ok w2" using store_message_inv [OF ok1 s(4,5,6)] by blast
  then have ok': "seq_ok w'" using seq_ok_db [OF s(2)] by simp
  have msgs: "w_msgs w' = w_msgs w1 @ [m]"
    using store_message_Inr(2) [OF s(6)] db_eqD(5) [OF s(2)] by simp
  have mc: "ms_conversationId m = si_conversationId inp" "ms_deletedAt m = None"
    by (simp_all add: m new_message_def)
  obtain c' where c': "c' \<in> set (w_convs w')" "cv_id c' = ms_conversationId m"
    using ok' msgs unfolding seq_ok_def by fastforce
  from select_latest [OF ok' c'(1) msgs] c'(2) mc obtain rest where
    sel: "select_messages pg_int8 \<lparr>lp_conversationId = si_conversationId inp, lp_afterSequence = None,
       lp_beforeSequence = None, lp_limit = Some (Some 1)\<rparr> w' = Inr (m # rest)" by metis
  have dec: "fst (toDecrypted env k t2 m None w') = Inr d"
  proof (cases "cf_encryptBody cfg")
    case True
    with s(7) obtain enc where enc: "encrypt env k (ry_dek ry) (ry_kiv ry) (ry_iv ry) (cleaned_text inp) = Inr enc"
      and sb: "sb = \<lparr>sb_plain = None, sb_ciphertext = Some (en_ciphertext enc),
           sb_iv = Some (en_iv enc), sb_tag = Some (en_tag enc),
           sb_dekId = Some (en_dekId enc), sb_alg = Some (en_alg enc)\<rparr>"
      by (auto simp: body_stored_as_def)
    have "en_dekId enc \<noteq> []" using enc by (auto elim!: encrypt_InrD)
    moreover have "cache_ok env k (w_dekCache w')" using assms(4) s(3) by simp
    note envelope_decrypts [OF assms(3) enc this, of t2]
    ultimately show ?thesis
      by (auto simp: toDecrypted_def m new_message_def sb s(8) split: prod.splits sum.splits)
  next
    case False
    with s(7) show ?thesis by (simp add: toDecrypted_def m new_message_def body_stored_as_def s(8))
  qed
  then have "\<exists>w''. decrypt_all env k t2 [m] w' = (Inr [d], w'')"
    by (cases "toDecrypted env k t2 m None w'") simp
  with sel s(8) show ?thesis by (simp add: messages_list_def apply_limit_def strip_cipher_def)
qed

theorem sent_message_is_listed_witness:
  "\<exists>d w' w''. sample_send sample_hello sample_world = (Inr d, w')
     \<and> messages_list toy_env (Local_kms toy_kms) (\<lambda>_. Inr 0) (\<lambda>_ rows. Inr rows) 30
         \<lparr>lp_conversationId = c_one, lp_afterSequence = None, lp_beforeSequence = None,
          lp_limit = Some (Some 1)\<rparr> w' = (Inr [d], w'')"
proof -
  obtain d w' c where send: "sample_send sample_hello sample_world = (Inr d, w')" by (rule sample_sent)
  have "good_kms (toy_env, Local_kms toy_kms) (ry_dek sample_entropy, ry_kiv sample_entropy)"
    by (simp add: good_kms_def toy_ok sample_entropy_def)
  moreover have "find_replay sample_hello sample_world = None"
    by (simp add: find_replay_def sample_defs)
  moreover have "cache_ok toy_env (Local_kms toy_kms) (w_dekCache sample_world)"
    by (simp add: sample_defs)
  ultimately show ?thesis
    using sent_message_is_listed [OF schema_ok_sample sample_seq_ok _ _ _ send [unfolded sample_send_def],
        of "\<lambda>_. Inr 0" "\<lambda>_ rows. Inr rows" 30] send
    by (auto simp: sample_hello_def sample_input_def)
qed

lemma softDelete_cases:
  assumes "softDelete cfg t mid actor w = (Inr (), w')"
  obtains m where "m \<in> set (w_msgs w)" "ms_id m = mid" "ms_senderId m = actor"
    "w_msgs w' = update_rows (\<lambda>x. ms_id x = mid) (\<lambda>x. erase_body t m) (w_msgs w)"
    "w_convs w' = w_convs w" "w_outbox w' = w_outbox w" "w_index w' = w_index w"
proof -
  from assms obtain m where f: "find (\<lambda>m. ms_id m = mid) (w_msgs w) = Some m"
    by (cases "find (\<lambda>m. ms_id m = mid) (w_msgs w)") (simp_all add: softDelete_def)
  define w1 where "w1 = audit_log (mk_audit actor ''message.deleted'' ''message'' mid None)
    (w\<lparr>w_msgs := update_rows (\<lambda>x. ms_id x = mid) (\<lambda>x. erase_body t m) (w_msgs w)\<rparr>)"
  from assms f have "ms_senderId m = actor" and w': "w' = publishMessageDeleted cfg (erase_body t m) w1"
    by (simp_all add: softDelete_def w1_def split: if_splits)
  have "db w' = db w1" by (simp add: w')
  from db_eqD [OF this] find_SomeD [OF f] \<open>ms_senderId m = actor\<close> show thesis
    by (intro that [of m]) (simp_all add: w1_def)
qed

lemma msg_unique:
  "schema_ok w \<Longrightarrow> x \<in> set (w_msgs w) \<Longrightarrow> m \<in> set (w_msgs w) \<Longrightarrow> ms_id x = ms_id m \<Longrightarrow> x = m"
  using clash_freeD [of msg_clash "w_msgs w" x m] by (auto simp: schema_ok_def msg_clash_def)

text \<open>Keys are kept by the deletion, so the invariant is.\<close>

lemma softDelete_inv [inv_intros]:
  assumes "schema_ok w" "seq_ok w"
  shows "schema_ok (snd (softDelete cfg t mid actor w)) \<and> seq_ok (snd (softDelete cfg t mid actor w))"
proof (cases "find (\<lambda>m. ms_id m = mid) (w_msgs w)")
  case (Some m)
  note m = find_SomeD [OF Some]
  define w1 where "w1 = audit_log (mk_audit actor ''message.deleted'' ''message'' mid None)
    (w\<lparr>w_msgs := update_rows (\<lambda>x. ms_id x = mid) (\<lambda>x. erase_body t m) (w_msgs w)\<rparr>)"
  have rows: "update_rows (\<lambda>x. ms_id x = mid) (\<lambda>x. erase_body t m) (w_msgs w)
      = update_rows (\<lambda>x. ms_id x = mid) (erase_body t) (w_msgs w)"
    using msg_unique [OF assms(1), of _ m] m by (intro update_rows_cong_fun) auto
  have "clash_free msg_clash (w_msgs w)" using assms(1) by (simp add: schema_ok_def)
  then have "clash_free msg_clash (update_rows (\<lambda>x. ms_id x = mid) (erase_body t) (w_msgs w))"
    by (rule clash_free_update) (simp add: msg_clash_def erase_body_def split: if_splits)
  then have schema: "schema_ok w1" using assms(1) by (simp add: schema_ok_def w1_def rows)
  have "msg_keys w1 = msg_keys w" unfolding msg_keys_def w1_def audit_log_fields rows
    by (simp, rule map_update_rows) (simp add: erase_body_def)
  moreover have "conv_keys w1 = conv_keys w" by (simp add: conv_keys_def w1_def)
  ultimately have "seq_ok w1" using assms(2) seq_ok_cong by blast
  moreover have "snd (softDelete cfg t mid actor w) = w
      \<or> snd (softDelete cfg t mid actor w) = publishMessageDeleted cfg (erase_body t m) w1"
    using Some by (simp add: softDelete_def w1_def)
  ultimately show ?thesis
    using schema assms schema_ok_db [of "publishMessageDeleted cfg (erase_body t m) w1" w1]
      seq_ok_db [of "publishMessageDeleted cfg (erase_body t m) w1" w1] by auto
qed (use assms in \<open>simp add: softDelete_def\<close>)

text \<open>
  C28: only the sender deletes a message, and deletion erases text, ciphertext, nonce, tag and
  data key of that message and of no other, after which no listing returns it.
\<close>

theorem only_sender_erases:
  assumes "softDelete cfg t mid actor w = (Inr (), w')" "schema_ok w"
    and "select_messages pg p w' = Inr rows"
  shows "(\<exists>m \<in> set (w_msgs w). ms_id m = mid \<and> ms_senderId m = actor)
    \<and> w_msgs w' = update_rows (\<lambda>x. ms_id x = mid) (erase_body t) (w_msgs w)
    \<and> mid \<notin> ms_id ` set rows"
proof -
  from assms(1) obtain m where m: "m \<in> set (w_msgs w)" "ms_id m = mid" "ms_senderId m = actor"
    and msgs: "w_msgs w' = update_rows (\<lambda>x. ms_id x = mid) (\<lambda>x. erase_body t m) (w_msgs w)"
    by (rule softDelete_cases)
  have eq: "w_msgs w' = update_rows (\<lambda>x. ms_id x = mid) (erase_body t) (w_msgs w)"
    unfolding msgs using msg_unique [OF assms(2) _ m(1)] m(2) by (intro update_rows_cong_fun) auto
  have "ms_deletedAt x \<noteq> None" if "x \<in> set (w_msgs w')" "ms_id x = mid" for x
  proof -
    from that(1) obtain x0 where "x = (if ms_id x0 = mid then erase_body t x0 else x0)"
      unfolding eq by (rule in_update_rowsE)
    with that(2) show ?thesis by (simp add: erase_body_def split: if_splits)
  qed
  then have "mid \<notin> ms_id ` set rows" using select_messages_Inr(1) [OF assms(3)] by blast
  with m eq show ?thesis by blast
qed

theorem only_sender_erases_witness:
  "\<exists>w'. softDelete default_config 9 m_one u_alice (sample_world\<lparr>w_msgs := [sample_msg None]\<rparr>) = (Inr (), w')
     \<and> map ms_body (w_msgs w') = [None]"
proof -
  have ok: "schema_ok (sample_world\<lparr>w_msgs := [sample_msg None]\<rparr>)"
    using schema_ok_sample by (simp add: schema_ok_def clash_free_def)
  have "\<exists>w'. softDelete default_config 9 m_one u_alice (sample_world\<lparr>w_msgs := [sample_msg None]\<rparr>) = (Inr (), w')"
    by (simp add: softDelete_def sample_msg_def new_message_def sample_entropy_def sample_input_def)
  then obtain w' where del: "softDelete default_config 9 m_one u_alice
      (sample_world\<lparr>w_msgs := [sample_msg None]\<rparr>) = (Inr (), w')" by blast
  have "\<exists>rows. select_messages (\<lambda>_. Inr 0) \<lparr>lp_conversationId = c_one, lp_afterSequence = None,
      lp_beforeSequence = None, lp_limit = None\<rparr> w' = Inr rows"
    by (simp add: select_messages_def)
  with only_sender_erases [OF del ok] del show ?thesis
    by (auto simp: sample_msg_def new_message_def sample_entropy_def erase_body_def)
qed

text \<open>
  the outbox row of a message keeps its text in clear, whether or not bodies are
  encrypted, and deleting the message erases the message row only.
\<close>

theorem outbox_keeps_plaintext:
  assumes "messages_send env k cfg t0 t ry inp w = (Inr d, w1)" "find_replay inp w = None"
    and "schema_ok w" "seq_ok w" "softDelete cfg t2 (ms_id d) (si_senderId inp) w1 = (Inr (), w2)"
  shows "(\<exists>ev cp. ev \<in> set (w_outbox w2) \<and> ob_payload ev = Created cp \<and> cp_messageId cp = ms_id d
      \<and> cp_body cp = cleaned_text inp)
    \<and> map ms_body (filter (\<lambda>m. ms_id m = ms_id d) (w_msgs w2)) = [None]"
proof -
  from assms(1,2) obtain sb conv wa wb m where s: "db wa = db w" "db w1 = db wb"
    "w_dekCache w1 = w_dekCache w" "conv \<in> set (w_convs wa)" "cv_id conv = si_conversationId inp"
    "store_message t ry inp (scan (js_trim (si_body inp))) sb conv wa = Inr (m, wb)"
    "body_stored_as env k cfg ry (cleaned_text inp) sb" "d = strip_cipher m (cleaned_text inp)"
    "m = new_message t ry inp (scan (js_trim (si_body inp))) sb (cv_lastSequence conv + 1)"
    by (rule messages_send_new)
  note st = store_message_Inr [OF s(6)]
  have id: "ms_id d = ms_id m" by (simp add: s(8) strip_cipher_def)
  from assms(5) obtain m' where m': "m' \<in> set (w_msgs w1)" "ms_id m' = ms_id d"
    "w_msgs w2 = update_rows (\<lambda>x. ms_id x = ms_id d) (\<lambda>x. erase_body t2 m') (w_msgs w1)"
    "w_outbox w2 = w_outbox w1" by (rule softDelete_cases)
  have msgs: "w_msgs w1 = w_msgs wa @ [m]" using st(2) db_eqD(5) [OF s(2)] by simp
  have "new_event t ry inp (scan (js_trim (si_body inp))) m (cv_id conv) wa \<in> set (w_outbox w2)"
    using st(5) db_eqD(7) [OF s(2)] m'(4) by simp
  then have "\<exists>ev cp. ev \<in> set (w_outbox w2) \<and> ob_payload ev = Created cp \<and> cp_messageId cp = ms_id d
      \<and> cp_body cp = cleaned_text inp"
    by (auto simp: new_event_def new_outbox_def created_event_def id cleaned_text_def intro!: bexI)
  moreover have other: "ms_id x \<noteq> ms_id d" if "x \<in> set (w_msgs wa)" for x
    using st(4) id that by (auto simp: msg_clash_def)
  then have "filter (\<lambda>x. ms_id x = ms_id d) (w_msgs wa) = []"
    "update_rows (\<lambda>x. ms_id x = ms_id d) (\<lambda>x. erase_body t2 m') (w_msgs wa) = w_msgs wa"
    by (simp add: filter_empty_conv, intro update_rows_none, blast)
  then have "map ms_body (filter (\<lambda>x. ms_id x = ms_id d) (w_msgs w2)) = [None]"
    unfolding m'(3) msgs using id m'(2) by (simp add: erase_body_def)
  ultimately show ?thesis by blast
qed

theorem outbox_keeps_plaintext_witness:
  "\<exists>d w1 w2. sample_send sample_hello sample_world = (Inr d, w1)
     \<and> softDelete default_config 40 (ms_id d) u_alice w1 = (Inr (), w2)
     \<and> (\<exists>ev cp. ev \<in> set (w_outbox w2) \<and> ob_payload ev = Created cp
          \<and> cp_body cp = cleaned_text sample_hello)"
proof -
  obtain d w1 c where send: "sample_send sample_hello sample_world = (Inr d, w1)"
    and found: "find_replay sample_hello w1 \<noteq> None" and id: "ms_id d = m_one" by (rule sample_sent)
  from found obtain m where m: "m \<in> set (w_msgs w1)" "ms_senderId m = u_alice"
    using find_replay_SomeD by (fastforce simp: sample_hello_def sample_input_def)
  note send' = send [unfolded sample_send_def]
  have new: "find_replay sample_hello sample_world = None"
    by (simp add: find_replay_def sample_defs)
  have "\<exists>m1. w_msgs w1 = [m1] \<and> ms_id m1 = ms_id d \<and> ms_senderId m1 = u_alice"
    using send' new
  proof (rule messages_send_new, goal_cases)
    case (1 sb conv wa wb m0)
    have "w_msgs wa = []" using db_eqD(5) [OF 1(1)] by (simp add: sample_defs)
    with 1 store_message_Inr(2) [OF 1(6)] db_eqD(5) [OF 1(2)] show ?case
      by (simp add: strip_cipher_def new_message_def sample_hello_def sample_input_def)
  qed
  then have "\<exists>w2. softDelete default_config 40 (ms_id d) u_alice w1 = (Inr (), w2)"
    by (auto simp: softDelete_def)
  then obtain w2 where del: "softDelete default_config 40 (ms_id d) u_alice w1 = (Inr (), w2)" by blast
  have "si_senderId sample_hello = u_alice" by (simp add: sample_hello_def sample_input_def)
  with outbox_keeps_plaintext [OF send' new schema_ok_sample sample_seq_ok] del send show ?thesis
    by metis
qed

lemma list_page_facts:
  assumes "messages_list env k pg_int8 qb_limit t p w = (Inr page, w')"
    and "case lp_limit p of None \<Rightarrow> True | Some None \<Rightarrow> False | Some (Some n) \<Rightarrow> 0 < n"
  shows "length page \<le> 100
    \<and> (\<forall>d \<in> set page. ms_conversationId d = lp_conversationId p \<and> ms_deletedAt d = None)
    \<and> (if truthy (lp_afterSequence p)
       then (\<exists>n. pg_int8 (the (lp_afterSequence p)) = Inr n \<and> (\<forall>d \<in> set page. n < ms_sequence d))
         \<and> sorted_wrt (\<le>) (map ms_sequence page)
       else sorted_wrt (\<ge>) (map ms_sequence page))"
proof -
  from assms(1) obtain rows ms where rows: "select_messages pg_int8 p w = Inr rows"
    and ms: "apply_limit qb_limit (lp_limit p) rows = Inr ms"
    and dec: "decrypt_all env k t ms w = (Inr page, w')"
    by (auto simp: messages_list_def split: sum.splits)
  note sel = select_messages_Inr [OF rows]
  from apply_limit_Inr [OF ms assms(2)] obtain n where len: "length ms \<le> 100" and ms: "ms = take n rows"
    by blast
  have l2: "list_all2 (\<lambda>m d. \<exists>b. d = strip_cipher m b) ms page" by (rule decrypt_all_Inr [OF dec])
  have seqs: "map ms_sequence page = map ms_sequence ms" "length page = length ms"
    using l2 by (induction rule: list_all2_induct) (auto simp: strip_cipher_def)
  have each: "\<exists>m \<in> set rows. ms_conversationId d = ms_conversationId m \<and> ms_deletedAt d = ms_deletedAt m
      \<and> ms_sequence d = ms_sequence m" if "d \<in> set page" for d
  proof -
    have "\<exists>m \<in> set ms. \<exists>b. d = strip_cipher m b"
      using l2 that by (induction rule: list_all2_induct) auto
    then obtain m b where "m \<in> set ms" "d = strip_cipher m b" by blast
    moreover have "m \<in> set rows" using \<open>m \<in> set ms\<close> ms set_take_subset by fastforce
    ultimately show ?thesis by (auto simp: strip_cipher_def)
  qed
  have "\<forall>d \<in> set page. ms_conversationId d = lp_conversationId p \<and> ms_deletedAt d = None"
    using each sel(1) by fastforce
  moreover have srt: "sorted_wrt R (map ms_sequence rows) \<Longrightarrow> sorted_wrt R (map ms_sequence page)" for R
    unfolding seqs(1) ms take_map [symmetric] by (rule sorted_wrt_take)
  moreover have "\<exists>n. pg_int8 (the (lp_afterSequence p)) = Inr n \<and> (\<forall>d \<in> set page. n < ms_sequence d)"
    if "truthy (lp_afterSequence p)"
    using sel(3) [OF that] each by metis
  moreover have "if truthy (lp_afterSequence p) then sorted_wrt (\<le>) (map ms_sequence page)
      else sorted_wrt (\<ge>) (map ms_sequence page)"
    using sel(2,3) srt [of "(\<le>)"] srt [of "(\<ge>)"] by (auto simp: sorted_wrt_map)
  ultimately show ?thesis using len seqs(2) by (simp split: if_splits)
qed

text \<open>
  a page of messages has at most 100 entries (for a positive limit), all of the asked
  conversation and none deleted, newest first; after a cursor, only later ones, oldest first.
\<close>

theorem list_page:
  assumes "messages_list env k pg_int8 qb_limit t p w = (Inr page, w')"
    and "case lp_limit p of None \<Rightarrow> True | Some None \<Rightarrow> False | Some (Some n) \<Rightarrow> 0 < n"
  shows "length page \<le> 100
    \<and> (\<forall>d \<in> set page. ms_conversationId d = lp_conversationId p \<and> ms_deletedAt d = None)
    \<and> (if truthy (lp_afterSequence p)
       then (\<exists>n. pg_int8 (the (lp_afterSequence p)) = Inr n \<and> (\<forall>d \<in> set page. n < ms_sequence d))
         \<and> sorted_wrt (\<le>) (map ms_sequence page)
       else sorted_wrt (\<ge>) (map ms_sequence page))"
  using assms by (rule list_page_facts)

theorem list_page_witness:
  "\<exists>page w'. messages_list toy_env (Local_kms toy_kms) (\<lambda>_. Inr 0) (\<lambda>_ rows. Inr rows) 30
       \<lparr>lp_conversationId = c_one, lp_afterSequence = None, lp_beforeSequence = None, lp_limit = None\<rparr>
       (sample_world\<lparr>w_msgs := [sample_msg None]\<rparr>) = (Inr page, w') \<and> length page \<le> 100"
proof -
  have "\<not> isl (fst (messages_list toy_env (Local_kms toy_kms) (\<lambda>_. Inr 0) (\<lambda>_ rows. Inr rows) 30
       \<lparr>lp_conversationId = c_one, lp_afterSequence = None, lp_beforeSequence = None, lp_limit = None\<rparr>
       (sample_world\<lparr>w_msgs := [sample_msg None]\<rparr>)))"
    by (simp add: messages_list_def select_messages_def apply_limit_def toDecrypted_def sample_msg_def
        new_message_def sample_plain_def)
  from run_Inr [OF this] show ?thesis using list_page by fastforce
qed

text \<open>
  with the AWS provider and encryption on, no new message can be sent: the wrapped key of
  94 bytes or more makes \<open>dekId\<close> longer than its column, and the insertion fails.
\<close>

theorem aws_sends_fail:
  assumes "ce_aws_gen env arn = Some (pt, blob)" "length blob \<ge> 94" "cf_encryptBody cfg"
    and "find_replay inp w = None"
  shows "\<exists>e. fst (messages_send env (Aws_kms arn) cfg t0 t ry inp w) = Inl e"
proof (cases "fst (messages_send env (Aws_kms arn) cfg t0 t ry inp w)")
  case (Inr d)
  obtain w' where "messages_send env (Aws_kms arn) cfg t0 t ry inp w = (Inr d, w')"
    using Inr by (metis prod.collapse)
  from this assms(4) obtain sb conv wa wb m where s:
    "store_message t ry inp (scan (js_trim (si_body inp))) sb conv wa = Inr (m, wb)"
    "body_stored_as env (Aws_kms arn) cfg ry (cleaned_text inp) sb"
    "m = new_message t ry inp (scan (js_trim (si_body inp))) sb (cv_lastSequence conv + 1)"
    by (rule messages_send_new)
  with assms(3) aws_dekId_too_long [OF assms(1,2)] have "length (coalesce (ms_bodyDekId m) []) > 128"
    by (auto simp: body_stored_as_def new_message_def)
  with store_message_Inr(3) [OF s(1)] show ?thesis by (simp add: column_too_long_def)
qed auto

theorem aws_sends_fail_witness:
  "\<exists>e. fst (messages_send (toy_env\<lparr>ce_aws_gen := \<lambda>_. Some ([], replicate 184 0)\<rparr>)
      (Aws_kms ''arn:aws:kms:x'') default_config 10 20 sample_entropy sample_hello sample_world) = Inl e"
  by (rule aws_sends_fail [of _ _ "[]" "replicate 184 0"])
    (simp_all add: default_config_def find_replay_def sample_defs)

end
