(* ===== verification/Invariants.thy ===== *)
theory Invariants
  imports Messages
begin

text \<open>
  The invariant of the database, unique constraints and numbering together, with the two
  facts that the remaining components use: it depends on some tables only, and it is kept by
  updates of messages and of conversations that leave the keys alone.
\<close>

definition inv :: "world \<Rightarrow> bool" where
  "inv w \<longleftrightarrow> schema_ok w \<and> seq_ok w"

lemma invD: "inv w \<Longrightarrow> schema_ok w" "inv w \<Longrightarrow> seq_ok w"
  by (simp_all add: inv_def)

lemma inv_frame:
  assumes "w_users w' = w_users w" "w_orders w' = w_orders w" "w_convs w' = w_convs w"
    "w_parts w' = w_parts w" "w_msgs w' = w_msgs w" "w_receipts w' = w_receipts w"
    "w_outbox w' = w_outbox w" "w_tokens w' = w_tokens w" "w_emails w' = w_emails w"
    "w_groups w' = w_groups w" "w_mls w' = w_mls w"
  shows "inv w' = inv w"
  using seq_ok_cong [OF keys_cong(1) [OF assms(5)] keys_cong(2) [OF assms(3)]]
  by (simp add: inv_def schema_ok_def assms)

lemma inv_db: "db w' = db w \<Longrightarrow> inv w' = inv w"
  by (simp add: inv_def seq_ok_db [of w' w] schema_ok_db [of w' w])

lemma inv_audit [simp]: "inv (audit_log a w) = inv w"
  by (rule inv_frame) simp_all

text \<open>The tables outside the invariant may change freely.\<close>

lemma inv_other [simp]:
  "inv (w\<lparr>w_reports := a\<rparr>) = inv w" "inv (w\<lparr>w_kps := b\<rparr>) = inv w" "inv (w\<lparr>w_atts := c\<rparr>) = inv w"
  "inv (w\<lparr>w_mails := d\<rparr>) = inv w" "inv (w\<lparr>w_nats := e\<rparr>) = inv w" "inv (w\<lparr>w_index := f\<rparr>) = inv w"
  "inv (w\<lparr>w_s3 := g\<rparr>) = inv w" "inv (w\<lparr>w_presence := h\<rparr>) = inv w" "inv (w\<lparr>w_rate := i\<rparr>) = inv w"
  "inv (w\<lparr>w_dekCache := j\<rparr>) = inv w" "inv (w\<lparr>w_emits := k\<rparr>) = inv w"
  by (rule inv_frame; simp)+

lemma inv_metrics [simp]:
  "inv (metrics_count cfg t n v d w) = inv w" "inv (metrics_gauge cfg t n v u w) = inv w"
  by (rule inv_db; simp)+

lemma inv_update_msgs:
  assumes "inv w" "\<And>m. ms_id (f m) = ms_id m" "\<And>m. ms_conversationId (f m) = ms_conversationId m"
    "\<And>m. ms_senderId (f m) = ms_senderId m" "\<And>m. ms_sequence (f m) = ms_sequence m"
    "\<And>m. ms_idempotencyKey (f m) = ms_idempotencyKey m"
  shows "inv (w\<lparr>w_msgs := update_rows p f (w_msgs w)\<rparr>)"
proof -
  have "clash_free msg_clash (update_rows p f (w_msgs w))"
    using assms(1) unfolding inv_def schema_ok_def
    by (intro clash_free_update) (auto simp: msg_clash_def assms(2-6) split: if_splits)
  then have "schema_ok (w\<lparr>w_msgs := update_rows p f (w_msgs w)\<rparr>)"
    using assms(1) by (simp add: inv_def schema_ok_def)
  moreover have "msg_keys (w\<lparr>w_msgs := update_rows p f (w_msgs w)\<rparr>) = msg_keys w"
    by (simp add: msg_keys_def map_update_rows assms)
  moreover have "conv_keys (w\<lparr>w_msgs := update_rows p f (w_msgs w)\<rparr>) = conv_keys w"
    by (simp add: conv_keys_def)
  ultimately show ?thesis
    using seq_ok_cong [of "w\<lparr>w_msgs := update_rows p f (w_msgs w)\<rparr>" w] assms(1)
    unfolding inv_def by blast
qed

lemma inv_update_convs:
  assumes "inv w" "\<And>c. cv_id (f c) = cv_id c" "\<And>c. cv_orderId (f c) = cv_orderId c"
    "\<And>c. cv_lastSequence (f c) = cv_lastSequence c"
  shows "inv (w\<lparr>w_convs := update_rows p f (w_convs w)\<rparr>)"
proof -
  have "clash_free conv_clash (update_rows p f (w_convs w))"
    using assms(1) unfolding inv_def schema_ok_def
    by (intro clash_free_update) (auto simp: conv_clash_def assms(2-4) split: if_splits)
  then have "schema_ok (w\<lparr>w_convs := update_rows p f (w_convs w)\<rparr>)"
    using assms(1) by (simp add: inv_def schema_ok_def)
  moreover have "conv_keys (w\<lparr>w_convs := update_rows p f (w_convs w)\<rparr>) = conv_keys w"
    by (simp add: conv_keys_def map_update_rows assms)
  moreover have "msg_keys (w\<lparr>w_convs := update_rows p f (w_convs w)\<rparr>) = msg_keys w"
    by (simp add: msg_keys_def)
  ultimately show ?thesis
    using seq_ok_cong [of "w\<lparr>w_convs := update_rows p f (w_convs w)\<rparr>" w] assms(1)
    unfolding inv_def by blast
qed

text \<open>The other unique tables, one at a time.\<close>

lemma inv_table:
  assumes "inv w"
  shows "clash_free user_clash us \<Longrightarrow> inv (w\<lparr>w_users := us\<rparr>)"
    "clash_free order_clash os \<Longrightarrow> inv (w\<lparr>w_orders := os\<rparr>)"
    "clash_free part_clash ps \<Longrightarrow> inv (w\<lparr>w_parts := ps\<rparr>)"
    "clash_free receipt_clash rs \<Longrightarrow> inv (w\<lparr>w_receipts := rs\<rparr>)"
    "clash_free outbox_clash es \<Longrightarrow> inv (w\<lparr>w_outbox := es\<rparr>)"
    "clash_free token_clash ts \<Longrightarrow> inv (w\<lparr>w_tokens := ts\<rparr>)"
    "clash_free email_clash ms \<Longrightarrow> inv (w\<lparr>w_emails := ms\<rparr>)"
    "clash_free group_clash gs \<Longrightarrow> inv (w\<lparr>w_groups := gs\<rparr>)"
    "clash_free mls_clash ls \<Longrightarrow> inv (w\<lparr>w_mls := ls\<rparr>)"
  using assms by (simp_all add: inv_def schema_ok_def seq_ok_def msgs_of_def)

lemma inv_tables:
  assumes "inv w"
  shows "clash_free user_clash (w_users w)" "clash_free order_clash (w_orders w)"
    "clash_free conv_clash (w_convs w)" "clash_free part_clash (w_parts w)"
    "clash_free msg_clash (w_msgs w)" "clash_free receipt_clash (w_receipts w)"
    "clash_free outbox_clash (w_outbox w)" "clash_free token_clash (w_tokens w)"
    "clash_free email_clash (w_emails w)" "clash_free group_clash (w_groups w)"
    "clash_free mls_clash (w_mls w)"
  using assms by (simp_all add: inv_def schema_ok_def)

text \<open>Access checks and sends keep it.\<close>

lemma access_frame_inv [inv_intros]:
  assumes "access_frame w w'" "inv w"
  shows "inv w'"
proof -
  from assms obtain ps au where f: "w' = w\<lparr>w_parts := ps, w_audit := au\<rparr>" "clash_free part_clash ps"
    using inv_tables(4) [OF assms(2)] by (auto simp: access_frame_def)
  have "inv w' = inv (w\<lparr>w_parts := ps\<rparr>)" unfolding f(1) by (rule inv_frame) simp_all
  with f(2) inv_table(3) [OF assms(2)] show ?thesis by simp
qed

lemma assertCanAccess_inv [inv_intros]: "inv w \<Longrightarrow> inv (snd (assertCanAccess t u r c w))"
  using assertCanAccess_granted [of u r c w t] assertCanAccess_denied [of u r c w t]
    access_frame_inv by (cases "may_access u r c w") fastforce+

end
