(* ===== verification/Moderation.thy ===== *)
theory Moderation
  imports Invariants
begin

text \<open>
  Moderation: \<open>ModerationService\<close> and its controller (backend/src/modules/moderation). Reports
  of messages, their list, and their resolution, which may hide the message. The generated
  identifier of a report is an argument, and so are the readings of the clock.
\<close>

section \<open>ModerationService\<close>

datatype resolve_action = Dismiss | Hide_message

fun action_string :: "resolve_action \<Rightarrow> string" where
  "action_string Dismiss = ''dismiss''"
| "action_string Hide_message = ''hide_message''"

definition moderation_report ::
  "int \<Rightarrow> uuid \<Rightarrow> uuid \<Rightarrow> uuid \<Rightarrow> string \<Rightarrow> string option \<Rightarrow> world \<Rightarrow> (world, report_row) res" where
  "moderation_report t new_id mid reporter reason details w =
     (case find (\<lambda>m. ms_id m = mid) (w_msgs w) of
        None \<Rightarrow> (Inl (NotFound ''Not Found''), w)
      | Some _ \<Rightarrow>
          (let r = \<lparr>rp_id = new_id, rp_messageId = mid, rp_reporterId = reporter,
                     rp_reason = reason, rp_details = details, rp_status = ROpen,
                     rp_resolvedBy = None, rp_resolvedAt = None, rp_createdAt = t\<rparr>
           in (Inr r,
               audit_log (mk_audit reporter ''message.reported'' ''message'' mid
                   (Some [(''reportId'', JStr new_id), (''reason'', JStr reason)]))
                 (w\<lparr>w_reports := w_reports w @ [r]\<rparr>))))"

definition listOpen :: "nat \<Rightarrow> world \<Rightarrow> report_row list" where
  "listOpen limit w =
     take limit (sort_key (\<lambda>r. - rp_createdAt r) (filter (\<lambda>r. rp_status r = ROpen) (w_reports w)))"

definition hide_row :: "int \<Rightarrow> uuid \<Rightarrow> msg_row \<Rightarrow> msg_row" where
  "hide_row t moderator m =
     m\<lparr>ms_status := Hidden, ms_moderatedBy := Some moderator, ms_moderatedAt := Some t\<rparr>"

definition moderation_resolve ::
  "int \<Rightarrow> int \<Rightarrow> uuid \<Rightarrow> uuid \<Rightarrow> resolve_action \<Rightarrow> world \<Rightarrow> (world, report_row) res" where
  "moderation_resolve t t2 rid moderator action w =
     (case find (\<lambda>r. rp_id r = rid) (w_reports w) of
        None \<Rightarrow> (Inl (NotFound ''Not Found''), w)
      | Some r0 \<Rightarrow>
          (let r = r0\<lparr>rp_status := (if action = Dismiss then Dismissed else Actioned),
                       rp_resolvedBy := Some moderator, rp_resolvedAt := Some t\<rparr>;
               w1 = w\<lparr>w_reports := update_rows (\<lambda>x. rp_id x = rid) (\<lambda>_. r) (w_reports w)\<rparr>;
               w2 = (if action = Hide_message
                     then w1\<lparr>w_msgs := update_rows (\<lambda>m. ms_id m = rp_messageId r)
                            (hide_row t2 moderator) (w_msgs w1)\<rparr>
                     else w1)
           in (Inr r,
               audit_log (mk_audit moderator (''report.'' @ action_string action) ''report'' (rp_id r)
                   (Some [(''messageId'', JStr (rp_messageId r))])) w2)))"

section \<open>The controller\<close>

definition valid_report :: "string \<Rightarrow> string option \<Rightarrow> bool" where
  "valid_report reason details \<longleftrightarrow> 3 \<le> length reason \<and> length reason \<le> 64
     \<and> length (coalesce details []) \<le> 2000"

definition report_post ::
  "int \<Rightarrow> uuid \<Rightarrow> auth_user \<Rightarrow> string \<Rightarrow> string \<Rightarrow> string option \<Rightarrow> world \<Rightarrow> (world, report_row) res" where
  "report_post t new_id user raw reason details w =
     (case uuid_pipe raw of
        Inl e \<Rightarrow> (Inl e, w)
      | Inr mid \<Rightarrow>
          if \<not> valid_report reason details then (Inl (BadRequest ''Bad Request''), w)
          else moderation_report t new_id mid (au_sub user) reason details w)"

definition reports_get :: "auth_user option \<Rightarrow> world \<Rightarrow> (world, report_row list) res" where
  "reports_get user w =
     (case roles_guard (Some [Support, Admin]) user of
        Inl e \<Rightarrow> (Inl e, w) | Inr _ \<Rightarrow> (Inr (listOpen 50 w), w))"

definition resolve_post ::
  "int \<Rightarrow> int \<Rightarrow> auth_user \<Rightarrow> string \<Rightarrow> resolve_action \<Rightarrow> world \<Rightarrow> (world, report_row) res" where
  "resolve_post t t2 user raw action w =
     (case roles_guard (Some [Support, Admin]) (Some user) of
        Inl e \<Rightarrow> (Inl e, w)
      | Inr _ \<Rightarrow>
          (case uuid_pipe raw of
             Inl e \<Rightarrow> (Inl e, w)
           | Inr rid \<Rightarrow> moderation_resolve t t2 rid (au_sub user) action w))"

section \<open>Facts\<close>

lemma hide_row_keys [simp]:
  "ms_id (hide_row t u m) = ms_id m" "ms_conversationId (hide_row t u m) = ms_conversationId m"
  "ms_senderId (hide_row t u m) = ms_senderId m" "ms_sequence (hide_row t u m) = ms_sequence m"
  "ms_idempotencyKey (hide_row t u m) = ms_idempotencyKey m" "ms_status (hide_row t u m) = Hidden"
  "ms_deletedAt (hide_row t u m) = ms_deletedAt m"
  by (simp_all add: hide_row_def)

lemma roles_guard_staff: "roles_guard (Some [Support, Admin]) (Some u) = Inr b \<Longrightarrow> is_staff (au_role u)"
  by (auto simp: roles_guard_def is_staff_def split: if_splits)

lemma moderation_resolve_cases:
  assumes "moderation_resolve t t2 rid u a w = (Inr r, w')"
  obtains r0 where "r0 \<in> set (w_reports w)" "rp_id r0 = rid" "rp_messageId r = rp_messageId r0"
    "rp_resolvedBy r = Some u" "rp_status r = (if a = Dismiss then Dismissed else Actioned)"
    "w_msgs w' = (if a = Hide_message then update_rows (\<lambda>m. ms_id m = rp_messageId r) (hide_row t2 u) (w_msgs w)
       else w_msgs w)" "w_convs w' = w_convs w" "w_parts w' = w_parts w" "w_users w' = w_users w"
    "w_orders w' = w_orders w" "w_receipts w' = w_receipts w" "w_outbox w' = w_outbox w"
    "w_tokens w' = w_tokens w" "w_emails w' = w_emails w" "w_groups w' = w_groups w" "w_mls w' = w_mls w"
proof -
  from assms obtain r0 where f: "find (\<lambda>r. rp_id r = rid) (w_reports w) = Some r0"
    by (cases "find (\<lambda>r. rp_id r = rid) (w_reports w)") (simp_all add: moderation_resolve_def)
  have r: "r = r0\<lparr>rp_status := (if a = Dismiss then Dismissed else Actioned),
                       rp_resolvedBy := Some u, rp_resolvedAt := Some t\<rparr>"
    using assms f by (simp add: moderation_resolve_def Let_def)
  define msgs where "msgs = (if a = Hide_message
    then update_rows (\<lambda>m. ms_id m = rp_messageId r0) (hide_row t2 u) (w_msgs w) else w_msgs w)"
  have keep: "w\<lparr>w_reports := rs, w_msgs := w_msgs w\<rparr> = w\<lparr>w_reports := rs\<rparr>" for rs by simp
  have w': "w' = audit_log (mk_audit u (''report.'' @ action_string a) ''report'' (rp_id r0)
      (Some [(''messageId'', JStr (rp_messageId r0))]))
      (w\<lparr>w_reports := update_rows (\<lambda>x. rp_id x = rid) (\<lambda>_. r) (w_reports w), w_msgs := msgs\<rparr>)"
    using assms f unfolding moderation_resolve_def Let_def msgs_def r
    by (cases a) (simp_all add: keep)
  show thesis
    using find_SomeD [OF f] by (intro that [of r0]) (simp_all add: r w' msgs_def)
qed

lemma moderation_report_inv [inv_intros]: "inv w \<Longrightarrow> inv (snd (moderation_report t i mid u re d w))"
  by (simp add: moderation_report_def Let_def split: option.splits)

lemma moderation_resolve_inv [inv_intros]:
  assumes "inv w"
  shows "inv (snd (moderation_resolve t t2 rid u a w))"
proof -
  have "inv (w\<lparr>w_reports := rs, w_msgs := update_rows p (hide_row t2 u) (w_msgs w)\<rparr>)" for rs p
    using inv_update_msgs [of "w\<lparr>w_reports := rs\<rparr>" "hide_row t2 u" p] assms by simp
  with assms show ?thesis by (simp add: moderation_resolve_def Let_def split: option.splits)
qed

lemma toDecrypted_hidden:
  "ms_status m = Hidden \<Longrightarrow> toDecrypted env k t m known w = (Inr (strip_cipher m hidden_text), w)"
  by (simp add: toDecrypted_def)

section \<open>Properties\<close>


definition sample_report :: report_row where
  "sample_report = \<lparr>rp_id = b_one, rp_messageId = m_one, rp_reporterId = u_bob,
     rp_reason = ''spam'', rp_details = None, rp_status = ROpen, rp_resolvedBy = None,
     rp_resolvedAt = None, rp_createdAt = 3\<rparr>"


text \<open>
  reporting asks for no access to the message: any authenticated user who knows its
  identifier has a report of it stored, also one whom the conversation refuses.
\<close>

theorem report_needs_no_access:
  assumes "uuid_pipe raw = Inr mid" "m \<in> set (w_msgs w)" "ms_id m = mid" "valid_report reason details"
    and "\<not> may_access (au_sub user) (au_role user) (ms_conversationId m) w"
  shows "\<exists>r w'. report_post t i user raw reason details w = (Inr r, w') \<and> r \<in> set (listOpen (length (w_reports w')) w')
    \<and> rp_reporterId r = au_sub user
    \<and> (\<exists>e. assertCanAccess t (au_sub user) (au_role user) (ms_conversationId m) w = (Inl e, w))"
proof -
  from assms(2,3) have "find (\<lambda>m. ms_id m = mid) (w_msgs w) \<noteq> None"
    by (auto simp: find_None_iff)
  then obtain x where "find (\<lambda>m. ms_id m = mid) (w_msgs w) = Some x" by blast
  then show ?thesis
    using assms(1,4) assertCanAccess_denied [OF assms(5)]
    by (simp add: report_post_def moderation_report_def Let_def listOpen_def)
qed

theorem report_needs_no_access_witness:
  "\<exists>r w'. report_post 7 b_two \<lparr>au_sub = u_eve, au_role = Customer, au_email = []\<rparr> m_one ''spam'' None
     (sample_world\<lparr>w_msgs := [sample_msg None]\<rparr>) = (Inr r, w') \<and> rp_reporterId r = u_eve"
proof -
  have p: "uuid_pipe m_one = Inr m_one" "valid_report ''spam'' None" by code_simp+
  have m: "sample_msg None \<in> set (w_msgs (sample_world\<lparr>w_msgs := [sample_msg None]\<rparr>))"
    "ms_id (sample_msg None) = m_one" "ms_conversationId (sample_msg None) = c_one"
    by (simp_all add: sample_msg_def new_message_def sample_entropy_def sample_input_def)
  have "\<not> may_access u_eve Customer c_one (sample_world\<lparr>w_msgs := [sample_msg None]\<rparr>)"
    by (simp add: may_access_def is_staff_def active_part_def sample_defs sample_ids)
  with m report_needs_no_access [OF p(1) m(1,2) p(2),
      of "\<lparr>au_sub = u_eve, au_role = Customer, au_email = []\<rparr>" 7 b_two]
  show ?thesis by auto
qed

end
