(* ===== verification/Presence.thy ===== *)
theory Presence
  imports Platform Samples
begin

text \<open>
  \<open>PresenceService\<close> (backend/src/modules/presence/presence.service.ts): a Redis set of socket
  identifiers per user, expiring after 60 s.

  \<open>w_presence\<close> maps a user to the members of his set and the time at which it expires; an
  expired or emptied set does not exist for Redis. \<open>disconnect\<close> is two round trips, the atomic
  removal and count (\<open>disconnect_count\<close>) and then the deletion of the key
  (\<open>disconnect_del\<close>), between which other clients run.
\<close>

section \<open>Operations\<close>

definition presence_ttl :: int where "presence_ttl = 60"

definition presence_set :: "int \<Rightarrow> uuid \<Rightarrow> world \<Rightarrow> string list" where
  "presence_set t u w =
     (case w_presence w u of None \<Rightarrow> [] | Some (ss, ex) \<Rightarrow> if t < ex then ss else [])"

definition presence_connect :: "int \<Rightarrow> uuid \<Rightarrow> string \<Rightarrow> world \<Rightarrow> world" where
  "presence_connect t u s w =
     w\<lparr>w_presence := (w_presence w)(u \<mapsto> (List.insert s (presence_set t u w), t + presence_ttl * 1000))\<rparr>"

definition presence_heartbeat :: "int \<Rightarrow> uuid \<Rightarrow> world \<Rightarrow> world" where
  "presence_heartbeat t u w =
     (if presence_set t u w = [] then w
      else w\<lparr>w_presence := (w_presence w)(u \<mapsto> (presence_set t u w, t + presence_ttl * 1000))\<rparr>)"

definition disconnect_count :: "int \<Rightarrow> uuid \<Rightarrow> string \<Rightarrow> world \<Rightarrow> nat \<times> world" where
  "disconnect_count t u s w =
     (let ss = removeAll s (presence_set t u w)
      in (length ss,
          w\<lparr>w_presence := (if ss = [] then (w_presence w)(u := None)
             else (w_presence w)(u \<mapsto> (ss, snd (the (w_presence w u)))))\<rparr>))"

definition disconnect_del :: "uuid \<Rightarrow> nat \<Rightarrow> world \<Rightarrow> world" where
  "disconnect_del u remaining w =
     (if remaining = 0 then w\<lparr>w_presence := (w_presence w)(u := None)\<rparr> else w)"

definition presence_disconnect :: "int \<Rightarrow> uuid \<Rightarrow> string \<Rightarrow> world \<Rightarrow> world" where
  "presence_disconnect t u s w =
     (let (remaining, w1) = disconnect_count t u s w in disconnect_del u remaining w1)"

definition isOnline :: "int \<Rightarrow> uuid \<Rightarrow> world \<Rightarrow> bool" where
  "isOnline t u w \<longleftrightarrow> presence_set t u w \<noteq> []"

definition areOnline :: "int \<Rightarrow> uuid list \<Rightarrow> world \<Rightarrow> uuid \<rightharpoonup> bool" where
  "areOnline t us w = map_of (rev (map (\<lambda>u. (u, isOnline t u w)) us))"

section \<open>The interface\<close>

text \<open>
  A presence store: after a socket connects it is seen for the time to live, and no operation
  but the removal of that socket hides it within that time.
\<close>

datatype presence_op = P_connect uuid string | P_heartbeat uuid | P_disconnect uuid string

locale presence_store =
  fixes step :: "int \<Rightarrow> presence_op \<Rightarrow> 's \<Rightarrow> 's"
    and sockets :: "'s \<Rightarrow> int \<Rightarrow> uuid \<Rightarrow> string set"
    and ttl :: int
  assumes connects: "t' < t + ttl \<Longrightarrow> s \<in> sockets (step t (P_connect u s) st) t' u"
    and keeps: "s \<in> sockets st t' u \<Longrightarrow> t \<le> t' \<Longrightarrow> t' < t + ttl \<Longrightarrow> op \<noteq> P_disconnect u s \<Longrightarrow>
      s \<in> sockets (step t op st) t' u"
begin

fun steps :: "(int \<times> presence_op) list \<Rightarrow> 's \<Rightarrow> 's" where
  "steps [] st = st"
| "steps ((t, op) # ops) st = steps ops (step t op st)"

lemma steps_keep:
  assumes "s \<in> sockets st t' u"
    and "\<forall>(t, op) \<in> set ops. t \<le> t' \<and> t' < t + ttl \<and> op \<noteq> P_disconnect u s"
  shows "s \<in> sockets (steps ops st) t' u"
  using assms
proof (induction ops arbitrary: st)
  case (Cons a ops)
  obtain t op where "a = (t, op)" by (cases a)
  with Cons keeps show ?case by simp
qed simp

lemma stays_connected:
  assumes "t' < t + ttl" "\<forall>(t, op) \<in> set ops. t \<le> t' \<and> t' < t + ttl \<and> op \<noteq> P_disconnect u s"
  shows "s \<in> sockets (steps ops (step t (P_connect u s) st)) t' u"
  using steps_keep [OF connects [OF assms(1)] assms(2)] .

end

fun presence_step :: "int \<Rightarrow> presence_op \<Rightarrow> world \<Rightarrow> world" where
  "presence_step t (P_connect u s) w = presence_connect t u s w"
| "presence_step t (P_heartbeat u) w = presence_heartbeat t u w"
| "presence_step t (P_disconnect u s) w = presence_disconnect t u s w"

lemma presence_set_simps:
  "presence_set t v (presence_connect t0 u s w) =
     (if v = u then if t < t0 + presence_ttl * 1000 then List.insert s (presence_set t0 u w) else []
      else presence_set t v w)"
  "presence_set t v (presence_disconnect t0 u s w) =
     (if v = u then if presence_set t0 u w \<noteq> [] \<and> t < snd (the (w_presence w u))
        then removeAll s (presence_set t0 u w) else [] else presence_set t v w)"
  by (auto simp: presence_set_def presence_connect_def presence_disconnect_def disconnect_count_def
      disconnect_del_def Let_def split: option.splits if_splits)

lemma presence_set_heartbeat:
  "presence_set t v (presence_heartbeat t0 u w) =
     (if v = u \<and> presence_set t0 u w \<noteq> []
      then if t < t0 + presence_ttl * 1000 then presence_set t0 u w else []
      else presence_set t v w)"
  by (simp add: presence_heartbeat_def presence_set_def)

lemma presence_set_mono: "s \<in> set (presence_set t' u w) \<Longrightarrow> t \<le> t' \<Longrightarrow>
    presence_set t u w = presence_set t' u w \<and> t' < snd (the (w_presence w u))"
  by (auto simp: presence_set_def split: option.splits if_splits)

interpretation store: presence_store presence_step "\<lambda>w t u. set (presence_set t u w)" "presence_ttl * 1000"
proof (unfold_locales, goal_cases)
  case (1 t' t s u st)
  then show ?case by (simp add: presence_set_simps)
next
  case (2 s st t' u t op)
  note m = presence_set_mono [OF 2(1,2)]
  show ?case
  proof (cases op)
    case (P_disconnect v s')
    with 2 m show ?thesis by (cases "v = u") (auto simp: presence_set_simps)
  next
    case (P_connect v s')
    with 2 m show ?thesis by (auto simp: presence_set_simps)
  next
    case (P_heartbeat v)
    with 2 m show ?thesis by (auto simp: presence_set_heartbeat)
  qed
qed

lemma areOnline_eq: "u \<in> set us \<Longrightarrow> areOnline t us w u = Some (isOnline t u w)"
proof -
  assume u: "u \<in> set us"
  have "map_of (map (\<lambda>u. (u, isOnline t u w)) vs) u = (if u \<in> set vs then Some (isOnline t u w) else None)" for vs
    by (induction vs) auto
  with u show ?thesis unfolding areOnline_def by (simp add: rev_map)
qed

lemma presence_frame [simp]:
  "w_outbox (presence_step t op w) = w_outbox w" "db (w\<lparr>w_presence := p\<rparr>) = (db w)\<lparr>w_presence := p\<rparr>"
  by (cases op; simp add: presence_connect_def presence_heartbeat_def presence_disconnect_def
      disconnect_count_def disconnect_del_def Let_def) (simp add: db_def)

section \<open>Properties\<close>

text \<open>
  a connected socket keeps its user online: for a minute after the connection, whatever
  other sockets and users do and as long as every operation is at most a minute old.
\<close>

theorem connected_stays_online:
  assumes "t' < t + presence_ttl * 1000"
    and "\<forall>(t, op) \<in> set ops. t \<le> t' \<and> t' < t + presence_ttl * 1000 \<and> op \<noteq> P_disconnect u s"
  shows "isOnline t' u (fold (\<lambda>(t, op). presence_step t op) ops (presence_connect t u s w))"
proof -
  have "store.steps ops st = fold (\<lambda>(t, op). presence_step t op) ops st" for st
    by (induction ops arbitrary: st) auto
  with store.stays_connected [OF assms, of w]
  have "s \<in> set (presence_set t' u (fold (\<lambda>(t, op). presence_step t op) ops (presence_connect t u s w)))"
    by simp
  then show ?thesis unfolding isOnline_def by (metis empty_iff empty_set)
qed

theorem connected_stays_online_witness:
  "isOnline 30000 u_alice (fold (\<lambda>(t, op). presence_step t op)
     [(2000, P_connect u_alice ''s2''), (3000, P_heartbeat u_alice), (4000, P_disconnect u_alice ''s2'')]
     (presence_connect 1000 u_alice ''s1'' sample_world))"
  by (rule connected_stays_online) (simp_all add: presence_ttl_def)

text \<open>
  the removal of the last socket deletes the key in a second round trip: a socket of the
  same user that connects in between is lost with it, and its user counts as offline.
\<close>

theorem disconnect_drops_new_socket:
  assumes "disconnect_count t u s w = (0, w1)"
  shows "isOnline t u (presence_connect t u s2 w1)
    \<and> \<not> isOnline t2 u (disconnect_del u 0 (presence_connect t u s2 w1))"
proof
  have "s2 \<in> set (presence_set t u (presence_connect t u s2 w1))"
    by (simp add: presence_set_simps presence_ttl_def)
  then show "isOnline t u (presence_connect t u s2 w1)" unfolding isOnline_def by (metis empty_iff empty_set)
  show "\<not> isOnline t2 u (disconnect_del u 0 (presence_connect t u s2 w1))"
    by (simp add: isOnline_def disconnect_del_def presence_set_def)
qed

theorem disconnect_drops_new_socket_witness:
  "\<exists>w1. disconnect_count 2000 u_alice ''s1'' (presence_connect 1000 u_alice ''s1'' sample_world) = (0, w1)
     \<and> \<not> isOnline 2500 u_alice (disconnect_del u_alice 0 (presence_connect 2000 u_alice ''s2'' w1))"
proof -
  have "\<exists>w1. disconnect_count 2000 u_alice ''s1'' (presence_connect 1000 u_alice ''s1'' sample_world) = (0, w1)"
    by (simp add: disconnect_count_def presence_set_simps presence_ttl_def Let_def)
      (simp add: presence_set_def sample_world_def empty_world_def)
  then show ?thesis using disconnect_drops_new_socket by blast
qed

end
