(* ===== verification/Search.thy ===== *)
theory Search
  imports Invariants
begin

text \<open>
  Search: \<open>OpenSearchService\<close>, \<open>SearchService\<close> and the controller (backend/src/modules/search).

  \<open>search_env\<close> is the search engine: which calls succeed, which contents match a query and
  what is highlighted. \<open>w_index\<close> is the index, one document per message, read as refreshed;
  \<open>w_indexReady\<close> says whether the client was created at startup. The configuration of the
  index and the connection are not modelled.
\<close>

section \<open>OpenSearchService\<close>

record search_env =
  sv_index_ok :: "index_doc \<Rightarrow> bool"
  sv_delete_ok :: "string \<Rightarrow> bool"
  sv_match :: "string \<Rightarrow> string \<Rightarrow> bool"
  sv_highlight :: "string \<Rightarrow> string \<Rightarrow> string list"

record search_hit =
  hi_messageId :: uuid
  hi_conversationId :: uuid
  hi_sequence :: int
  hi_senderId :: uuid
  hi_createdAt :: int
  hi_highlight :: "string list"

definition os_isEnabled :: "config \<Rightarrow> world \<Rightarrow> bool" where
  "os_isEnabled cfg w \<longleftrightarrow> cf_searchEnabled cfg \<and> w_indexReady w"

definition put_doc :: "index_doc \<Rightarrow> index_doc list \<Rightarrow> index_doc list" where
  "put_doc d ds = filter (\<lambda>x. ix_messageId x \<noteq> ix_messageId d) ds @ [d]"

definition os_indexMessage :: "search_env \<Rightarrow> config \<Rightarrow> index_doc \<Rightarrow> world \<Rightarrow> (world, unit) res" where
  "os_indexMessage sv cfg d w =
     (if \<not> os_isEnabled cfg w then (Inr (), w)
      else if \<not> sv_index_ok sv d then (Inl (JsError ''index''), w)
      else (Inr (), w\<lparr>w_index := put_doc d (w_index w)\<rparr>))"

definition os_deleteMessage :: "search_env \<Rightarrow> config \<Rightarrow> uuid \<Rightarrow> world \<Rightarrow> (world, unit) res" where
  "os_deleteMessage sv cfg mid w =
     (if \<not> os_isEnabled cfg w then (Inr (), w)
      else if \<not> sv_delete_ok sv mid then (Inl (JsError ''delete''), w)
      else (Inr (), w\<lparr>w_index := filter (\<lambda>d. ix_messageId d \<noteq> mid) (w_index w)\<rparr>))"

definition os_deleteByConversation :: "search_env \<Rightarrow> config \<Rightarrow> uuid \<Rightarrow> world \<Rightarrow> (world, unit) res" where
  "os_deleteByConversation sv cfg c w =
     (if \<not> os_isEnabled cfg w then (Inr (), w)
      else if \<not> sv_delete_ok sv c then (Inl (JsError ''deleteByQuery''), w)
      else (Inr (), w\<lparr>w_index := filter (\<lambda>d. ix_conversationId d \<noteq> c) (w_index w)\<rparr>))"

definition search_docs ::
  "search_env \<Rightarrow> uuid \<Rightarrow> string \<Rightarrow> string option \<Rightarrow> world \<Rightarrow> index_doc list" where
  "search_docs sv user query conv w =
     filter (\<lambda>d. sv_match sv query (ix_content d) \<and> user \<in> set (ix_participants d)
               \<and> (truthy conv \<longrightarrow> ix_conversationId d = the conv)) (w_index w)"

definition to_hit :: "search_env \<Rightarrow> string \<Rightarrow> index_doc \<Rightarrow> search_hit" where
  "to_hit sv query d =
     \<lparr>hi_messageId = ix_messageId d, hi_conversationId = ix_conversationId d,
      hi_sequence = ix_sequence d, hi_senderId = ix_senderId d, hi_createdAt = ix_createdAt d,
      hi_highlight = sv_highlight sv query (ix_content d)\<rparr>"

text \<open>The engine counts at most 10000 hits.\<close>

definition os_search ::
  "search_env \<Rightarrow> config \<Rightarrow> uuid \<Rightarrow> string \<Rightarrow> string option \<Rightarrow> nat option \<Rightarrow> world \<Rightarrow>
   search_hit list \<times> nat" where
  "os_search sv cfg user query conv limit w =
     (if \<not> os_isEnabled cfg w then ([], 0)
      else (let docs = search_docs sv user query conv w
            in (map (to_hit sv query)
                  (take (min (coalesce limit 20) 100) (sort_key (\<lambda>d. - ix_createdAt d) docs)),
                min (length docs) 10000)))"

section \<open>SearchService\<close>

definition search_decrypt ::
  "crypto_env \<Rightarrow> kms \<Rightarrow> int \<Rightarrow> msg_row \<Rightarrow> world \<Rightarrow> string \<times> world" where
  "search_decrypt env k t m w =
     (if truthy (ms_body m) then (coalesce (ms_body m) [], w)
      else (case (ms_bodyCiphertext m, ms_bodyIv m, ms_bodyTag m) of
              (Some ct, Some iv, Some tag) \<Rightarrow>
                if truthy (ms_bodyDekId m) then
                  (case decrypt env k t ct iv tag (coalesce (ms_bodyDekId m) []) (w_dekCache w) of
                     (Inl e, c) \<Rightarrow> ([], w\<lparr>w_dekCache := c\<rparr>)
                   | (Inr body, c) \<Rightarrow> (body, w\<lparr>w_dekCache := c\<rparr>))
                else ([], w)
            | _ \<Rightarrow> ([], w)))"

definition message_doc :: "uuid \<Rightarrow> uuid list \<Rightarrow> msg_row \<Rightarrow> string \<Rightarrow> index_doc" where
  "message_doc c pids m content =
     \<lparr>ix_messageId = ms_id m, ix_conversationId = c, ix_sequence = ms_sequence m,
      ix_senderId = ms_senderId m, ix_createdAt = ms_createdAt m, ix_content = content,
      ix_participants = pids\<rparr>"

fun backfill ::
  "crypto_env \<Rightarrow> kms \<Rightarrow> search_env \<Rightarrow> config \<Rightarrow> int \<Rightarrow> uuid \<Rightarrow> uuid list \<Rightarrow> msg_row list \<Rightarrow> world \<Rightarrow>
   (world, unit) res" where
  "backfill env k sv cfg t c pids [] w = (Inr (), w)"
| "backfill env k sv cfg t c pids (m # ms) w =
     (let (content, w1) = search_decrypt env k t m w
      in if content = [] then backfill env k sv cfg t c pids ms w1
         else (case os_indexMessage sv cfg (message_doc c pids m content) w1 of
                 (Inl e, w2) \<Rightarrow> (Inl e, w2)
               | (Inr _, w2) \<Rightarrow> backfill env k sv cfg t c pids ms w2))"

definition indexed_messages :: "uuid \<Rightarrow> world \<Rightarrow> msg_row list" where
  "indexed_messages c w =
     sort_key ms_sequence (filter (\<lambda>m. ms_conversationId m = c \<and> ms_deletedAt m = None) (w_msgs w))"

definition set_indexed :: "uuid \<Rightarrow> bool \<Rightarrow> int option \<Rightarrow> world \<Rightarrow> world" where
  "set_indexed c b at w =
     w\<lparr>w_convs := update_rows (\<lambda>x. cv_id x = c)
        (\<lambda>x. x\<lparr>cv_searchIndexed := b, cv_searchIndexedAt := at\<rparr>) (w_convs w)\<rparr>"

definition enableIndexing ::
  "crypto_env \<Rightarrow> kms \<Rightarrow> search_env \<Rightarrow> config \<Rightarrow> int \<Rightarrow> uuid \<Rightarrow> uuid \<Rightarrow> user_role \<Rightarrow> world \<Rightarrow>
   (world, unit) res" where
  "enableIndexing env k sv cfg t c actor role w =
     (case assertCanAccess t actor role c w of
        (Inl e, w1) \<Rightarrow> (Inl e, w1)
      | (Inr (conv, _), w1) \<Rightarrow>
          if cv_searchIndexed conv
          then (Inl (Conflict (''D'' @ [CHR 0xE9] @ ''j'' @ [CHR 0xE0] @ '' index'' @ [CHR 0xE9] @ ''e'')), w1)
          else if \<not> os_isEnabled cfg w1
          then (Inl (Conflict (''Recherche d'' @ [CHR 0xE9] @ ''sactiv'' @ [CHR 0xE9] @ ''e c''
                 @ [CHR 0xF4] @ ''t'' @ [CHR 0xE9] @ '' serveur'')), w1)
          else (let messages = indexed_messages c w1;
                    pids = map pt_userId (listParticipants c w1)
                in case backfill env k sv cfg t c pids messages w1 of
                     (Inl e, w2) \<Rightarrow> (Inl e, w2)
                   | (Inr _, w2) \<Rightarrow>
                       (Inr (), audit_log (mk_audit actor ''search.enabled'' ''conversation'' c
                            (Some [(''backfilled'', JNum (int (length messages)))]))
                          (set_indexed c True (Some t) w2))))"

definition disableIndexing ::
  "search_env \<Rightarrow> config \<Rightarrow> int \<Rightarrow> uuid \<Rightarrow> uuid \<Rightarrow> user_role \<Rightarrow> world \<Rightarrow> (world, unit) res" where
  "disableIndexing sv cfg t c actor role w =
     (case assertCanAccess t actor role c w of
        (Inl e, w1) \<Rightarrow> (Inl e, w1)
      | (Inr _, w1) \<Rightarrow>
          (case os_deleteByConversation sv cfg c (set_indexed c False None w1) of
             (Inl e, w2) \<Rightarrow> (Inl e, w2)
           | (Inr _, w2) \<Rightarrow>
               (Inr (), audit_log (mk_audit actor ''search.disabled'' ''conversation'' c None) w2)))"

definition search_search ::
  "search_env \<Rightarrow> config \<Rightarrow> uuid \<Rightarrow> string \<Rightarrow> string option \<Rightarrow> nat option \<Rightarrow> world \<Rightarrow>
   exn + search_hit list \<times> nat" where
  "search_search sv cfg user query conv limit w =
     (if \<not> os_isEnabled cfg w
      then Inl (Conflict (''Recherche d'' @ [CHR 0xE9] @ ''sactiv'' @ [CHR 0xE9] @ ''e''))
      else if length query < 2 then Inl (Forbidden (''Requ'' @ [CHR 0xEA] @ ''te trop courte''))
      else Inr (os_search sv cfg user query conv limit w))"

definition indexMessageIfEnabled ::
  "search_env \<Rightarrow> config \<Rightarrow> index_doc \<Rightarrow> world \<Rightarrow> (world, unit) res" where
  "indexMessageIfEnabled sv cfg d w =
     (case find (\<lambda>c. cv_id c = ix_conversationId d) (w_convs w) of
        None \<Rightarrow> (Inr (), w)
      | Some conv \<Rightarrow> if \<not> cv_searchIndexed conv then (Inr (), w) else os_indexMessage sv cfg d w)"

section \<open>The controller\<close>

definition search_enable ::
  "crypto_env \<Rightarrow> kms \<Rightarrow> search_env \<Rightarrow> (string \<Rightarrow> uuid option) \<Rightarrow> config \<Rightarrow> int \<Rightarrow> auth_user \<Rightarrow> string \<Rightarrow>
   world \<Rightarrow> (world, unit) res" where
  "search_enable env k sv pg_uuid cfg t user raw w =
     guarded (conversation_access_guard pg_uuid t (Some user) (Some raw) None None)
       (\<lambda>(conv, _) w1. enableIndexing env k sv cfg t (cv_id conv) (au_sub user) (au_role user) w1) w"

definition search_disable ::
  "search_env \<Rightarrow> (string \<Rightarrow> uuid option) \<Rightarrow> config \<Rightarrow> int \<Rightarrow> auth_user \<Rightarrow> string \<Rightarrow> world \<Rightarrow>
   (world, unit) res" where
  "search_disable sv pg_uuid cfg t user raw w =
     guarded (conversation_access_guard pg_uuid t (Some user) (Some raw) None None)
       (\<lambda>(conv, _) w1. disableIndexing sv cfg t (cv_id conv) (au_sub user) (au_role user) w1) w"

definition search_get ::
  "(string \<Rightarrow> bool) \<Rightarrow> search_env \<Rightarrow> config \<Rightarrow> auth_user \<Rightarrow> string \<Rightarrow> string option \<Rightarrow> world \<Rightarrow>
   exn + search_hit list \<times> nat" where
  "search_get is_uuid sv cfg user q conv w =
     (if length q < 2 \<or> length q > 200 \<or> (case conv of None \<Rightarrow> False | Some c \<Rightarrow> \<not> is_uuid c)
      then Inl (BadRequest ''Bad Request'')
      else search_search sv cfg (au_sub user) q conv None w)"

section \<open>The index as a document store\<close>

locale document_store =
  fixes put :: "'d \<Rightarrow> 's \<Rightarrow> 's"
    and look :: "'s \<Rightarrow> 'k \<Rightarrow> 'd option"
    and key :: "'d \<Rightarrow> 'k"
  assumes look_put: "look (put d s) k = (if k = key d then Some d else look s k)"
begin

lemma look_puts_other: "k \<notin> key ` set ds \<Longrightarrow> look (fold put ds s) k = look s k"
  by (induction ds arbitrary: s) (auto simp: look_put)

lemma look_puts: "distinct (map key ds) \<Longrightarrow> d \<in> set ds \<Longrightarrow> look (fold put ds s) (key d) = Some d"
  by (induction ds arbitrary: s) (auto simp: look_puts_other look_put)

end

definition look_doc :: "index_doc list \<Rightarrow> uuid \<Rightarrow> index_doc option" where
  "look_doc ds i = find (\<lambda>d. ix_messageId d = i) ds"

interpretation docs: document_store put_doc look_doc ix_messageId
proof
  fix d :: index_doc and s :: "index_doc list" and k
  have "find (\<lambda>x. ix_messageId x = k) (filter (\<lambda>x. ix_messageId x \<noteq> ix_messageId d) s)
      = (if k = ix_messageId d then None else find (\<lambda>x. ix_messageId x = k) s)"
    by (induction s) auto
  then show "look_doc (put_doc d s) k = (if k = ix_messageId d then Some d else look_doc s k)"
    by (simp add: look_doc_def put_doc_def find_append split: option.split)
qed

section \<open>Facts\<close>

lemma db_search_decrypt: "db (snd (search_decrypt env k t m w)) = db w"
  by (simp add: search_decrypt_def split: option.splits sum.splits prod.splits)

lemma search_decrypt_index: "w_index (snd (search_decrypt env k t m w)) = w_index w"
  using db_eqD(18) [OF db_search_decrypt] .

lemma search_decrypt_ready: "w_indexReady (snd (search_decrypt env k t m w)) = w_indexReady w"
  by (simp add: search_decrypt_def split: option.splits sum.splits prod.splits)

lemma search_decrypt_body: "truthy (ms_body m) \<Longrightarrow> search_decrypt env k t m w = (the (ms_body m), w)"
  by (cases "ms_body m") (simp_all add: search_decrypt_def)

lemma os_indexMessage_Inr:
  assumes "os_indexMessage sv cfg d w = (Inr (), w')" "os_isEnabled cfg w"
  shows "w' = w\<lparr>w_index := put_doc d (w_index w)\<rparr>"
  using assms by (simp add: os_indexMessage_def split: if_splits)

lemma inv_os_indexMessage [inv_intros]: "inv w \<Longrightarrow> inv (snd (os_indexMessage sv cfg d w))"
  by (simp add: os_indexMessage_def)

lemma inv_search_decrypt: "inv (snd (search_decrypt env k t m w)) = inv w"
  by (rule inv_db [OF db_search_decrypt])

lemma backfill_inv [inv_intros]: "inv w \<Longrightarrow> inv (snd (backfill env k sv cfg t c pids ms w))"
proof (induction ms arbitrary: w)
  case (Cons m ms)
  obtain content w1 where sd: "search_decrypt env k t m w = (content, w1)" by fastforce
  have w1: "inv w1" using inv_search_decrypt [of env k t m w] Cons.prems sd by simp
  show ?case
  proof (cases "os_indexMessage sv cfg (message_doc c pids m content) w1")
    case (Pair r w2)
    with inv_os_indexMessage [OF w1, of sv cfg "message_doc c pids m content"] have "inv w2" by simp
    with Pair sd w1 Cons.IH show ?thesis by (cases r) simp_all
  qed
qed simp

lemma backfill_convs: "w_convs (snd (backfill env k sv cfg t c pids ms w)) = w_convs w"
proof (induction ms arbitrary: w)
  case (Cons m ms)
  obtain content w1 where sd: "search_decrypt env k t m w = (content, w1)" by fastforce
  have w1: "w_convs w1 = w_convs w" using db_eqD(3) [OF db_search_decrypt [of env k t m w]] sd by simp
  show ?case
  proof (cases "os_indexMessage sv cfg (message_doc c pids m content) w1")
    case (Pair r w2)
    then have "w_convs w2 = w_convs w1" by (auto simp: os_indexMessage_def split: if_splits)
    with Pair sd w1 Cons.IH show ?thesis by (cases r) simp_all
  qed
qed simp

lemma set_indexed_inv [inv_intros]: "inv w \<Longrightarrow> inv (set_indexed c b at w)"
  unfolding set_indexed_def by (rule inv_update_convs) simp_all

lemma enableIndexing_inv [inv_intros]:
  assumes "inv w"
  shows "inv (snd (enableIndexing env k sv cfg t c u r w))"
proof (cases "assertCanAccess t u r c w")
  case (Pair g w1)
  with assertCanAccess_inv [OF assms, of t u r c] have w1: "inv w1" by simp
  with Pair show ?thesis
    using backfill_inv [OF w1, of env k sv cfg t c "map pt_userId (listParticipants c w1)" "indexed_messages c w1"]
    by (auto simp: enableIndexing_def Let_def split: sum.splits prod.splits intro!: set_indexed_inv)
qed

lemma disableIndexing_inv [inv_intros]:
  assumes "inv w"
  shows "inv (snd (disableIndexing sv cfg t c u r w))"
proof (cases "assertCanAccess t u r c w")
  case (Pair g w1)
  with assertCanAccess_inv [OF assms, of t u r c] have "inv w1" by simp
  with Pair set_indexed_inv [of w1 c False None] show ?thesis
    by (auto simp: disableIndexing_def os_deleteByConversation_def split: sum.splits)
qed

lemma backfill_Inr:
  assumes "backfill env k sv cfg t c pids ms w = (Inr (), w')" "os_isEnabled cfg w"
  shows "\<exists>ds. w_index w' = fold put_doc ds (w_index w) \<and> ix_messageId ` set ds \<subseteq> ms_id ` set ms
    \<and> (distinct (map ms_id ms) \<longrightarrow> distinct (map ix_messageId ds))
    \<and> (\<forall>m \<in> set ms. truthy (ms_body m) \<longrightarrow> message_doc c pids m (the (ms_body m)) \<in> set ds)"
  using assms
proof (induction ms arbitrary: w)
  case (Cons m ms)
  obtain content w1 where sd: "search_decrypt env k t m w = (content, w1)" by fastforce
  have w1: "w_index w1 = w_index w" "os_isEnabled cfg w1"
    using search_decrypt_index [of env k t m w] search_decrypt_ready [of env k t m w] sd Cons.prems(2)
    by (simp_all add: os_isEnabled_def)
  have body: "truthy (ms_body m) \<Longrightarrow> content = the (ms_body m) \<and> content \<noteq> []"
    using sd search_decrypt_body [of m env k t w] by (cases "ms_body m") auto
  show ?case
  proof (cases "content = []")
    case True
    with Cons.prems(1) sd have "backfill env k sv cfg t c pids ms w1 = (Inr (), w')" by simp
    from Cons.IH [OF this w1(2)] body True show ?thesis unfolding w1(1)
      by (elim exE) (rule exI, auto)
  next
    case False
    with Cons.prems(1) sd obtain w2 where
      ix: "os_indexMessage sv cfg (message_doc c pids m content) w1 = (Inr (), w2)"
      and rest: "backfill env k sv cfg t c pids ms w2 = (Inr (), w')"
      by (auto split: sum.splits prod.splits)
    note w2 = os_indexMessage_Inr [OF ix w1(2)]
    have "os_isEnabled cfg w2" using w1(2) by (simp add: w2 os_isEnabled_def)
    from Cons.IH [OF rest this] obtain ds where ds: "w_index w' = fold put_doc ds (w_index w2)"
      "ix_messageId ` set ds \<subseteq> ms_id ` set ms"
      "distinct (map ms_id ms) \<longrightarrow> distinct (map ix_messageId ds)"
      "\<forall>m \<in> set ms. truthy (ms_body m) \<longrightarrow> message_doc c pids m (the (ms_body m)) \<in> set ds" by blast
    have id: "ix_messageId (message_doc c pids m content) = ms_id m" by (simp add: message_doc_def)
    have "w_index w' = fold put_doc (message_doc c pids m content # ds) (w_index w)"
      using ds(1) w1(1) by (simp add: w2)
    moreover have "ix_messageId ` set (message_doc c pids m content # ds) \<subseteq> ms_id ` set (m # ms)"
      using ds(2) id by auto
    moreover have "distinct (map ms_id (m # ms)) \<longrightarrow>
        distinct (map ix_messageId (message_doc c pids m content # ds))"
      using ds(2,3) id by auto
    moreover have "\<forall>x \<in> set (m # ms). truthy (ms_body x) \<longrightarrow>
        message_doc c pids x (the (ms_body x)) \<in> set (message_doc c pids m content # ds)"
      using ds(4) body by auto
    ultimately show ?thesis by blast
  qed
qed (intro exI [of _ "[]"], simp)

lemma enableIndexing_Inr:
  assumes "enableIndexing env k sv cfg t c u r w = (Inr (), w')"
  obtains conv pr w1 w2 where "assertCanAccess t u r c w = (Inr (conv, pr), w1)" "os_isEnabled cfg w1"
    "\<not> cv_searchIndexed conv" "w_index w' = w_index w2"
    "backfill env k sv cfg t c (map pt_userId (listParticipants c w1)) (indexed_messages c w1) w1 = (Inr (), w2)"
    "w_convs w' = w_convs (set_indexed c True (Some t) w2)"
proof -
  obtain g w1 where a: "assertCanAccess t u r c w = (g, w1)" by fastforce
  with assms obtain conv pr where g: "g = Inr (conv, pr)"
    by (cases g) (auto simp: enableIndexing_def)
  have en: "\<not> cv_searchIndexed conv" "os_isEnabled cfg w1"
    using assms a g by (simp_all add: enableIndexing_def split: if_splits)
  with assms a g obtain w2 where
    "backfill env k sv cfg t c (map pt_userId (listParticipants c w1)) (indexed_messages c w1) w1 = (Inr (), w2)"
    "w' = audit_log (mk_audit u ''search.enabled'' ''conversation'' c
       (Some [(''backfilled'', JNum (int (length (indexed_messages c w1))))])) (set_indexed c True (Some t) w2)"
    by (auto simp: enableIndexing_def Let_def split: sum.splits prod.splits)
  with a g en show thesis by (intro that [of conv pr w1 w2]) (simp_all add: set_indexed_def)
qed

lemma assertCanAccess_parts:
  assumes "assertCanAccess t u r c w = (Inr g, w1)"
  shows "w_parts w1 = w_parts w \<or> (\<exists>p. w_parts w1 = save_part p (w_parts w))"
  using assms by (auto simp: assertCanAccess_def split: sum.splits option.splits if_splits)

lemma msg_ids_distinct: "clash_free msg_clash rows \<Longrightarrow> distinct (map ms_id (filter p rows))"
proof (induction rows)
  case (Cons m rows)
  then show ?case by (auto simp: clash_free_def msg_clash_def)
qed simp

section \<open>Properties\<close>

text \<open>
  C37: a search returns messages only of conversations the engine holds him to be a participant
  of: every hit stems from an indexed document that names the user, matches the query and
  lies in the asked conversation; at most 20 hits, newest first.
\<close>

theorem search_only_participants:
  assumes "search_get is_uuid sv cfg user q conv w = Inr (hits, n)"
  shows "(\<forall>h \<in> set hits. \<exists>d \<in> set (w_index w). h = to_hit sv q d \<and> au_sub user \<in> set (ix_participants d)
      \<and> sv_match sv q (ix_content d) \<and> (truthy conv \<longrightarrow> hi_conversationId h = the conv))
    \<and> length hits \<le> 20 \<and> sorted_wrt (\<ge>) (map hi_createdAt hits)"
proof -
  define docs where "docs = take 20 (sort_key (\<lambda>d. - ix_createdAt d) (search_docs sv (au_sub user) q conv w))"
  from assms have hits: "hits = map (to_hit sv q) docs"
    by (auto simp: search_get_def search_search_def os_search_def docs_def Let_def split: if_splits)
  have "set docs \<subseteq> set (search_docs sv (au_sub user) q conv w)"
    unfolding docs_def by (metis set_sort set_take_subset)
  then have "\<forall>d \<in> set docs. d \<in> set (w_index w) \<and> au_sub user \<in> set (ix_participants d)
      \<and> sv_match sv q (ix_content d) \<and> (truthy conv \<longrightarrow> ix_conversationId d = the conv)"
    by (auto simp: search_docs_def)
  moreover have "sorted_wrt (\<ge>) (map ix_createdAt docs)"
  proof -
    have "sorted (map (\<lambda>d. - ix_createdAt d) docs)"
      unfolding docs_def take_map [symmetric] by (rule sorted_wrt_take) simp
    then show ?thesis by (simp add: sorted_wrt_map)
  qed
  moreover have "hi_createdAt (to_hit sv q d) = ix_createdAt d"
    "hi_conversationId (to_hit sv q d) = ix_conversationId d" for d by (simp_all add: to_hit_def)
  ultimately show ?thesis unfolding hits by (auto simp: docs_def sorted_wrt_map)
qed

definition sample_engine :: search_env where
  "sample_engine = \<lparr>sv_index_ok = \<lambda>_. True, sv_delete_ok = \<lambda>_. True,
     sv_match = \<lambda>q c. True, sv_highlight = \<lambda>q c. [c]\<rparr>"

definition search_config :: config where
  "search_config = default_config\<lparr>cf_searchEnabled := True, cf_encryptBody := False\<rparr>"

definition sample_indexed :: world where
  "sample_indexed = sample_world\<lparr>w_indexReady := True, w_index := [\<lparr>ix_messageId = m_one,
     ix_conversationId = c_one, ix_sequence = 1, ix_senderId = u_alice, ix_createdAt = 5,
     ix_content = ''abc'', ix_participants = [u_alice, u_bob]\<rparr>]\<rparr>"

theorem search_only_participants_witness:
  "\<exists>h n. search_get (\<lambda>_. True) sample_engine search_config
     \<lparr>au_sub = u_bob, au_role = Seller, au_email = []\<rparr> ''ab'' None sample_indexed = Inr ([h], n)
     \<and> (\<exists>d \<in> set (w_index sample_indexed). h = to_hit sample_engine ''ab'' d)"
proof -
  have "\<exists>h n. search_get (\<lambda>_. True) sample_engine search_config
     \<lparr>au_sub = u_bob, au_role = Seller, au_email = []\<rparr> ''ab'' None sample_indexed = Inr ([h], n)"
    by (simp add: search_get_def search_search_def os_isEnabled_def search_config_def
        sample_indexed_def os_search_def search_docs_def sample_engine_def Let_def)
  then show ?thesis using search_only_participants by fastforce
qed

text \<open>
  enabling the search indexes the text of every message that is not deleted, for all who
  are or were participants, and marks the conversation; a message masked by the moderation is
  no exception.
\<close>

theorem enabling_indexes_hidden:
  assumes "enableIndexing env k sv cfg t c u r w = (Inr (), w')" "inv w"
    and "m \<in> set (w_msgs w)" "ms_conversationId m = c" "ms_deletedAt m = None" "truthy (ms_body m)"
  shows "\<exists>d. look_doc (w_index w') (ms_id m) = Some d \<and> ix_content d = the (ms_body m)
    \<and> (\<forall>p \<in> set (w_parts w). pt_conversationId p = c \<longrightarrow> pt_userId p \<in> set (ix_participants d))
    \<and> (\<forall>cv \<in> set (w_convs w'). cv_id cv = c \<longrightarrow> cv_searchIndexed cv)"
proof -
  from assms(1) obtain conv pr w1 w2 where s: "assertCanAccess t u r c w = (Inr (conv, pr), w1)"
    "os_isEnabled cfg w1" "\<not> cv_searchIndexed conv" "w_index w' = w_index w2"
    "backfill env k sv cfg t c (map pt_userId (listParticipants c w1)) (indexed_messages c w1) w1 = (Inr (), w2)"
    "w_convs w' = w_convs (set_indexed c True (Some t) w2)" by (rule enableIndexing_Inr)
  let ?pids = "map pt_userId (listParticipants c w1)"
  have ma: "may_access u r c w" using s(1) assertCanAccess_denied [of u r c w t] by auto
  have frame: "access_frame w w1" using assertCanAccess_granted [OF ma, of t] s(1) by auto
  have keep: "\<exists>q \<in> set (w_parts w1). pt_conversationId q = pt_conversationId p \<and> pt_userId q = pt_userId p"
    if "p \<in> set (w_parts w)" for p
    using assertCanAccess_parts [OF s(1)] save_part_keeps that by metis
  have m: "m \<in> set (indexed_messages c w1)"
    using assms(3-5) access_frameD(2) [OF frame] by (simp add: indexed_messages_def)
  have "distinct (map ms_id (indexed_messages c w1))"
    using msg_ids_distinct [OF inv_tables(5) [OF assms(2)]] access_frameD(2) [OF frame]
    by (simp add: indexed_messages_def distinct_map)
  with backfill_Inr [OF s(5,2)] m assms(6) obtain ds where
    ds: "w_index w2 = fold put_doc ds (w_index w1)" "distinct (map ix_messageId ds)"
      "message_doc c ?pids m (the (ms_body m)) \<in> set ds" by blast
  from docs.look_puts [OF ds(2,3), of "w_index w1"]
  have "look_doc (w_index w') (ms_id m) = Some (message_doc c ?pids m (the (ms_body m)))"
    by (simp add: s(4) ds(1)) (simp add: message_doc_def)
  moreover have "pt_userId p \<in> set ?pids" if "p \<in> set (w_parts w)" "pt_conversationId p = c" for p
    using keep [OF that(1)] that(2) by (auto simp: listParticipants_def image_iff)
  moreover have "cv_searchIndexed cv" if "cv \<in> set (w_convs w')" "cv_id cv = c" for cv
  proof -
    have "cv \<in> set (update_rows (\<lambda>x. cv_id x = c)
        (\<lambda>x. x\<lparr>cv_searchIndexed := True, cv_searchIndexedAt := Some t\<rparr>) (w_convs w2))"
      using that(1) by (simp add: s(6) set_indexed_def)
    then obtain c0 where "cv = (if cv_id c0 = c
        then c0\<lparr>cv_searchIndexed := True, cv_searchIndexedAt := Some t\<rparr> else c0)"
      by (rule in_update_rowsE)
    with that(2) show ?thesis by (simp split: if_splits)
  qed
  moreover have "ix_content (message_doc c ?pids m b) = b" "ix_participants (message_doc c ?pids m b) = ?pids"
    for b by (simp_all add: message_doc_def)
  ultimately show ?thesis by metis
qed

definition hidden_world :: world where
  "hidden_world = sample_world\<lparr>w_indexReady := True,
     w_convs := [(sample_conv c_one o_one)\<lparr>cv_lastSequence := 1\<rparr>],
     w_msgs := [(sample_msg None)\<lparr>ms_status := Hidden\<rparr>]\<rparr>"

lemma inv_hidden_world: "inv hidden_world"
proof -
  have "schema_ok hidden_world"
    using schema_ok_sample by (simp add: schema_ok_def hidden_world_def clash_free_def)
  moreover have "seq_ok hidden_world"
    by (simp add: seq_ok_def hidden_world_def msgs_of_def sample_msg_def new_message_def
        sample_input_def sample_conv_def)
  ultimately show ?thesis by (simp add: inv_def)
qed

theorem enabling_indexes_hidden_witness:
  "\<exists>w' d. enableIndexing toy_env (Local_kms toy_kms) sample_engine search_config 9 c_one u_bob Seller
       hidden_world = (Inr (), w')
     \<and> look_doc (w_index w') m_one = Some d \<and> ix_content d = ''a'' \<and> u_alice \<in> set (ix_participants d)"
proof -
  have "\<exists>x w'. enableIndexing toy_env (Local_kms toy_kms) sample_engine search_config 9 c_one u_bob
      Seller hidden_world = (Inr x, w')"
    by (rule run_Inr) code_simp
  then obtain w' where en: "enableIndexing toy_env (Local_kms toy_kms) sample_engine search_config 9
      c_one u_bob Seller hidden_world = (Inr (), w')" by auto
  let ?m = "(sample_msg None)\<lparr>ms_status := Hidden\<rparr>"
  have m: "?m \<in> set (w_msgs hidden_world)" "ms_conversationId ?m = c_one" "ms_deletedAt ?m = None"
    "ms_body ?m = Some ''a''" "ms_id ?m = m_one"
    by (simp_all add: hidden_world_def sample_msg_def new_message_def sample_input_def
        sample_plain_def sample_entropy_def)
  have p: "sample_part c_one u_alice Customer \<in> set (w_parts hidden_world)"
    by (simp add: hidden_world_def sample_world_def)
  from enabling_indexes_hidden [OF en inv_hidden_world m(1-3)] m(4,5) obtain d where
    d: "look_doc (w_index w') m_one = Some d" "ix_content d = ''a''"
    "\<forall>p \<in> set (w_parts hidden_world). pt_conversationId p = c_one \<longrightarrow> pt_userId p \<in> set (ix_participants d)"
    by auto
  from d(3) p have "u_alice \<in> set (ix_participants d)" by (auto simp: sample_part_def)
  with en d(1,2) show ?thesis by blast
qed

end
