(* ===== verification/Outbox.thy ===== *)
theory Outbox
  imports Search Presence
begin

text \<open>
  Delivery of events: \<open>EmailService\<close>, \<open>NotificationsService\<close>, \<open>NatsService\<close> and
  \<open>OutboxWorker\<close> (backend/src/modules/notifications, nats, outbox).

  \<open>delivery_env\<close> says which publications JetStream acknowledges (\<open>w_nats\<close> holds those it
  has, before its own deduplication by message identifier) and holds the search engine.
  A batch runs in a transaction that locks its rows, so it is one step; \<open>locked\<close> are the rows
  that other workers hold (\<open>SKIP LOCKED\<close>). The updates of the outbox inside the transaction
  do not fail. The dashes of the mail's text are written as character 0x97.
\<close>

section \<open>E-mail\<close>

definition email_send :: "config \<Rightarrow> mail \<Rightarrow> world \<Rightarrow> (world, unit) res" where
  "email_send cfg ml w =
     (if cf_emailDriverLog cfg then (Inr (), w\<lparr>w_mails := w_mails w @ [ml]\<rparr>)
      else (Inl (JsError (''EMAIL_DRIVER non impl'' @ [CHR 0xE9] @ ''ment'' @ [CHR 0xE9])), w))"

definition newline :: string where "newline = [CHR 0x0A]"

definition new_message_mail :: "config \<Rightarrow> conv_row \<Rightarrow> user_row \<Rightarrow> mail" where
  "new_message_mail cfg conv u =
     (let subj = coalesce (cv_subject conv) ''votre commande''
      in \<lparr>ml_to = us_email u, ml_subject = ''Nouveau message '' @ [CHR 0x97] @ '' '' @ subj,
          ml_text = ''Bonjour,'' @ newline @ newline @ ''Vous avez re'' @ [CHR 0xE7]
            @ ''u un nouveau message concernant '' @ subj @ ''.'' @ newline @ ''Connectez-vous : ''
            @ cf_appUrl cfg @ ''/conversations/'' @ cv_id conv @ newline @ newline @ [CHR 0x97]
            @ '' L'' @ [CHR 0x27] @ [CHR 0xE9] @ ''quipe''\<rparr>)"

definition dedup_key :: "uuid \<Rightarrow> uuid \<Rightarrow> string" where
  "dedup_key mid u = ''new_message:'' @ mid @ '':'' @ u"

definition recently_mailed :: "config \<Rightarrow> int \<Rightarrow> uuid \<Rightarrow> uuid \<Rightarrow> world \<Rightarrow> bool" where
  "recently_mailed cfg t u c w \<longleftrightarrow>
     list_ex (\<lambda>e. em_userId e = u \<and> em_conversationId e = Some c \<and> em_kind e = ''new_message''
        \<and> em_sentAt e > t - cf_emailThrottleMinutes cfg * 60000) (w_emails w)"

definition notify_user :: "config \<Rightarrow> int \<Rightarrow> uuid \<Rightarrow> conv_row \<Rightarrow> user_row \<Rightarrow> world \<Rightarrow> (world, unit) res" where
  "notify_user cfg t mid conv u w =
     (if us_isSuspended u \<or> us_anonymizedAt u \<noteq> None then (Inr (), w)
      else if recently_mailed cfg t (us_id u) (cv_id conv) w then (Inr (), w)
      else (case email_send cfg (new_message_mail cfg conv u) w of
              (Inl e, w1) \<Rightarrow> if e = DbError ''23505'' then (Inr (), w1) else (Inl e, w1)
            | (Inr _, w1) \<Rightarrow>
                (case insert_row email_clash
                    \<lparr>em_userId = us_id u, em_conversationId = Some (cv_id conv),
                     em_kind = ''new_message'', em_sentAt = t,
                     em_dedupKey = dedup_key mid (us_id u)\<rparr> (w_emails w1) of
                   Inl e \<Rightarrow> if e = DbError ''23505'' then (Inr (), w1) else (Inl e, w1)
                 | Inr rows \<Rightarrow> (Inr (), w1\<lparr>w_emails := rows\<rparr>))))"

fun notify_users ::
  "config \<Rightarrow> int \<Rightarrow> uuid \<Rightarrow> conv_row \<Rightarrow> user_row list \<Rightarrow> world \<Rightarrow> (world, unit) res" where
  "notify_users cfg t mid conv [] w = (Inr (), w)"
| "notify_users cfg t mid conv (u # us) w =
     (case notify_user cfg t mid conv u w of
        (Inl e, w1) \<Rightarrow> (Inl e, w1)
      | (Inr _, w1) \<Rightarrow> notify_users cfg t mid conv us w1)"

definition notifyNewMessage ::
  "config \<Rightarrow> int \<Rightarrow> uuid \<Rightarrow> uuid \<Rightarrow> uuid list \<Rightarrow> world \<Rightarrow> (world, unit) res" where
  "notifyNewMessage cfg t mid c ids w =
     (case find (\<lambda>x. cv_id x = c) (w_convs w) of
        None \<Rightarrow> (Inr (), w)
      | Some conv \<Rightarrow>
          notify_users cfg t mid conv (filter (\<lambda>u. us_id u \<in> set ids) (w_users w)) w)"

section \<open>NATS\<close>

record delivery_env =
  dv_publish_ok :: "nats_msg \<Rightarrow> bool"
  dv_search :: search_env

definition nats_isEnabled :: "config \<Rightarrow> world \<Rightarrow> bool" where
  "nats_isEnabled cfg w \<longleftrightarrow> cf_natsEnabled cfg \<and> w_natsReady w"

definition nats_publish ::
  "delivery_env \<Rightarrow> string \<Rightarrow> payload \<Rightarrow> uuid \<Rightarrow> world \<Rightarrow> (world, bool) res" where
  "nats_publish dv type pl i w =
     (if \<not> w_natsReady w then (Inr False, w)
      else (let m = \<lparr>na_subject = ''messaging.events.'' @ type, na_msgId = i, na_data = pl\<rparr>
            in if dv_publish_ok dv m then (Inr True, w\<lparr>w_nats := w_nats w @ [m]\<rparr>)
               else (Inl (JsError ''NATS''), w)))"

section \<open>The worker\<close>

definition onMessageCreated :: "config \<Rightarrow> int \<Rightarrow> created_payload \<Rightarrow> world \<Rightarrow> (world, unit) res" where
  "onMessageCreated cfg t cp w =
     (if cp_recipients cp = [] then (Inr (), w)
      else (let online = areOnline t (cp_recipients cp) w;
                offline = filter (\<lambda>u. online u \<noteq> Some True) (cp_recipients cp)
            in if offline = [] then (Inr (), w)
               else notifyNewMessage cfg t (cp_messageId cp) (cp_conversationId cp) offline w))"

definition event_doc :: "created_payload \<Rightarrow> index_doc" where
  "event_doc cp =
     \<lparr>ix_messageId = cp_messageId cp, ix_conversationId = cp_conversationId cp,
      ix_sequence = cp_sequence cp, ix_senderId = cp_senderId cp, ix_createdAt = cp_createdAt cp,
      ix_content = cp_body cp, ix_participants = cp_senderId cp # cp_recipients cp\<rparr>"

text \<open>A failure of the search engine is logged and swallowed.\<close>

definition consume_event ::
  "delivery_env \<Rightarrow> config \<Rightarrow> int \<Rightarrow> outbox_row \<Rightarrow> world \<Rightarrow> (world, unit) res" where
  "consume_event dv cfg t r w =
     (case ob_payload r of
        ReadUpto _ _ _ \<Rightarrow> (Inr (), w)
      | Created cp \<Rightarrow>
          if ob_eventType r \<noteq> ''message.created'' then (Inr (), w)
          else (case onMessageCreated cfg t cp w of
                  (Inl e, w1) \<Rightarrow> (Inl e, w1)
                | (Inr _, w1) \<Rightarrow>
                    (Inr (), snd (indexMessageIfEnabled (dv_search dv) cfg (event_doc cp) w1))))"

definition outbox_handle ::
  "delivery_env \<Rightarrow> config \<Rightarrow> int \<Rightarrow> outbox_row \<Rightarrow> world \<Rightarrow> (world, unit) res" where
  "outbox_handle dv cfg t r w =
     (if nats_isEnabled cfg w then
        (case nats_publish dv (ob_eventType r) (ob_payload r) (ob_id r) w of
           (Inl e, w1) \<Rightarrow> (Inl e, w1)
         | (Inr _, w1) \<Rightarrow>
             consume_event dv cfg t r
               (metrics_count cfg t ''NatsPublished'' 1 (Some [(''event_type'', ob_eventType r)]) w1))
      else consume_event dv cfg t r w)"

fun exn_message :: "exn \<Rightarrow> string" where
  "exn_message (Forbidden m) = m"
| "exn_message (NotFound m) = m"
| "exn_message (Conflict m) = m"
| "exn_message (BadRequest m) = m"
| "exn_message (Unauthorized m) = m"
| "exn_message (DbError m) = m"
| "exn_message (JsError m) = m"

definition backoff_sec :: "nat \<Rightarrow> int" where
  "backoff_sec attempts = min (60 * 60) (2 ^ attempts)"

text \<open>The two updates; \<open>n\<close> is the number of attempts read with the row.\<close>

definition settle :: "int \<Rightarrow> exn option \<Rightarrow> nat \<Rightarrow> outbox_row \<Rightarrow> outbox_row" where
  "settle t failure n r =
     (case failure of
        None \<Rightarrow> r\<lparr>ob_processedAt := Some t, ob_lastError := None\<rparr>
      | Some e \<Rightarrow> r\<lparr>ob_attempts := n + 1,
                   ob_nextAttemptAt := t + backoff_sec (n + 1) * 1000,
                   ob_lastError := Some (take 1000 (exn_message e))\<rparr>)"

fun process_rows ::
  "(outbox_row \<Rightarrow> world \<Rightarrow> (world, unit) res) \<Rightarrow> config \<Rightarrow> int \<Rightarrow> outbox_row list \<Rightarrow> world \<Rightarrow> world" where
  "process_rows handle cfg t [] w = w"
| "process_rows handle cfg t (r # rs) w =
     (case handle r w of
        (Inr _, w1) \<Rightarrow>
          process_rows handle cfg t rs
            (w1\<lparr>w_outbox := update_rows (\<lambda>x. ob_id x = ob_id r) (settle t None (ob_attempts r)) (w_outbox w1)\<rparr>)
      | (Inl e, w1) \<Rightarrow>
          process_rows handle cfg t rs
            (metrics_count cfg t ''OutboxFailure'' 1 (Some [(''event_type'', ob_eventType r)])
              (w1\<lparr>w_outbox := update_rows (\<lambda>x. ob_id x = ob_id r) (settle t (Some e) (ob_attempts r)) (w_outbox w1)\<rparr>)))"

definition waiting :: "int \<Rightarrow> (uuid \<Rightarrow> bool) \<Rightarrow> world \<Rightarrow> outbox_row list" where
  "waiting t locked w =
     filter (\<lambda>r. ob_processedAt r = None \<and> ob_nextAttemptAt r \<le> t \<and> \<not> locked (ob_id r)) (w_outbox w)"

definition due_rows :: "int \<Rightarrow> (uuid \<Rightarrow> bool) \<Rightarrow> nat \<Rightarrow> world \<Rightarrow> outbox_row list" where
  "due_rows t locked n w = take n (sort_key ob_createdAt (waiting t locked w))"

definition processBatch ::
  "delivery_env \<Rightarrow> config \<Rightarrow> int \<Rightarrow> (uuid \<Rightarrow> bool) \<Rightarrow> nat \<Rightarrow> world \<Rightarrow> nat \<times> world" where
  "processBatch dv cfg t locked n w =
     (let rows = due_rows t locked n w
      in (length rows, process_rows (outbox_handle dv cfg t) cfg t rows w))"

text \<open>One tick of the loop, with the delay in milliseconds before the next one.\<close>

definition outbox_tick ::
  "delivery_env \<Rightarrow> config \<Rightarrow> int \<Rightarrow> (uuid \<Rightarrow> bool) \<Rightarrow> world \<Rightarrow> nat \<times> world" where
  "outbox_tick dv cfg t locked w =
     (let (processed, w1) = processBatch dv cfg t locked 20 w
      in (if processed = 0 then 1500 else 50,
          if processed > 0 then metrics_count cfg t ''OutboxProcessed'' (int processed) None w1 else w1))"

text \<open>The age of the oldest waiting event in seconds, rounded as PostgreSQL's cast does.\<close>

definition publishLagMetric :: "config \<Rightarrow> int \<Rightarrow> world \<Rightarrow> world" where
  "publishLagMetric cfg t w =
     (let waiting = map ob_createdAt (filter (\<lambda>r. ob_processedAt r = None) (w_outbox w));
          lag = (if waiting = [] then 0 else (t - Min (set waiting) + 500) div 1000)
      in metrics_gauge cfg t ''OutboxLagSeconds'' lag ''Seconds'' w)"

section \<open>What the parts leave alone\<close>

text \<open>Delivery writes the mail log, its table, the index, NATS and metrics only.\<close>

definition delivers :: "world \<Rightarrow> world \<Rightarrow> bool" where
  "delivers w w' \<longleftrightarrow> w_outbox w' = w_outbox w \<and> w_natsReady w' = w_natsReady w
     \<and> w_presence w' = w_presence w \<and> set (w_nats w) \<subseteq> set (w_nats w') \<and> (inv w \<longrightarrow> inv w')"

lemma delivers_refl [simp]: "delivers w w"
  by (simp add: delivers_def)

lemma delivers_trans: "delivers a b \<Longrightarrow> delivers b c \<Longrightarrow> delivers a c"
  by (auto simp: delivers_def)

lemma metrics_count_flags [simp]:
  "w_natsReady (metrics_count cfg t n v d w) = w_natsReady w"
  "w_presence (metrics_count cfg t n v d w) = w_presence w"
  by (simp_all add: metrics_count_def metrics_push_def metrics_flush_def Let_def)

lemma delivers_metrics [simp]: "delivers w (metrics_count cfg t n v d w)"
  unfolding delivers_def by (simp add: db_eqD(7,17) [OF db_metrics(1)])

lemma inv_mail_email:
  assumes "inv w" "insert_row email_clash e (w_emails w) = Inr rows"
  shows "inv (w\<lparr>w_mails := ms, w_emails := rows\<rparr>)"
proof -
  have "inv (w\<lparr>w_emails := rows\<rparr>)"
    using inv_table(7) [OF assms(1)] insert_row_clash_free [OF assms(2) inv_tables(9) [OF assms(1)]] .
  then show ?thesis using inv_frame [of "w\<lparr>w_mails := ms, w_emails := rows\<rparr>" "w\<lparr>w_emails := rows\<rparr>"] by simp
qed

lemma notify_user_delivers: "delivers w (snd (notify_user cfg t mid conv u w))"
  by (auto simp: notify_user_def email_send_def delivers_def split: sum.splits intro: inv_mail_email)

lemma notify_users_delivers: "delivers w (snd (notify_users cfg t mid conv us w))"
proof (induction us arbitrary: w)
  case (Cons u us)
  obtain r w1 where n: "notify_user cfg t mid conv u w = (r, w1)" by fastforce
  with notify_user_delivers [of w cfg t mid conv u] have "delivers w w1" by simp
  with n Cons [of w1] show ?case by (cases r) (auto intro: delivers_trans)
qed simp

lemma onMessageCreated_delivers: "delivers w (snd (onMessageCreated cfg t cp w))"
  by (simp add: onMessageCreated_def notifyNewMessage_def Let_def notify_users_delivers split: option.split)

lemma index_delivers: "delivers w (snd (indexMessageIfEnabled sv cfg d w))"
  by (simp add: indexMessageIfEnabled_def os_indexMessage_def delivers_def split: option.split)

lemma consume_event_delivers: "delivers w (snd (consume_event dv cfg t r w))"
proof (cases "ob_payload r")
  case (Created cp)
  obtain q w1 where o: "onMessageCreated cfg t cp w = (q, w1)" by fastforce
  with onMessageCreated_delivers [of w cfg t cp] have "delivers w w1" by simp
  with o Created index_delivers [of w1] show ?thesis
    by (cases q) (auto simp: consume_event_def intro: delivers_trans)
qed (simp add: consume_event_def)

lemma nats_publish_delivers: "delivers w (snd (nats_publish dv ty pl i w))"
  by (auto simp: nats_publish_def delivers_def Let_def)

lemma outbox_handle_delivers: "delivers w (snd (outbox_handle dv cfg t r w))"
proof (cases "nats_isEnabled cfg w")
  case True
  obtain q w1 where p: "nats_publish dv (ob_eventType r) (ob_payload r) (ob_id r) w = (q, w1)" by fastforce
  with nats_publish_delivers [of w dv "ob_eventType r" "ob_payload r" "ob_id r"] have "delivers w w1" by simp
  then have "delivers w (snd (consume_event dv cfg t r (metrics_count cfg t n v d w1)))" for n v d
    using delivers_trans [OF delivers_trans [OF _ delivers_metrics] consume_event_delivers] by blast
  with p True \<open>delivers w w1\<close> show ?thesis by (cases q) (simp_all add: outbox_handle_def)
next
  case False
  then show ?thesis by (simp add: outbox_handle_def consume_event_delivers)
qed

definition published :: "config \<Rightarrow> outbox_row \<Rightarrow> world \<Rightarrow> bool" where
  "published cfg r w \<longleftrightarrow> (nats_isEnabled cfg w \<longrightarrow>
     (\<exists>m \<in> set (w_nats w). na_msgId m = ob_id r \<and> na_data m = ob_payload r))"

lemma delivers_published: "delivers w w' \<Longrightarrow> published cfg r w \<Longrightarrow> published cfg r w'"
  by (auto simp: delivers_def published_def nats_isEnabled_def)

lemma outbox_handle_published:
  assumes "outbox_handle dv cfg t r w = (Inr (), w')"
  shows "published cfg r w'"
proof (cases "nats_isEnabled cfg w")
  case True
  with assms obtain b w1 where p: "nats_publish dv (ob_eventType r) (ob_payload r) (ob_id r) w = (Inr b, w1)"
    and c: "consume_event dv cfg t r (metrics_count cfg t ''NatsPublished'' 1
        (Some [(''event_type'', ob_eventType r)]) w1) = (Inr (), w')"
    by (auto simp: outbox_handle_def split: sum.splits prod.splits)
  have "published cfg r w1"
    using p True by (auto simp: nats_publish_def Let_def published_def nats_isEnabled_def split: if_splits)
  then have "published cfg r (metrics_count cfg t ''NatsPublished'' 1
        (Some [(''event_type'', ob_eventType r)]) w1)"
    by (rule delivers_published [OF delivers_metrics])
  from delivers_published [OF consume_event_delivers this, of dv cfg t r] c show ?thesis by simp
next
  case False
  with outbox_handle_delivers [of w dv cfg t r] assms show ?thesis
    by (auto simp: published_def nats_isEnabled_def delivers_def)
qed

section \<open>At-least-once processing\<close>

text \<open>
  What the batch relies on: a handler leaves the outbox to the worker, leaves a lasting
  effect when it returns, and that effect does not depend on the outbox.
\<close>

locale event_consumer =
  fixes handle :: "outbox_row \<Rightarrow> world \<Rightarrow> (world, unit) res"
    and effect :: "outbox_row \<Rightarrow> world \<Rightarrow> bool"
  assumes handle_delivers: "delivers w (snd (handle r w))"
    and handle_effect: "handle r w = (Inr (), w') \<Longrightarrow> effect r w'"
    and effect_stable: "delivers w w' \<Longrightarrow> effect r w \<Longrightarrow> effect r w'"
    and effect_outbox: "effect r (w\<lparr>w_outbox := rows\<rparr>) = effect r w"
begin

definition settle_row :: "int \<Rightarrow> exn option \<Rightarrow> outbox_row \<Rightarrow> world \<Rightarrow> world" where
  "settle_row t f r w = w\<lparr>w_outbox :=
     update_rows (\<lambda>x. ob_id x = ob_id r) (settle t f (ob_attempts r)) (w_outbox w)\<rparr>"

lemma settle_id [simp]: "ob_id (settle t f n r) = ob_id r"
  by (simp add: settle_def split: option.split)

lemma settle_row_inv: "inv w \<Longrightarrow> inv (settle_row t f r w)"
  unfolding settle_row_def
  by (rule inv_table, assumption, rule clash_free_update)
    (auto simp: outbox_clash_def dest: inv_tables(7) split: if_splits)

lemma process_rows_step:
  obtains f w1 where "process_rows handle cfg t (r # rs) w = process_rows handle cfg t rs w1"
    "w_outbox w1 = w_outbox (settle_row t f r w)" "inv w \<Longrightarrow> inv w1" "f = None \<Longrightarrow> effect r w1"
    "\<And>q. effect q w \<Longrightarrow> effect q w1" "fst (handle r w) = Inr () \<Longrightarrow> f = None"
proof (cases "handle r w")
  case (Pair q w1)
  with handle_delivers [of w r] have d: "delivers w w1" by simp
  show thesis
  proof (cases q)
    case (Inl e)
    let ?w = "metrics_count cfg t ''OutboxFailure'' 1 (Some [(''event_type'', ob_eventType r)])
      (settle_row t (Some e) r w1)"
    have "effect x ?w" if "effect x w" for x
      using effect_stable [OF d that] effect_stable [OF delivers_metrics] effect_outbox
      by (simp add: settle_row_def)
    moreover have "w_outbox ?w = w_outbox (settle_row t (Some e) r w)"
      using d by (simp add: db_eqD(7) [OF db_metrics(1)] settle_row_def delivers_def)
    moreover have "inv w \<Longrightarrow> inv ?w" using d settle_row_inv by (simp add: delivers_def)
    ultimately show thesis using d Pair Inl
      by (intro that [of ?w "Some e"]) (simp_all add: settle_row_def delivers_def)
  next
    case (Inr u)
    let ?w = "settle_row t None r w1"
    have "effect x ?w" if "effect x w" for x
      using effect_stable [OF d that] effect_outbox by (simp add: settle_row_def)
    moreover have "effect r ?w"
      using handle_effect [of r w w1] Pair Inr effect_outbox by (simp add: settle_row_def)
    moreover have "inv w \<Longrightarrow> inv ?w" using d settle_row_inv by (simp add: delivers_def)
    ultimately show thesis using d Pair Inr
      by (intro that [of ?w None]) (simp_all add: settle_row_def delivers_def)
  qed
qed

lemma settle_row_map:
  assumes "distinct (map ob_id (w_outbox w))" "r \<in> set (w_outbox w)"
  shows "w_outbox (settle_row t f r w)
    = map (\<lambda>x. if x = r then settle t f (ob_attempts x) x else x) (w_outbox w)"
proof -
  have "(if ob_id x = ob_id r then settle t f (ob_attempts r) x else x)
      = (if x = r then settle t f (ob_attempts x) x else x)" if "x \<in> set (w_outbox w)" for x
    using distinct_map_inj [OF assms(1) that assms(2)] by auto
  then show ?thesis by (simp add: settle_row_def update_rows_def)
qed

text \<open>Each row of the batch is settled once, by the outcome of its handler; no other changes.\<close>

lemma process_rows_settles:
  assumes "distinct (map ob_id (w_outbox w))" "set rs \<subseteq> set (w_outbox w)" "distinct rs"
  shows "\<exists>f. w_outbox (process_rows handle cfg t rs w)
      = map (\<lambda>x. if x \<in> set rs then settle t (f (ob_id x)) (ob_attempts x) x else x) (w_outbox w)
    \<and> (\<forall>r \<in> set rs. f (ob_id r) = None \<longrightarrow> effect r (process_rows handle cfg t rs w))
    \<and> (\<forall>r. effect r w \<longrightarrow> effect r (process_rows handle cfg t rs w))
    \<and> (inv w \<longrightarrow> inv (process_rows handle cfg t rs w))
    \<and> ((\<forall>r w. fst (handle r w) = Inr ()) \<longrightarrow> (\<forall>i. f i = None))"
  using assms
proof (induction rs arbitrary: w)
  case Nil
  then show ?case by (intro exI [of _ "\<lambda>_. None"]) (simp add: map_idI)
next
  case (Cons r rs)
  obtain g w1 where st: "process_rows handle cfg t (r # rs) w = process_rows handle cfg t rs w1"
    "w_outbox w1 = w_outbox (settle_row t g r w)" "inv w \<Longrightarrow> inv w1" "g = None \<Longrightarrow> effect r w1"
    "\<And>q. effect q w \<Longrightarrow> effect q w1" "fst (handle r w) = Inr () \<Longrightarrow> g = None"
    by (rule process_rows_step [of cfg t r rs w]) blast
  have r: "r \<in> set (w_outbox w)" "r \<notin> set rs" using Cons.prems by auto
  note box = st(2) [unfolded settle_row_map [OF Cons.prems(1) r(1)]]
  have ids: "map ob_id (w_outbox w1) = map ob_id (w_outbox w)" unfolding box by simp
  have sub: "set rs \<subseteq> set (w_outbox w1)"
    using Cons.prems(2) r(2) unfolding box by force
  from Cons.IH [of w1] ids sub Cons.prems obtain f where f:
    "w_outbox (process_rows handle cfg t rs w1)
      = map (\<lambda>x. if x \<in> set rs then settle t (f (ob_id x)) (ob_attempts x) x else x) (w_outbox w1)"
    "\<forall>r \<in> set rs. f (ob_id r) = None \<longrightarrow> effect r (process_rows handle cfg t rs w1)"
    "\<forall>r. effect r w1 \<longrightarrow> effect r (process_rows handle cfg t rs w1)"
    "inv w1 \<longrightarrow> inv (process_rows handle cfg t rs w1)"
    "(\<forall>r w. fst (handle r w) = Inr ()) \<longrightarrow> (\<forall>i. f i = None)" by auto
  have other: "ob_id x \<noteq> ob_id r" if "x \<in> set rs" for x
    using distinct_map_inj [OF Cons.prems(1), of x r] that r Cons.prems(2) by auto
  have new: "settle t g n r \<notin> set rs" for n using other [of "settle t g n r"] by auto
  show ?case
  proof (intro exI [of _ "f(ob_id r := g)"] conjI)
    show "w_outbox (process_rows handle cfg t (r # rs) w)
      = map (\<lambda>x. if x \<in> set (r # rs) then settle t ((f(ob_id r := g)) (ob_id x)) (ob_attempts x) x else x)
          (w_outbox w)"
      unfolding st(1) f(1) box map_map using other new by (intro map_cong) auto
    show "\<forall>q \<in> set (r # rs). (f(ob_id r := g)) (ob_id q) = None \<longrightarrow>
        effect q (process_rows handle cfg t (r # rs) w)"
      using f(2,3) st(1,4) other by auto
  qed (use f st in auto)
qed

end

interpretation worker: event_consumer "outbox_handle dv cfg t" "published cfg" for dv cfg t
  by unfold_locales
    (auto simp: outbox_handle_delivers intro: outbox_handle_published delivers_published,
      auto simp: published_def nats_isEnabled_def)

lemma due_rows_sub:
  "set (due_rows t locked n w) \<subseteq> set (waiting t locked w)" "set (waiting t locked w) \<subseteq> set (w_outbox w)"
  unfolding due_rows_def by (metis set_sort set_take_subset, auto simp: waiting_def)

lemma outbox_ids: "inv w \<Longrightarrow> distinct (map ob_id (w_outbox w))"
proof -
  have "clash_free outbox_clash rows \<Longrightarrow> distinct (map ob_id rows)" for rows
    by (induction rows) (auto simp: clash_free_def outbox_clash_def)
  then show "inv w \<Longrightarrow> distinct (map ob_id (w_outbox w))" using inv_tables(7) by blast
qed

lemma due_rows_distinct: "inv w \<Longrightarrow> distinct (due_rows t locked n w)"
  using outbox_ids [of w] by (auto simp: due_rows_def waiting_def distinct_map)

lemma batch_settles:
  assumes "inv w" "processBatch dv cfg t locked n w = (k, w')"
  obtains f where "k = length (due_rows t locked n w)" "inv w'"
    "w_outbox w' = map (\<lambda>r. if r \<in> set (due_rows t locked n w)
       then settle t (f (ob_id r)) (ob_attempts r) r else r) (w_outbox w)"
    "\<forall>r \<in> set (due_rows t locked n w). f (ob_id r) = None \<longrightarrow> published cfg r w'"
    "\<forall>r. published cfg r w \<longrightarrow> published cfg r w'"
    "(\<forall>r w. fst (outbox_handle dv cfg t r w) = Inr ()) \<longrightarrow> f = (\<lambda>_. None)"
proof -
  have sub: "set (due_rows t locked n w) \<subseteq> set (w_outbox w)" using due_rows_sub by blast
  have w': "k = length (due_rows t locked n w)"
    "w' = process_rows (outbox_handle dv cfg t) cfg t (due_rows t locked n w) w"
    using assms(2) by (simp_all add: processBatch_def Let_def)
  from worker.process_rows_settles [OF outbox_ids [OF assms(1)] sub due_rows_distinct [OF assms(1)],
      where cfg = cfg and cfga = cfg and dv = dv and t = t and ta = t]
  show thesis using that assms(1) unfolding w' by blast
qed

section \<open>Properties\<close>


definition sample_event :: outbox_row where
  "sample_event = new_outbox 5 b_one ''message.created'' c_one
     (Created \<lparr>cp_messageId = m_one, cp_conversationId = c_one, cp_senderId = u_alice,
        cp_sequence = 1, cp_createdAt = 5, cp_body = ''abc'', cp_moderationFlags = None,
        cp_recipients = [u_bob]\<rparr>)"

definition sample_delivery :: delivery_env where
  "sample_delivery = \<lparr>dv_publish_ok = \<lambda>_. True, dv_search = sample_engine\<rparr>"

definition event_world :: world where
  "event_world = sample_world\<lparr>w_outbox := [sample_event], w_natsReady := True\<rparr>"

lemma inv_event_world: "inv event_world"
proof -
  have "schema_ok event_world"
    using schema_ok_sample by (simp add: schema_ok_def event_world_def clash_free_def)
  then show ?thesis by (simp add: inv_def seq_ok_def event_world_def msgs_of_def sample_defs)
qed


text \<open>With a broker and a mail driver that accept everything, no handler fails.\<close>

lemma notify_users_ok: "cf_emailDriverLog cfg \<Longrightarrow> fst (notify_users cfg t mid conv us w) = Inr ()"
proof (induction us arbitrary: w)
  case (Cons u us)
  have "fst (notify_user cfg t mid conv u w) = Inr ()"
    using Cons.prems by (auto simp: notify_user_def email_send_def split: sum.splits dest: insert_row_InlD)
  with Cons show ?case by (auto split: prod.splits sum.splits)
qed simp

lemma outbox_handle_ok:
  assumes "cf_emailDriverLog cfg" "\<And>m. dv_publish_ok dv m"
  shows "fst (outbox_handle dv cfg t r w) = Inr ()"
proof -
  have "fst (onMessageCreated cfg t cp w) = Inr ()" for cp w
    by (simp add: onMessageCreated_def notifyNewMessage_def Let_def notify_users_ok [OF assms(1)] split: option.split)
  then have c: "fst (consume_event dv cfg t r w) = Inr ()" for w
    by (auto simp: consume_event_def split: payload.split prod.split sum.split) (metis fst_conv sum.simps(4))+
  then show ?thesis using assms(2) by (simp add: outbox_handle_def nats_publish_def nats_isEnabled_def Let_def)
qed

lemma waiting_settled:
  assumes "w_outbox w' = map (\<lambda>r. if r \<in> set due then settle t None (ob_attempts r) r else r) (w_outbox w)"
  shows "waiting t locked w' = filter (\<lambda>r. r \<notin> set due) (waiting t locked w)"
proof -
  have "filter (\<lambda>r. ob_processedAt r = None \<and> ob_nextAttemptAt r \<le> t \<and> \<not> locked (ob_id r))
      (map (\<lambda>r. if r \<in> set due then settle t None (ob_attempts r) r else r) rows)
    = filter (\<lambda>r. r \<notin> set due)
        (filter (\<lambda>r. ob_processedAt r = None \<and> ob_nextAttemptAt r \<le> t \<and> \<not> locked (ob_id r)) rows)" for rows
    by (induction rows) (auto simp: settle_def)
  then show ?thesis by (simp add: waiting_def assms)
qed

lemma remaining_length:
  assumes "distinct xs" "set (take n (sort_key k xs)) = S"
  shows "length (filter (\<lambda>x. x \<notin> S) xs) = length xs - n"
proof -
  have "length (filter (\<lambda>x. x \<in> S) xs) = min n (length xs)"
  proof -
    have "set (filter (\<lambda>x. x \<in> S) xs) = S"
      using assms(2) set_take_subset [of n "sort_key k xs"] by auto
    then have "length (filter (\<lambda>x. x \<in> S) xs) = card S"
      using assms(1) by (metis distinct_card distinct_filter)
    moreover have "card S = length (take n (sort_key k xs))"
      using assms by (metis distinct_card distinct_sort distinct_take)
    ultimately show ?thesis by (simp add: min.commute)
  qed
  with sum_length_filter_compl [of "\<lambda>x. x \<in> S" xs] show ?thesis by simp
qed

lemma tick_batch:
  assumes "processBatch dv cfg t locked 20 w = (k, w1)"
  shows "delivers w1 (snd (outbox_tick dv cfg t locked w))"
  using assms by (simp add: outbox_tick_def)

lemma drain_step:
  assumes "cf_emailDriverLog cfg" "\<forall>m. dv_publish_ok dv m" "inv w"
  obtains w1 where "snd (outbox_tick dv cfg t locked w) = w1" "inv w1"
    "w_outbox w1 = map (\<lambda>r. if r \<in> set (due_rows t locked 20 w)
       then settle t None (ob_attempts r) r else r) (w_outbox w)"
    "waiting t locked w1 = filter (\<lambda>r. r \<notin> set (due_rows t locked 20 w)) (waiting t locked w)"
    "length (waiting t locked w1) = length (waiting t locked w) - 20"
    "\<forall>r \<in> set (due_rows t locked 20 w). published cfg r w1"
    "\<forall>r. published cfg r w \<longrightarrow> published cfg r w1"
proof -
  obtain k w2 where b: "processBatch dv cfg t locked 20 w = (k, w2)" by fastforce
  from assms(3) b obtain f where f: "k = length (due_rows t locked 20 w)" "inv w2"
    "w_outbox w2 = map (\<lambda>r. if r \<in> set (due_rows t locked 20 w)
       then settle t (f (ob_id r)) (ob_attempts r) r else r) (w_outbox w)"
    "\<forall>r \<in> set (due_rows t locked 20 w). f (ob_id r) = None \<longrightarrow> published cfg r w2"
    "\<forall>r. published cfg r w \<longrightarrow> published cfg r w2"
    "(\<forall>r w. fst (outbox_handle dv cfg t r w) = Inr ()) \<longrightarrow> f = (\<lambda>_. None)"
    by (rule batch_settles)
  have none: "f = (\<lambda>_. None)" using f(6) outbox_handle_ok [OF assms(1)] assms(2) by blast
  note d = tick_batch [OF b]
  let ?w1 = "snd (outbox_tick dv cfg t locked w)"
  have box: "w_outbox ?w1 = map (\<lambda>r. if r \<in> set (due_rows t locked 20 w)
       then settle t None (ob_attempts r) r else r) (w_outbox w)"
    using d f(3) unfolding none by (simp add: delivers_def)
  note wt = waiting_settled [OF box]
  have "distinct (waiting t locked w)"
    using outbox_ids [OF assms(3)] by (simp add: waiting_def distinct_map)
  from remaining_length [OF this, of 20 ob_createdAt]
  have "length (waiting t locked ?w1) = length (waiting t locked w) - 20"
    unfolding wt by (simp add: due_rows_def)
  with box wt d f(2,4,5) none show thesis
    by (intro that [OF refl]) (auto intro: delivers_published simp: delivers_def)
qed

text \<open>
  the backlog drains: when the broker and the mail driver accept every call, enough ticks
  of the loop (20 events each) leave no event waiting, each having been published and
  marked as processed, and nothing else in the outbox changed.
\<close>

theorem backlog_drains:
  assumes "cf_emailDriverLog cfg" "\<forall>m. dv_publish_ok dv m" "inv w"
    and "length (waiting t locked w) \<le> 20 * k"
  shows "let w' = ((\<lambda>w. snd (outbox_tick dv cfg t locked w)) ^^ k) w in
    w_outbox w' = map (\<lambda>r. if r \<in> set (waiting t locked w) then settle t None (ob_attempts r) r else r)
        (w_outbox w)
    \<and> waiting t locked w' = [] \<and> (\<forall>r \<in> set (waiting t locked w). published cfg r w')"
proof -
  let ?run = "\<lambda>k. (\<lambda>w. snd (outbox_tick dv cfg t locked w)) ^^ k"
  let ?upd = "\<lambda>S. map (\<lambda>r. if r \<in> S then settle t None (ob_attempts r) r else r)"
  have "w_outbox (?run k w) = ?upd (set (waiting t locked w)) (w_outbox w)
      \<and> waiting t locked (?run k w) = [] \<and> (\<forall>r \<in> set (waiting t locked w). published cfg r (?run k w))
      \<and> (\<forall>r. published cfg r w \<longrightarrow> published cfg r (?run k w))"
    using assms(3,4)
  proof (induction k arbitrary: w)
    case 0
    then show ?case by (simp add: map_idI)
  next
    case (Suc k)
    let ?due = "set (due_rows t locked 20 w)"
    from assms(1,2) Suc.prems(1) obtain w1 where w1: "snd (outbox_tick dv cfg t locked w) = w1" "inv w1"
      "w_outbox w1 = ?upd ?due (w_outbox w)"
      "waiting t locked w1 = filter (\<lambda>r. r \<notin> ?due) (waiting t locked w)"
      "length (waiting t locked w1) = length (waiting t locked w) - 20"
      "\<forall>r \<in> ?due. published cfg r w1" "\<forall>r. published cfg r w \<longrightarrow> published cfg r w1"
      by (rule drain_step)
    have run: "?run (Suc k) w = ?run k w1" by (simp add: funpow_Suc_right w1(1) del: funpow.simps)
    from Suc.IH [OF w1(2)] w1(5) Suc.prems(2) have IH:
      "w_outbox (?run k w1) = ?upd (set (waiting t locked w1)) (w_outbox w1)"
      "waiting t locked (?run k w1) = []"
      "\<forall>r \<in> set (waiting t locked w1). published cfg r (?run k w1)"
      "\<forall>r. published cfg r w1 \<longrightarrow> published cfg r (?run k w1)" by auto
    have due: "?due \<subseteq> set (waiting t locked w)" by (rule due_rows_sub)
    have fin: "settle t None n r \<notin> set (waiting t locked w1)" for n r
      by (auto simp: waiting_def settle_def)
    have "w_outbox (?run k w1) = ?upd (set (waiting t locked w)) (w_outbox w)"
      unfolding IH(1) w1(3) map_map using fin due by (intro map_cong) (auto simp: w1(4))
    moreover have "published cfg r (?run k w1)" if "r \<in> set (waiting t locked w)" for r
      using that IH(3,4) w1(4,6) by (cases "r \<in> ?due") auto
    ultimately show ?case unfolding run using IH(2,4) w1(7) by blast
  qed
  then show ?thesis by (simp add: Let_def)
qed

theorem backlog_drains_witness:
  "let w' = ((\<lambda>w. snd (outbox_tick sample_delivery (default_config\<lparr>cf_natsEnabled := True\<rparr>) 10
       (\<lambda>_. False) w)) ^^ 1) event_world
   in waiting 10 (\<lambda>_. False) w' = []"
proof -
  have w: "length (waiting 10 (\<lambda>_. False) event_world) \<le> 20 * 1"
    by (simp add: waiting_def event_world_def)
  have c: "cf_emailDriverLog (default_config\<lparr>cf_natsEnabled := True\<rparr>)" "\<forall>m. dv_publish_ok sample_delivery m"
    by (simp_all add: default_config_def sample_delivery_def)
  from backlog_drains [OF c inv_event_world w] show ?thesis by (simp add: Let_def)
qed

text \<open>The mails of one event.\<close>

definition may_mail :: "config \<Rightarrow> int \<Rightarrow> conv_row \<Rightarrow> world \<Rightarrow> user_row \<Rightarrow> bool" where
  "may_mail cfg t conv w u \<longleftrightarrow> \<not> us_isSuspended u \<and> us_anonymizedAt u = None
     \<and> \<not> recently_mailed cfg t (us_id u) (cv_id conv) w"

lemma notify_user_mails:
  "\<exists>ms es. w_mails (snd (notify_user cfg t mid conv u w)) = w_mails w @ ms
     \<and> (ms = [] \<or> ms = [new_message_mail cfg conv u] \<and> may_mail cfg t conv w u)
     \<and> w_emails (snd (notify_user cfg t mid conv u w)) = w_emails w @ es"
  by (auto simp: notify_user_def email_send_def may_mail_def split: sum.splits dest: insert_row_InrD)

lemma notify_users_mails:
  "\<exists>ms. w_mails (snd (notify_users cfg t mid conv us w)) = w_mails w @ ms
     \<and> (\<forall>m \<in> set ms. \<exists>u \<in> set us. m = new_message_mail cfg conv u \<and> may_mail cfg t conv w u)"
proof (induction us arbitrary: w)
  case (Cons u us)
  obtain r w1 where n: "notify_user cfg t mid conv u w = (r, w1)" by fastforce
  with notify_user_mails [of cfg t mid conv u w] obtain ms es where m: "w_mails w1 = w_mails w @ ms"
    "ms = [] \<or> ms = [new_message_mail cfg conv u] \<and> may_mail cfg t conv w u"
    "w_emails w1 = w_emails w @ es" by auto
  have less: "may_mail cfg t conv w1 v \<Longrightarrow> may_mail cfg t conv w v" for v
    by (simp add: may_mail_def recently_mailed_def m(3))
  show ?case
  proof (cases r)
    case (Inl e)
    with n m(1,2) show ?thesis by auto
  next
    case (Inr x)
    from Cons.IH [of w1] obtain ms' where
      "w_mails (snd (notify_users cfg t mid conv us w1)) = w_mails w1 @ ms'"
      "\<forall>m \<in> set ms'. \<exists>u \<in> set us. m = new_message_mail cfg conv u \<and> may_mail cfg t conv w1 u" by blast
    with n Inr m(1,2) less show ?thesis by (intro exI [of _ "ms @ ms'"]) auto
  qed
qed simp

text \<open>
  C38: only recipients who are offline are mailed: every mail that a new message causes goes to
  a recipient without a live socket, whose account is neither suspended nor anonymised and
  who had no mail on that conversation within the throttle window.
\<close>

theorem mails_only_offline:
  assumes "onMessageCreated cfg t cp w = (r, w')"
  shows "\<exists>ms. w_mails w' = w_mails w @ ms \<and> (\<forall>m \<in> set ms. \<exists>conv \<in> set (w_convs w). \<exists>u \<in> set (w_users w).
     m = new_message_mail cfg conv u \<and> cv_id conv = cp_conversationId cp
     \<and> us_id u \<in> set (cp_recipients cp) \<and> \<not> isOnline t (us_id u) w \<and> may_mail cfg t conv w u)"
proof -
  let ?off = "filter (\<lambda>u. areOnline t (cp_recipients cp) w u \<noteq> Some True) (cp_recipients cp)"
  have off: "u \<in> set (cp_recipients cp) \<and> \<not> isOnline t u w" if "u \<in> set ?off" for u
    using that areOnline_eq [of u "cp_recipients cp" t w] by auto
  have w': "w' = w \<or> (\<exists>conv. find (\<lambda>x. cv_id x = cp_conversationId cp) (w_convs w) = Some conv
      \<and> w' = snd (notify_users cfg t (cp_messageId cp) conv
               (filter (\<lambda>u. us_id u \<in> set ?off) (w_users w)) w))"
    using assms unfolding onMessageCreated_def notifyNewMessage_def Let_def
    by (auto split: if_splits option.splits)
  then show ?thesis
  proof (elim disjE exE conjE)
    fix conv
    assume c: "find (\<lambda>x. cv_id x = cp_conversationId cp) (w_convs w) = Some conv"
      and w': "w' = snd (notify_users cfg t (cp_messageId cp) conv
               (filter (\<lambda>u. us_id u \<in> set ?off) (w_users w)) w)"
    from notify_users_mails obtain ms where ms: "w_mails w' = w_mails w @ ms"
      "\<forall>m \<in> set ms. \<exists>u \<in> set (filter (\<lambda>u. us_id u \<in> set ?off) (w_users w)).
         m = new_message_mail cfg conv u \<and> may_mail cfg t conv w u" unfolding w' by blast
    have "\<exists>conv \<in> set (w_convs w). \<exists>u \<in> set (w_users w). m = new_message_mail cfg conv u
        \<and> cv_id conv = cp_conversationId cp \<and> us_id u \<in> set (cp_recipients cp)
        \<and> \<not> isOnline t (us_id u) w \<and> may_mail cfg t conv w u" if "m \<in> set ms" for m
    proof -
      from ms(2) that obtain u where "u \<in> set (w_users w)" "us_id u \<in> set ?off"
        "m = new_message_mail cfg conv u" "may_mail cfg t conv w u" by fastforce
      with off find_SomeD [OF c] show ?thesis by blast
    qed
    with ms(1) show ?thesis by blast
  qed simp
qed

theorem mails_only_offline_witness:
  "\<exists>w' m. onMessageCreated default_config 10 \<lparr>cp_messageId = m_one, cp_conversationId = c_one,
      cp_senderId = u_alice, cp_sequence = 1, cp_createdAt = 5, cp_body = ''abc'',
      cp_moderationFlags = None, cp_recipients = [u_bob]\<rparr> event_world = (Inr (), w')
    \<and> w_mails w' = [m] \<and> (\<exists>conv \<in> set (w_convs event_world). \<exists>u \<in> set (w_users event_world).
         m = new_message_mail default_config conv u \<and> us_id u = u_bob)"
proof -
  let ?cp = "\<lparr>cp_messageId = m_one, cp_conversationId = c_one,
      cp_senderId = u_alice, cp_sequence = 1, cp_createdAt = 5, cp_body = ''abc'',
      cp_moderationFlags = None, cp_recipients = [u_bob]\<rparr>"
  have f: "fst (onMessageCreated default_config 10 ?cp event_world) = Inr ()
      \<and> length (w_mails (snd (onMessageCreated default_config 10 ?cp event_world))) = 1
      \<and> w_mails event_world = []" by code_simp
  then obtain w' where w': "onMessageCreated default_config 10 ?cp event_world = (Inr (), w')"
    by (metis prod.collapse)
  with f obtain m where m: "w_mails w' = [m]" by (auto simp: length_Suc_conv)
  from mails_only_offline [OF w'] f m w' show ?thesis by fastforce
qed

text \<open>
  the deduplication key does not make notifications idempotent: the mail goes out before the
  key is inserted, so an event handled again after the throttle window mails the user again,
  although the row of its first mail is stored.
\<close>

theorem redelivery_mails_again:
  assumes "cf_emailDriverLog cfg" "e \<in> set (w_emails w)" "em_dedupKey e = dedup_key mid (us_id u)"
    and "may_mail cfg t conv w u"
  shows "notify_user cfg t mid conv u w = (Inr (), w\<lparr>w_mails := w_mails w @ [new_message_mail cfg conv u]\<rparr>)"
proof -
  have "\<exists>x \<in> set (w_emails w). email_clash x r" if "em_dedupKey r = dedup_key mid (us_id u)" for r
    using assms(2,3) that by (auto simp: email_clash_def)
  then show ?thesis
    using assms(1,4) by (simp add: notify_user_def email_send_def may_mail_def insert_row_def list_ex_iff)
qed

definition old_mail :: email_row where
  "old_mail = \<lparr>em_userId = u_bob, em_conversationId = Some c_one, em_kind = ''new_message'',
     em_sentAt = 0, em_dedupKey = dedup_key m_one u_bob\<rparr>"

theorem redelivery_mails_again_witness:
  "\<exists>m. w_mails (snd (notify_user default_config 3600000 m_one (sample_conv c_one o_one)
      (sample_user u_bob ''bob@x.fr'' Seller) (sample_world\<lparr>w_emails := [old_mail]\<rparr>))) = [m]"
proof -
  let ?w = "sample_world\<lparr>w_emails := [old_mail]\<rparr>"
  have u: "us_id (sample_user u_bob ''bob@x.fr'' Seller) = u_bob" by (simp add: sample_user_def)
  have "may_mail default_config 3600000 (sample_conv c_one o_one) ?w (sample_user u_bob ''bob@x.fr'' Seller)"
    by (simp add: may_mail_def recently_mailed_def old_mail_def sample_user_def default_config_def)
  from redelivery_mails_again [OF _ _ _ this, of old_mail m_one]
  show ?thesis by (simp add: default_config_def old_mail_def u sample_defs)
qed

end
