(* ===== verification/E2ee.thy ===== *)
theory E2ee
  imports Invariants
begin

text \<open>
  End-to-end encrypted conversations: \<open>E2eeService\<close> and its controllers
  (backend/src/modules/e2ee). The server stores and hands out key packages, keeps one MLS group
  per conversation and relays opaque messages, numbered per group under a row lock.

  Parameters: \<open>pg_uuid\<close> and \<open>pg_int8\<close> (PostgreSQL's reading of identifiers and numbers),
  \<open>qb_limit\<close> (the query builder on a limit that is not a positive number) and the generated
  identifiers. The rows that name a user chosen by the client are checked against the foreign
  key to \<open>users\<close>.
\<close>

section \<open>Key packages\<close>

record kp_input =
  ki_deviceId :: string
  ki_cipherSuite :: string
  ki_keyPackages :: "bytes list"
  ki_ttlDays :: "int option"

definition new_kp :: "int \<Rightarrow> int \<Rightarrow> uuid \<Rightarrow> kp_input \<Rightarrow> uuid \<Rightarrow> bytes \<Rightarrow> kp_row" where
  "new_kp t expires u inp i kp =
     \<lparr>kp_id = i, kp_userId = u, kp_deviceId = ki_deviceId inp, kp_cipherSuite = ki_cipherSuite inp,
      kp_keyPackage = kp, kp_consumedAt = None, kp_consumedBy = None, kp_expiresAt = expires,
      kp_createdAt = t\<rparr>"

text \<open>A date beyond 8640000000000000 ms is invalid in JavaScript and fails when it is stored.\<close>

definition publishKeyPackages ::
  "int \<Rightarrow> (nat \<Rightarrow> uuid) \<Rightarrow> uuid \<Rightarrow> kp_input \<Rightarrow> world \<Rightarrow> (world, nat) res" where
  "publishKeyPackages t ids u inp w =
     (let kps = ki_keyPackages inp;
          expires = t + coalesce (ki_ttlDays inp) 30 * 86400000
      in if length kps = 0 then (Inl (BadRequest ''Empty pool''), w)
         else if length kps > 100 then (Inl (BadRequest ''Pool too large''), w)
         else if expires > 8640000000000000 then (Inl (JsError ''Invalid time value''), w)
         else (Inr (length kps),
               w\<lparr>w_kps := w_kps w @ map (\<lambda>n. new_kp t expires u inp (ids n) (kps ! n)) [0..<length kps]\<rparr>))"

definition kp_available :: "int \<Rightarrow> uuid \<Rightarrow> string \<Rightarrow> kp_row \<Rightarrow> bool" where
  "kp_available t u suite k \<longleftrightarrow> kp_userId k = u \<and> kp_cipherSuite k = suite
     \<and> kp_consumedAt k = None \<and> kp_expiresAt k > t"

definition claim_tx :: "int \<Rightarrow> uuid \<Rightarrow> uuid \<Rightarrow> string \<Rightarrow> world \<Rightarrow> exn + kp_row \<times> world" where
  "claim_tx t target requester suite w =
     (case sort_key kp_createdAt (filter (kp_available t target suite) (w_kps w)) of
        [] \<Rightarrow> Inl (NotFound ''Aucun KeyPackage disponible pour ce user'')
      | kp # _ \<Rightarrow>
          Inr (kp\<lparr>kp_consumedAt := Some t, kp_consumedBy := Some requester\<rparr>,
               w\<lparr>w_kps := update_rows (\<lambda>k. kp_id k = kp_id kp)
                  (\<lambda>k. k\<lparr>kp_consumedAt := Some t, kp_consumedBy := Some requester\<rparr>) (w_kps w)\<rparr>))"

definition claimKeyPackage ::
  "int \<Rightarrow> uuid \<Rightarrow> uuid \<Rightarrow> string \<Rightarrow> world \<Rightarrow> (world, uuid \<times> bytes \<times> string) res" where
  "claimKeyPackage t target requester suite w =
     (case transact (claim_tx t target requester suite) w of
        (Inl e, w1) \<Rightarrow> (Inl e, w1)
      | (Inr kp, w1) \<Rightarrow> (Inr (kp_id kp, kp_keyPackage kp, kp_deviceId kp), w1))"

definition countAvailable :: "int \<Rightarrow> uuid \<Rightarrow> string \<Rightarrow> world \<Rightarrow> nat" where
  "countAvailable t u suite w = length (filter (kp_available t u suite) (w_kps w))"

section \<open>Groups\<close>

record welcome_msg =
  wl_targetUserId :: string
  wl_ciphertext :: bytes
  wl_senderDeviceId :: string

text \<open>A user column filled from the client: the text is read as an identifier, then looked up.\<close>

definition user_ref :: "(string \<Rightarrow> uuid option) \<Rightarrow> string option \<Rightarrow> world \<Rightarrow> exn + uuid option" where
  "user_ref pg_uuid raw w =
     (case raw of
        None \<Rightarrow> Inr None
      | Some s \<Rightarrow>
          (case pg_uuid s of
             None \<Rightarrow> Inl (DbError ''22P02'')
           | Some u \<Rightarrow> if u \<notin> us_id ` set (w_users w) then Inl (DbError ''23503'') else Inr (Some u)))"

fun store_welcomes ::
  "(string \<Rightarrow> uuid option) \<Rightarrow> int \<Rightarrow> (nat \<Rightarrow> uuid) \<Rightarrow> uuid \<Rightarrow> uuid \<Rightarrow> nat \<Rightarrow> welcome_msg list \<Rightarrow> world \<Rightarrow>
   exn + world" where
  "store_welcomes pg_uuid t ids gid actor seq [] w = Inr w"
| "store_welcomes pg_uuid t ids gid actor seq (x # xs) w =
     (case user_ref pg_uuid (Some (wl_targetUserId x)) w of
        Inl e \<Rightarrow> Inl e
      | Inr target \<Rightarrow>
          (case insert_row mls_clash
              \<lparr>ml_id = ids seq, ml_groupId = gid, ml_senderUserId = Some actor,
               ml_senderDeviceId = Some (wl_senderDeviceId x), ml_kind = Welcome, ml_epoch = 0,
               ml_sequence = int seq + 1, ml_targetUserId = target, ml_ciphertext = wl_ciphertext x,
               ml_createdAt = t\<rparr> (w_mls w) of
             Inl e \<Rightarrow> Inl e
           | Inr rows \<Rightarrow> store_welcomes pg_uuid t ids gid actor (Suc seq) xs (w\<lparr>w_mls := rows\<rparr>)))"

definition set_e2ee :: "int \<Rightarrow> uuid \<Rightarrow> world \<Rightarrow> world" where
  "set_e2ee t c w = w\<lparr>w_convs := update_rows (\<lambda>x. cv_id x = c)
     (\<lambda>x. x\<lparr>cv_e2eeEnabled := True, cv_e2eeEnabledAt := Some t\<rparr>) (w_convs w)\<rparr>"

definition enable_tx ::
  "(string \<Rightarrow> uuid option) \<Rightarrow> int \<Rightarrow> uuid \<Rightarrow> (nat \<Rightarrow> uuid) \<Rightarrow> uuid \<Rightarrow> uuid \<Rightarrow> bytes \<Rightarrow> string \<Rightarrow>
   welcome_msg list \<Rightarrow> world \<Rightarrow> exn + uuid \<times> world" where
  "enable_tx pg_uuid t gid ids c actor mlsId suite welcomes w =
     (case insert_row group_clash
         \<lparr>gr_id = gid, gr_conversationId = c, gr_groupIdMls = mlsId, gr_cipherSuite = suite,
          gr_epoch = 0, gr_createdBy = actor\<rparr> (w_groups w) of
        Inl e \<Rightarrow> Inl e
      | Inr groups \<Rightarrow>
          (case store_welcomes pg_uuid t ids gid actor 0 welcomes (w\<lparr>w_groups := groups\<rparr>) of
             Inl e \<Rightarrow> Inl e
           | Inr w1 \<Rightarrow>
               Inr (gid, audit_log (mk_audit actor ''e2ee.enabled'' ''conversation'' c
                     (Some [(''cipherSuite'', JStr suite), (''welcomes'', JNum (int (length welcomes)))]))
                   (set_e2ee t c w1))))"

definition enableE2ee ::
  "(string \<Rightarrow> uuid option) \<Rightarrow> int \<Rightarrow> uuid \<Rightarrow> (nat \<Rightarrow> uuid) \<Rightarrow> uuid \<Rightarrow> uuid \<Rightarrow> user_role \<Rightarrow> bytes \<Rightarrow>
   string \<Rightarrow> welcome_msg list \<Rightarrow> world \<Rightarrow> (world, uuid) res" where
  "enableE2ee pg_uuid t gid ids c actor role mlsId suite welcomes w =
     (case assertCanAccess t actor role c w of
        (Inl e, w1) \<Rightarrow> (Inl e, w1)
      | (Inr (conv, _), w1) \<Rightarrow>
          if cv_e2eeEnabled conv then (Inl (Conflict (''D'' @ [CHR 0xE9] @ ''j'' @ [CHR 0xE0] @ '' E2EE'')), w1)
          else transact (enable_tx pg_uuid t gid ids c actor mlsId suite welcomes) w1)"

section \<open>Opaque messages\<close>

record mls_input =
  mi_senderDeviceId :: string
  mi_kind :: mls_kind
  mi_epoch :: string
  mi_ciphertext :: bytes
  mi_targetUserId :: "string option"

definition mls_of :: "uuid \<Rightarrow> world \<Rightarrow> mls_row list" where
  "mls_of g w = filter (\<lambda>m. ml_groupId m = g) (w_mls w)"

definition last_mls_seq :: "uuid \<Rightarrow> world \<Rightarrow> int" where
  "last_mls_seq g w = (if mls_of g w = [] then 0 else Max (ml_sequence ` set (mls_of g w)))"

definition bump_epoch :: "uuid \<Rightarrow> int \<Rightarrow> world \<Rightarrow> world" where
  "bump_epoch g n w =
     w\<lparr>w_groups := update_rows (\<lambda>x. gr_id x = g) (\<lambda>x. x\<lparr>gr_epoch := n\<rparr>) (w_groups w)\<rparr>"

definition send_mls_tx ::
  "(string \<Rightarrow> uuid option) \<Rightarrow> (string \<Rightarrow> exn + int) \<Rightarrow> int \<Rightarrow> uuid \<Rightarrow> uuid \<Rightarrow> uuid \<Rightarrow> mls_input \<Rightarrow> world \<Rightarrow>
   exn + (uuid \<times> int) \<times> world" where
  "send_mls_tx pg_uuid pg_int8 t new_id gid sender inp w =
     (case find (\<lambda>g. gr_id g = gid) (w_groups w) of
        None \<Rightarrow> Inl (JsError ''null group'')
      | Some g \<Rightarrow>
          (let nextSeq = last_mls_seq gid w + 1;
               w1 = (if mi_kind inp = Commit then bump_epoch gid (gr_epoch g + 1) w else w)
           in case pg_int8 (mi_epoch inp) of
                Inl e \<Rightarrow> Inl e
              | Inr epoch \<Rightarrow>
                  (case user_ref pg_uuid (mi_targetUserId inp) w1 of
                     Inl e \<Rightarrow> Inl e
                   | Inr target \<Rightarrow>
                       (case insert_row mls_clash
                           \<lparr>ml_id = new_id, ml_groupId = gid, ml_senderUserId = Some sender,
                            ml_senderDeviceId = Some (mi_senderDeviceId inp), ml_kind = mi_kind inp,
                            ml_epoch = epoch, ml_sequence = nextSeq, ml_targetUserId = target,
                            ml_ciphertext = mi_ciphertext inp, ml_createdAt = t\<rparr> (w_mls w1) of
                          Inl e \<Rightarrow> Inl e
                        | Inr rows \<Rightarrow> Inr ((new_id, nextSeq), w1\<lparr>w_mls := rows\<rparr>)))))"

definition sendMlsMessage ::
  "(string \<Rightarrow> uuid option) \<Rightarrow> (string \<Rightarrow> exn + int) \<Rightarrow> int \<Rightarrow> uuid \<Rightarrow> uuid \<Rightarrow> uuid \<Rightarrow> user_role \<Rightarrow>
   mls_input \<Rightarrow> world \<Rightarrow> (world, uuid \<times> int) res" where
  "sendMlsMessage pg_uuid pg_int8 t new_id c sender role inp w =
     (case assertCanAccess t sender role c w of
        (Inl e, w1) \<Rightarrow> (Inl e, w1)
      | (Inr _, w1) \<Rightarrow>
          (case find (\<lambda>g. gr_conversationId g = c) (w_groups w1) of
             None \<Rightarrow> (Inl (NotFound ''Pas de groupe MLS''), w1)
           | Some g \<Rightarrow> transact (send_mls_tx pg_uuid pg_int8 t new_id (gr_id g) sender inp) w1))"

text \<open>As for messages, \<open>limit\<close> is \<open>None\<close> when absent and \<open>Some None\<close> for NaN.\<close>

definition mls_limit ::
  "(int option \<Rightarrow> mls_row list \<Rightarrow> exn + mls_row list) \<Rightarrow> int option option \<Rightarrow> mls_row list \<Rightarrow>
   exn + mls_row list" where
  "mls_limit qb_limit l rows =
     (case map_option (\<lambda>n. min n 500) (coalesce l (Some 100)) of
        None \<Rightarrow> qb_limit None rows
      | Some n \<Rightarrow> if n > 0 then Inr (take (nat n) rows) else qb_limit (Some n) rows)"

definition select_mls ::
  "(string \<Rightarrow> exn + int) \<Rightarrow> uuid \<Rightarrow> uuid \<Rightarrow> string option \<Rightarrow> world \<Rightarrow> exn + mls_row list" where
  "select_mls pg_int8 gid user after w =
     (let rows = filter (\<lambda>m. ml_targetUserId m = None \<or> ml_targetUserId m = Some user) (mls_of gid w)
      in if truthy after
         then (case pg_int8 (coalesce after []) of
                 Inl e \<Rightarrow> Inl e
               | Inr n \<Rightarrow> Inr (sort_key ml_sequence (filter (\<lambda>m. ml_sequence m > n) rows)))
         else Inr (sort_key ml_sequence rows))"

definition listMlsMessages ::
  "(string \<Rightarrow> exn + int) \<Rightarrow> (int option \<Rightarrow> mls_row list \<Rightarrow> exn + mls_row list) \<Rightarrow> int \<Rightarrow> uuid \<Rightarrow> uuid \<Rightarrow>
   user_role \<Rightarrow> string option \<Rightarrow> int option option \<Rightarrow> world \<Rightarrow> (world, mls_row list) res" where
  "listMlsMessages pg_int8 qb_limit t c user role after limit w =
     (case assertCanAccess t user role c w of
        (Inl e, w1) \<Rightarrow> (Inl e, w1)
      | (Inr _, w1) \<Rightarrow>
          (case find (\<lambda>g. gr_conversationId g = c) (w_groups w1) of
             None \<Rightarrow> (Inl (NotFound ''Pas de groupe MLS''), w1)
           | Some g \<Rightarrow>
               (case select_mls pg_int8 (gr_id g) user after w1 of
                  Inl e \<Rightarrow> (Inl e, w1)
                | Inr rows \<Rightarrow> (mls_limit qb_limit limit rows, w1))))"

section \<open>The controllers\<close>

record kp_dto =
  kd_deviceId :: string
  kd_cipherSuite :: string
  kd_keyPackages :: "string list"
  kd_ttlDays :: "int option"

definition valid_kp_dto :: "kp_dto \<Rightarrow> bool" where
  "valid_kp_dto d \<longleftrightarrow> length (kd_deviceId d) \<le> 64 \<and> length (kd_cipherSuite d) \<le> 64
     \<and> 1 \<le> length (kd_keyPackages d) \<and> length (kd_keyPackages d) \<le> 100
     \<and> 1 \<le> coalesce (kd_ttlDays d) 1"

definition kp_publish ::
  "int \<Rightarrow> (nat \<Rightarrow> uuid) \<Rightarrow> auth_user \<Rightarrow> kp_dto \<Rightarrow> world \<Rightarrow> (world, nat) res" where
  "kp_publish t ids user d w =
     (if \<not> valid_kp_dto d then (Inl (BadRequest ''Bad Request''), w)
      else publishKeyPackages t ids (au_sub user)
        \<lparr>ki_deviceId = kd_deviceId d, ki_cipherSuite = kd_cipherSuite d,
         ki_keyPackages = map b64_decode (kd_keyPackages d), ki_ttlDays = kd_ttlDays d\<rparr> w)"

definition kp_count :: "int \<Rightarrow> auth_user \<Rightarrow> string \<Rightarrow> world \<Rightarrow> nat" where
  "kp_count t user suite w = countAvailable t (au_sub user) suite w"

definition kp_claim ::
  "int \<Rightarrow> auth_user \<Rightarrow> string \<Rightarrow> string \<Rightarrow> world \<Rightarrow> (world, uuid \<times> string \<times> string) res" where
  "kp_claim t user raw suite w =
     (case uuid_pipe raw of
        Inl e \<Rightarrow> (Inl e, w)
      | Inr target \<Rightarrow>
          (case claimKeyPackage t target (au_sub user) suite w of
             (Inl e, w1) \<Rightarrow> (Inl e, w1)
           | (Inr (i, kp, dev), w1) \<Rightarrow> (Inr (i, dev, b64_encode kp), w1)))"

record welcome_dto =
  wd_targetUserId :: string
  wd_ciphertext :: string
  wd_senderDeviceId :: string

definition mls_enable ::
  "(string \<Rightarrow> uuid option) \<Rightarrow> int \<Rightarrow> uuid \<Rightarrow> (nat \<Rightarrow> uuid) \<Rightarrow> auth_user \<Rightarrow> string \<Rightarrow> string \<Rightarrow> string \<Rightarrow>
   welcome_dto list \<Rightarrow> world \<Rightarrow> (world, uuid) res" where
  "mls_enable pg_uuid t gid ids user raw mlsId suite ws w =
     guarded (conversation_access_guard pg_uuid t (Some user) (Some raw) None None)
       (\<lambda>_ w1. case uuid_pipe raw of
          Inl e \<Rightarrow> (Inl e, w1)
        | Inr c \<Rightarrow>
            if length suite > 64 \<or> ws = [] \<or> list_ex (\<lambda>x. length (wd_senderDeviceId x) > 64) ws
            then (Inl (BadRequest ''Bad Request''), w1)
            else enableE2ee pg_uuid t gid ids c (au_sub user) (au_role user) (b64_decode mlsId) suite
              (map (\<lambda>x. \<lparr>wl_targetUserId = wd_targetUserId x, wl_ciphertext = b64_decode (wd_ciphertext x),
                          wl_senderDeviceId = wd_senderDeviceId x\<rparr>) ws) w1) w"

record send_mls_dto =
  sm_kind :: mls_kind
  sm_epoch :: string
  sm_ciphertext :: string
  sm_senderDeviceId :: string
  sm_targetUserId :: "string option"

definition mls_send ::
  "(string \<Rightarrow> uuid option) \<Rightarrow> (string \<Rightarrow> exn + int) \<Rightarrow> int \<Rightarrow> uuid \<Rightarrow> auth_user \<Rightarrow> string \<Rightarrow> send_mls_dto \<Rightarrow>
   world \<Rightarrow> (world, uuid \<times> int) res" where
  "mls_send pg_uuid pg_int8 t new_id user raw d w =
     guarded (conversation_access_guard pg_uuid t (Some user) (Some raw) None None)
       (\<lambda>_ w1. case uuid_pipe raw of
          Inl e \<Rightarrow> (Inl e, w1)
        | Inr c \<Rightarrow>
            if sm_kind d = Welcome \<or> length (sm_senderDeviceId d) > 64
            then (Inl (BadRequest ''Bad Request''), w1)
            else sendMlsMessage pg_uuid pg_int8 t new_id c (au_sub user) (au_role user)
              \<lparr>mi_senderDeviceId = sm_senderDeviceId d, mi_kind = sm_kind d, mi_epoch = sm_epoch d,
               mi_ciphertext = b64_decode (sm_ciphertext d), mi_targetUserId = sm_targetUserId d\<rparr> w1) w"

record mls_view =
  vw_id :: uuid
  vw_kind :: mls_kind
  vw_epoch :: int
  vw_sequence :: int
  vw_senderDeviceId :: "string option"
  vw_targetUserId :: "uuid option"
  vw_ciphertext :: string
  vw_createdAt :: int

definition mls_to_view :: "mls_row \<Rightarrow> mls_view" where
  "mls_to_view m =
     \<lparr>vw_id = ml_id m, vw_kind = ml_kind m, vw_epoch = ml_epoch m, vw_sequence = ml_sequence m,
      vw_senderDeviceId = ml_senderDeviceId m, vw_targetUserId = ml_targetUserId m,
      vw_ciphertext = b64_encode (ml_ciphertext m), vw_createdAt = ml_createdAt m\<rparr>"

definition mls_list ::
  "(string \<Rightarrow> uuid option) \<Rightarrow> (string \<Rightarrow> exn + int) \<Rightarrow> (int option \<Rightarrow> mls_row list \<Rightarrow> exn + mls_row list) \<Rightarrow>
   int \<Rightarrow> auth_user \<Rightarrow> string \<Rightarrow> string option \<Rightarrow> string option \<Rightarrow> world \<Rightarrow> (world, mls_view list) res" where
  "mls_list pg_uuid pg_int8 qb_limit t user raw after limit w =
     guarded (conversation_access_guard pg_uuid t (Some user) (Some raw) None None)
       (\<lambda>_ w1. case uuid_pipe raw of
          Inl e \<Rightarrow> (Inl e, w1)
        | Inr c \<Rightarrow>
            (case listMlsMessages pg_int8 qb_limit t c (au_sub user) (au_role user) after
                (if truthy limit then Some (parse_int (coalesce limit [])) else None) w1 of
               (Inl e, w2) \<Rightarrow> (Inl e, w2)
             | (Inr rows, w2) \<Rightarrow> (Inr (map mls_to_view rows), w2))) w"

section \<open>Key packages are handed out once\<close>

lemma claim_tx_Inr:
  assumes "claim_tx t target u suite w = Inr (kp, w')"
  obtains k where "k \<in> set (w_kps w)" "kp_available t target suite k" "kp_id kp = kp_id k"
    "w_kps w' = update_rows (\<lambda>x. kp_id x = kp_id k)
       (\<lambda>x. x\<lparr>kp_consumedAt := Some t, kp_consumedBy := Some u\<rparr>) (w_kps w)"
proof -
  from assms obtain k ks where k: "sort_key kp_createdAt (filter (kp_available t target suite) (w_kps w)) = k # ks"
    and eq: "kp = k\<lparr>kp_consumedAt := Some t, kp_consumedBy := Some u\<rparr>"
    "w' = w\<lparr>w_kps := update_rows (\<lambda>x. kp_id x = kp_id k)
       (\<lambda>x. x\<lparr>kp_consumedAt := Some t, kp_consumedBy := Some u\<rparr>) (w_kps w)\<rparr>"
    by (auto simp: claim_tx_def split: list.splits)
  have "k \<in> set (sort_key kp_createdAt (filter (kp_available t target suite) (w_kps w)))" by (simp add: k)
  with eq show thesis by (intro that [of k]) auto
qed

lemma claimKeyPackage_Inr:
  assumes "claimKeyPackage t target u suite w = (Inr (i, kp, dev), w')"
  obtains k where "k \<in> set (w_kps w)" "kp_available t target suite k" "kp_id k = i"
    "w_kps w' = update_rows (\<lambda>x. kp_id x = i)
       (\<lambda>x. x\<lparr>kp_consumedAt := Some t, kp_consumedBy := Some u\<rparr>) (w_kps w)"
proof -
  from assms obtain r where tx: "claim_tx t target u suite w = Inr (r, w')" and i: "kp_id r = i"
    by (auto simp: claimKeyPackage_def split: prod.splits sum.splits dest: transact_InrD)
  from tx show thesis
  proof (rule claim_tx_Inr, goal_cases)
    case (1 k)
    with that [of k] i show ?case by simp
  qed
qed

lemma claimKeyPackage_Inl: "claimKeyPackage t target u suite w = (Inl e, w') \<Longrightarrow> w' = w"
  by (auto simp: claimKeyPackage_def split: prod.splits sum.splits dest: transact_InlD)

text \<open>A run of claims by any users of any packages, and the packages it hands out.\<close>

fun claim_run :: "(int \<times> uuid \<times> uuid \<times> string) list \<Rightarrow> world \<Rightarrow> uuid list" where
  "claim_run [] w = []"
| "claim_run ((t, target, u, suite) # reqs) w =
     (case claimKeyPackage t target u suite w of
        (Inl e, w1) \<Rightarrow> claim_run reqs w1
      | (Inr (i, _, _), w1) \<Rightarrow> i # claim_run reqs w1)"

lemma claim_run_fresh:
  assumes "distinct (map kp_id (w_kps w))"
  shows "distinct (claim_run reqs w)
    \<and> set (claim_run reqs w) \<subseteq> kp_id ` {k \<in> set (w_kps w). kp_consumedAt k = None}"
  using assms
proof (induction reqs arbitrary: w)
  case (Cons a reqs)
  obtain t target u suite where a: "a = (t, target, u, suite)" by (cases a)
  obtain r w1 where c: "claimKeyPackage t target u suite w = (r, w1)" by fastforce
  show ?case
  proof (cases r)
    case (Inl e)
    with c claimKeyPackage_Inl have "w1 = w" by blast
    with Cons a c Inl show ?thesis by simp
  next
    case (Inr p)
    obtain i kp dev where p: "p = (i, kp, dev)" by (cases p)
    from c [unfolded Inr p] obtain k where k: "k \<in> set (w_kps w)" "kp_available t target suite k" "kp_id k = i"
      "w_kps w1 = update_rows (\<lambda>x. kp_id x = i)
         (\<lambda>x. x\<lparr>kp_consumedAt := Some t, kp_consumedBy := Some u\<rparr>) (w_kps w)"
      by (rule claimKeyPackage_Inr)
    have "map kp_id (w_kps w1) = map kp_id (w_kps w)" unfolding k(4) by (rule map_update_rows) simp
    with Cons.IH [of w1] Cons.prems have IH: "distinct (claim_run reqs w1)"
      "set (claim_run reqs w1) \<subseteq> kp_id ` {k \<in> set (w_kps w1). kp_consumedAt k = None}" by simp_all
    have "kp_id ` {k \<in> set (w_kps w1). kp_consumedAt k = None}
        \<subseteq> kp_id ` {k \<in> set (w_kps w). kp_consumedAt k = None} - {i}"
    proof
      fix x
      assume "x \<in> kp_id ` {k \<in> set (w_kps w1). kp_consumedAt k = None}"
      then obtain y where y: "y \<in> set (w_kps w1)" "kp_consumedAt y = None" "x = kp_id y" by auto
      from y(1) obtain z where z: "z \<in> set (w_kps w)" "y = (if kp_id z = i
          then z\<lparr>kp_consumedAt := Some t, kp_consumedBy := Some u\<rparr> else z)"
        unfolding k(4) by (rule in_update_rowsE)
      with y(2) have "y = z" "kp_id z \<noteq> i" by (simp_all split: if_splits)
      with y z(1) show "x \<in> kp_id ` {k \<in> set (w_kps w). kp_consumedAt k = None} - {i}" by auto
    qed
    moreover have "i \<in> kp_id ` {k \<in> set (w_kps w). kp_consumedAt k = None}"
      using k(1-3) by (auto simp: kp_available_def)
    ultimately have "set (claim_run reqs w1) \<subseteq> kp_id ` {k \<in> set (w_kps w). kp_consumedAt k = None} - {i}"
      "i \<in> kp_id ` {k \<in> set (w_kps w). kp_consumedAt k = None}" using IH(2) by blast+
    moreover have "claim_run (a # reqs) w = i # claim_run reqs w1" using a c Inr p by simp
    ultimately show ?thesis using IH(1) by (simp only: distinct.simps list.set) blast
  qed
qed simp

section \<open>The numbering of a group\<close>

definition mls_ok :: "world \<Rightarrow> bool" where
  "mls_ok w \<longleftrightarrow> (\<forall>i. map ml_sequence (mls_of i w) = [1..int (length (mls_of i w))])
     \<and> ml_groupId ` set (w_mls w) \<subseteq> gr_id ` set (w_groups w)"

lemma mls_ok_frame: "w_mls w' = w_mls w \<Longrightarrow> w_groups w' = w_groups w \<Longrightarrow> mls_ok w' = mls_ok w"
  by (simp add: mls_ok_def mls_of_def)

lemma last_mls_seq_ok:
  assumes "mls_ok w"
  shows "last_mls_seq i w = int (length (mls_of i w))"
proof (cases "mls_of i w = []")
  case False
  have "ml_sequence ` set (mls_of i w) = {1..int (length (mls_of i w))}"
    using arg_cong [of _ _ set, OF assms [unfolded mls_ok_def, THEN conjunct1, rule_format, of i]] by simp
  moreover have "1 \<le> int (length (mls_of i w))" using False by (cases "mls_of i w") simp_all
  then have "Max {1..int (length (mls_of i w))} = int (length (mls_of i w))" by (intro Max_eqI) auto
  ultimately show ?thesis using False by (simp add: last_mls_seq_def)
qed (simp add: last_mls_seq_def)

lemma mls_ok_append:
  assumes "mls_ok w" "ml_groupId row \<in> gr_id ` set (w_groups w')" "w_mls w' = w_mls w @ [row]"
    "gr_id ` set (w_groups w) \<subseteq> gr_id ` set (w_groups w')"
    "ml_sequence row = int (length (mls_of (ml_groupId row) w)) + 1"
  shows "mls_ok w'"
proof -
  have "map ml_sequence (mls_of i w') = [1..int (length (mls_of i w'))]" for i
  proof (cases "i = ml_groupId row")
    case True
    have "map ml_sequence (mls_of i w) = [1..int (length (mls_of i w))]"
      using assms(1) by (simp add: mls_ok_def)
    moreover have "mls_of i w' = mls_of i w @ [row]" using True by (simp add: mls_of_def assms(3))
    moreover have "[1..int n] @ [int n + 1] = [1..int n + 1]" for n
      using upto_rec2 [of 1 "int n + 1"] by simp
    ultimately show ?thesis using True assms(5) by (simp add: add.commute)
  next
    case False
    then have "mls_of i w' = mls_of i w" by (simp add: mls_of_def assms(3))
    then show ?thesis using assms(1) by (simp add: mls_ok_def)
  qed
  moreover have "ml_groupId ` set (w_mls w) \<subseteq> gr_id ` set (w_groups w')"
    using assms(1,4) unfolding mls_ok_def by (meson order_trans)
  ultimately show ?thesis using assms(2,3) by (simp add: mls_ok_def)
qed

lemma send_mls_tx_Inr:
  assumes "send_mls_tx pg_uuid pg_int8 t i gid u inp w = Inr ((j, n), w')"
  obtains g row w1 where "g \<in> set (w_groups w)" "gr_id g = gid" "n = last_mls_seq gid w + 1" "j = i"
    "w1 = (if mi_kind inp = Commit then bump_epoch gid (gr_epoch g + 1) w else w)"
    "w' = w1\<lparr>w_mls := w_mls w @ [row]\<rparr>" "\<forall>x \<in> set (w_mls w). \<not> mls_clash x row"
    "ml_groupId row = gid" "ml_sequence row = n" "ml_kind row = mi_kind inp"
    "pg_int8 (mi_epoch inp) = Inr (ml_epoch row)"
proof -
  from assms obtain g where g: "find (\<lambda>g. gr_id g = gid) (w_groups w) = Some g"
    by (cases "find (\<lambda>g. gr_id g = gid) (w_groups w)") (simp_all add: send_mls_tx_def)
  define w1 where "w1 = (if mi_kind inp = Commit then bump_epoch gid (gr_epoch g + 1) w else w)"
  from assms g obtain epoch target where e: "pg_int8 (mi_epoch inp) = Inr epoch"
    "user_ref pg_uuid (mi_targetUserId inp) w1 = Inr target"
    by (auto simp: send_mls_tx_def Let_def w1_def split: sum.splits)
  define row where "row = \<lparr>ml_id = i, ml_groupId = gid, ml_senderUserId = Some u,
      ml_senderDeviceId = Some (mi_senderDeviceId inp), ml_kind = mi_kind inp, ml_epoch = epoch,
      ml_sequence = last_mls_seq gid w + 1, ml_targetUserId = target,
      ml_ciphertext = mi_ciphertext inp, ml_createdAt = t\<rparr>"
  have mls: "w_mls w1 = w_mls w" by (simp add: w1_def bump_epoch_def)
  from assms g e obtain rows where ins: "insert_row mls_clash row (w_mls w) = Inr rows"
    and eq: "w' = w1\<lparr>w_mls := rows\<rparr>" "j = i" "n = last_mls_seq gid w + 1"
    by (auto simp: send_mls_tx_def Let_def w1_def [symmetric] row_def [symmetric] mls split: sum.splits)
  from insert_row_InrD [OF ins] find_SomeD [OF g] eq e(1) show thesis
    by (intro that [of g w1 row]) (simp_all add: row_def w1_def)
qed

lemma bump_epoch_inv: "inv w \<Longrightarrow> inv (bump_epoch g n w)"
  unfolding bump_epoch_def
  by (rule inv_table(8), assumption, rule clash_free_update)
    (auto simp: group_clash_def dest: inv_tables(10) split: if_splits)

lemma send_mls_tx_inv:
  assumes "inv w \<and> mls_ok w" "send_mls_tx pg_uuid pg_int8 t i gid u inp w = Inr ((j, n), w')"
  shows "inv w' \<and> mls_ok w' \<and> n = int (length (mls_of gid w)) + 1
    \<and> (\<exists>row. w_mls w' = w_mls w @ [row] \<and> ml_groupId row = gid \<and> ml_sequence row = n)"
proof -
  from assms(2) obtain g row w1 where s: "g \<in> set (w_groups w)" "gr_id g = gid"
    "n = last_mls_seq gid w + 1" "j = i"
    "w1 = (if mi_kind inp = Commit then bump_epoch gid (gr_epoch g + 1) w else w)"
    "w' = w1\<lparr>w_mls := w_mls w @ [row]\<rparr>" "\<forall>x \<in> set (w_mls w). \<not> mls_clash x row"
    "ml_groupId row = gid" "ml_sequence row = n" "ml_kind row = mi_kind inp"
    "pg_int8 (mi_epoch inp) = Inr (ml_epoch row)" by (rule send_mls_tx_Inr)
  have "map gr_id (w_groups w1) = map gr_id (w_groups w)"
    by (simp add: s(5) bump_epoch_def map_update_rows)
  from arg_cong [OF this, of set] have ids: "gr_id ` set (w_groups w1) = gr_id ` set (w_groups w)" by simp
  have n: "n = int (length (mls_of gid w)) + 1" using s(3) last_mls_seq_ok assms(1) by simp
  have "inv w1" using assms(1) bump_epoch_inv by (simp add: s(5))
  moreover have "clash_free mls_clash (w_mls w @ [row])"
    using s(7) inv_tables(11) assms(1) by (simp add: clash_free_snoc)
  ultimately have "inv w'" unfolding s(6) by (rule inv_table(9))
  moreover have "mls_ok w'"
  proof (rule mls_ok_append [of w row])
    show "ml_groupId row \<in> gr_id ` set (w_groups w')" using s(1,2,8) ids by (auto simp: s(6))
  qed (use assms(1) s(6,8,9) ids n in simp_all)
  ultimately show ?thesis using n s(6,8,9) by simp
qed

definition append_mls ::
  "uuid \<Rightarrow> (string \<Rightarrow> uuid option) \<times> (string \<Rightarrow> exn + int) \<times> int \<times> uuid \<times> uuid \<times> mls_input \<Rightarrow> world \<Rightarrow>
   world option" where
  "append_mls gid e w = (case e of (pg_uuid, pg_int8, t, i, u, inp) \<Rightarrow>
     (case send_mls_tx pg_uuid pg_int8 t i gid u inp w of Inl _ \<Rightarrow> None | Inr (_, w') \<Rightarrow> Some w'))"

interpretation mls_log: sequenced_log "\<lambda>w g. map ml_sequence (mls_of g w)" append_mls
  "\<lambda>w. inv w \<and> mls_ok w"
proof (unfold_locales, goal_cases)
  case (1 s k e s')
  then obtain pu pi t i u inp a n where "send_mls_tx pu pi t i k u inp s = Inr ((a, n), s')"
    by (auto simp: append_mls_def split: sum.splits prod.splits)
  from send_mls_tx_inv [OF 1(1) this] show ?case by blast
next
  case (2 s k e s' j)
  then obtain pu pi t i u inp a n where "send_mls_tx pu pi t i k u inp s = Inr ((a, n), s')"
    by (auto simp: append_mls_def split: sum.splits prod.splits)
  from send_mls_tx_inv [OF 2(1) this] obtain row where "n = int (length (mls_of k s)) + 1"
    "w_mls s' = w_mls s @ [row]" "ml_groupId row = k" "ml_sequence row = n" by blast
  then show ?case by (simp add: mls_of_def)
qed

lemma sendMlsMessage_inv [inv_intros]:
  assumes "inv w \<and> mls_ok w"
  shows "inv (snd (sendMlsMessage pg_uuid pg_int8 t i c u r inp w))
    \<and> mls_ok (snd (sendMlsMessage pg_uuid pg_int8 t i c u r inp w))"
proof -
  obtain g w1 where a: "assertCanAccess t u r c w = (g, w1)" by fastforce
  have "access_frame w w1"
    using a assertCanAccess_granted [of u r c w t] assertCanAccess_denied [of u r c w t]
    by (cases "may_access u r c w") auto
  then have w1: "inv w1 \<and> mls_ok w1"
    using assms access_frame_inv mls_ok_frame [of w1 w] access_frameD(9,10) by metis
  show ?thesis
  proof (cases g)
    case (Inl e)
    with a w1 show ?thesis by (simp add: sendMlsMessage_def)
  next
    case (Inr p)
    have "inv (snd (transact (send_mls_tx pg_uuid pg_int8 t i gid u inp) w1))
        \<and> mls_ok (snd (transact (send_mls_tx pg_uuid pg_int8 t i gid u inp) w1))" for gid
      by (rule transact_preserves [where P = "\<lambda>w. inv w \<and> mls_ok w"], rule w1)
        (use send_mls_tx_inv [OF w1] in fastforce)
    with a w1 Inr show ?thesis by (simp add: sendMlsMessage_def split: option.split)
  qed
qed

lemma store_welcomes_Inr:
  assumes "store_welcomes pg t ids gid a n xs w = Inr w'" "inv w \<and> mls_ok w"
    and "gid \<in> gr_id ` set (w_groups w)" "n = length (mls_of gid w)"
  shows "inv w' \<and> mls_ok w' \<and> w_convs w' = w_convs w \<and> w_groups w' = w_groups w"
  using assms
proof (induction xs arbitrary: n w)
  case (Cons x xs)
  from Cons.prems(1) obtain target where u: "user_ref pg (Some (wl_targetUserId x)) w = Inr target"
    by (auto split: sum.splits)
  define row where "row = \<lparr>ml_id = ids n, ml_groupId = gid, ml_senderUserId = Some a,
      ml_senderDeviceId = Some (wl_senderDeviceId x), ml_kind = Welcome, ml_epoch = 0,
      ml_sequence = int n + 1, ml_targetUserId = target, ml_ciphertext = wl_ciphertext x,
      ml_createdAt = t\<rparr>"
  from Cons.prems(1) u obtain rows where ins: "insert_row mls_clash row (w_mls w) = Inr rows"
    and rest: "store_welcomes pg t ids gid a (Suc n) xs (w\<lparr>w_mls := rows\<rparr>) = Inr w'"
    by (auto simp: row_def [symmetric] split: sum.splits)
  note rows = insert_row_InrD [OF ins]
  let ?w = "w\<lparr>w_mls := rows\<rparr>"
  have "clash_free mls_clash rows"
    using insert_row_clash_free [OF ins] inv_tables(11) Cons.prems(2) by blast
  then have i: "inv ?w" using inv_table(9) Cons.prems(2) by blast
  have m: "mls_ok ?w"
    by (rule mls_ok_append [of w row]) (use Cons.prems(2-4) rows in \<open>auto simp: row_def\<close>)
  have "Suc n = length (mls_of gid ?w)"
    using rows Cons.prems(4) by (simp add: mls_of_def row_def)
  from Cons.IH [OF rest _ _ this] i m Cons.prems(3) show ?case by simp
qed simp

lemma enable_tx_inv:
  assumes "inv w \<and> mls_ok w" "enable_tx pg t gid ids c a mlsId suite ws w = Inr (x, w')"
  shows "inv w' \<and> mls_ok w'"
proof -
  define g where "g = \<lparr>gr_id = gid, gr_conversationId = c, gr_groupIdMls = mlsId, gr_cipherSuite = suite,
          gr_epoch = 0, gr_createdBy = a\<rparr>"
  from assms(2) obtain gs w1 where ins: "insert_row group_clash g (w_groups w) = Inr gs"
    and st: "store_welcomes pg t ids gid a 0 ws (w\<lparr>w_groups := gs\<rparr>) = Inr w1"
    and w': "w' = audit_log (mk_audit a ''e2ee.enabled'' ''conversation'' c
       (Some [(''cipherSuite'', JStr suite), (''welcomes'', JNum (int (length ws)))])) (set_e2ee t c w1)"
    by (auto simp: enable_tx_def g_def split: sum.splits)
  note gs = insert_row_InrD [OF ins]
  let ?w = "w\<lparr>w_groups := gs\<rparr>"
  have "clash_free group_clash gs"
    using insert_row_clash_free [OF ins] inv_tables(10) assms(1) by blast
  then have "inv ?w" using inv_table(8) assms(1) by blast
  moreover have "mls_ok ?w" using assms(1) gs by (auto simp: mls_ok_def mls_of_def)
  moreover have "gid \<notin> gr_id ` set (w_groups w)" using gs by (auto simp: group_clash_def g_def)
  then have "mls_of gid w = []" using assms(1) by (auto simp: mls_ok_def mls_of_def filter_empty_conv)
  then have "mls_of gid ?w = []" by (simp add: mls_of_def)
  moreover have "gid \<in> gr_id ` set (w_groups ?w)" using gs by (simp add: g_def)
  ultimately have w1: "inv w1 \<and> mls_ok w1" using store_welcomes_Inr [OF st] by simp
  have "inv (set_e2ee t c w1)" unfolding set_e2ee_def using w1 by (intro inv_update_convs) simp_all
  moreover have "mls_ok w' = mls_ok w1" by (rule mls_ok_frame) (simp_all add: w' set_e2ee_def)
  ultimately show ?thesis using w1 by (simp add: w')
qed

lemma enableE2ee_inv [inv_intros]:
  assumes "inv w \<and> mls_ok w"
  shows "inv (snd (enableE2ee pg_uuid t gid ids c u r mlsId suite ws w))
    \<and> mls_ok (snd (enableE2ee pg_uuid t gid ids c u r mlsId suite ws w))"
proof -
  obtain g w1 where a: "assertCanAccess t u r c w = (g, w1)" by fastforce
  have "access_frame w w1"
    using a assertCanAccess_granted [of u r c w t] assertCanAccess_denied [of u r c w t]
    by (cases "may_access u r c w") auto
  then have w1: "inv w1 \<and> mls_ok w1"
    using assms access_frame_inv mls_ok_frame [of w1 w] access_frameD(9,10) by metis
  have tx: "inv (snd (transact (enable_tx pg_uuid t gid ids c u mlsId suite ws) w1))
        \<and> mls_ok (snd (transact (enable_tx pg_uuid t gid ids c u mlsId suite ws) w1))"
    by (rule transact_preserves [where P = "\<lambda>w. inv w \<and> mls_ok w"], rule w1)
      (use enable_tx_inv [OF w1] in blast)
  show ?thesis
    using a w1 tx by (cases g) (simp_all add: enableE2ee_def split: prod.split)
qed

section \<open>Properties\<close>

text \<open>
  C24: a key package is handed out once: whatever claims run one after the other, by any users,
  no package is returned twice, and each returned one was stored and not yet consumed.
\<close>

theorem key_packages_claimed_once:
  assumes "distinct (map kp_id (w_kps w))"
  shows "distinct (claim_run reqs w)
    \<and> set (claim_run reqs w) \<subseteq> kp_id ` {k \<in> set (w_kps w). kp_consumedAt k = None}"
  using claim_run_fresh [OF assms] .

definition kp_world :: world where
  "kp_world = snd (publishKeyPackages 0 (\<lambda>n. if n = 0 then m_one else m_two) u_bob
     \<lparr>ki_deviceId = ''d'', ki_cipherSuite = ''s'', ki_keyPackages = [[1], [2]], ki_ttlDays = None\<rparr> sample_world)"

theorem key_packages_claimed_once_witness:
  "claim_run [(5, u_bob, u_alice, ''s''), (6, u_bob, u_eve, ''s''), (7, u_bob, u_eve, ''s'')] kp_world
     = [m_one, m_two]
   \<and> distinct (claim_run [(5, u_bob, u_alice, ''s''), (6, u_bob, u_eve, ''s''), (7, u_bob, u_eve, ''s'')] kp_world)"
proof
  have "distinct (map kp_id (w_kps kp_world))" by code_simp
  from key_packages_claimed_once [OF this]
  show "distinct (claim_run [(5, u_bob, u_alice, ''s''), (6, u_bob, u_eve, ''s''), (7, u_bob, u_eve, ''s'')] kp_world)"
    by blast
  show "claim_run [(5, u_bob, u_alice, ''s''), (6, u_bob, u_eve, ''s''), (7, u_bob, u_eve, ''s'')] kp_world
     = [m_one, m_two]" by code_simp
qed

text \<open>
  the messages of every MLS group are numbered 1, 2, 3, .. without a gap, welcomes first:
  enabling a conversation and sending keep that and every unique constraint, whatever the
  request and its outcome.
\<close>

theorem mls_numbering_kept:
  assumes "inv w" "mls_ok w"
  shows "inv (snd (enableE2ee pg_uuid t gid ids c u r mlsId suite ws w))
    \<and> mls_ok (snd (enableE2ee pg_uuid t gid ids c u r mlsId suite ws w))
    \<and> inv (snd (sendMlsMessage pg_uuid pg_int8 t i c u r inp w))
    \<and> mls_ok (snd (sendMlsMessage pg_uuid pg_int8 t i c u r inp w))"
  using assms enableE2ee_inv sendMlsMessage_inv by blast

lemma mls_ok_empty: "w_mls w = [] \<Longrightarrow> mls_ok w"
  by (simp add: mls_ok_def mls_of_def)

lemma inv_sample: "inv sample_world"
  using schema_ok_sample sample_seq_ok by (simp add: inv_def)

definition e2ee_sample :: world where
  "e2ee_sample = snd (enableE2ee Some 5 b_one (\<lambda>n. if n = 0 then m_one else m_two) c_one u_alice Customer
     [1] ''s'' [\<lparr>wl_targetUserId = u_bob, wl_ciphertext = [2], wl_senderDeviceId = ''d''\<rparr>]
     (sample_world\<lparr>w_convs := [(sample_conv c_one o_one)\<lparr>cv_status := Closed\<rparr>]\<rparr>))"

lemma inv_closed_sample: "inv (sample_world\<lparr>w_convs := [(sample_conv c_one o_one)\<lparr>cv_status := Closed\<rparr>]\<rparr>)"
  using schema_ok_sample sample_seq_ok
  by (simp add: inv_def schema_ok_def clash_free_def seq_ok_def msgs_of_def sample_defs)

theorem mls_numbering_kept_witness:
  "map ml_sequence (w_mls e2ee_sample) = [1] \<and> mls_ok e2ee_sample"
proof
  let ?w = "sample_world\<lparr>w_convs := [(sample_conv c_one o_one)\<lparr>cv_status := Closed\<rparr>]\<rparr>"
  have "w_mls ?w = []" by (simp add: sample_world_def empty_world_def)
  from mls_numbering_kept [OF inv_closed_sample mls_ok_empty [OF this]]
  show "mls_ok e2ee_sample" unfolding e2ee_sample_def by blast
  show "map ml_sequence (w_mls e2ee_sample) = [1]" by code_simp
qed

lemma select_mls_Inr:
  assumes "select_mls pg_int8 gid u after w = Inr rows"
  shows "(\<forall>m \<in> set rows. m \<in> set (mls_of gid w) \<and> (ml_targetUserId m = None \<or> ml_targetUserId m = Some u))
    \<and> sorted (map ml_sequence rows)"
  using assms by (auto simp: select_mls_def Let_def split: if_splits sum.splits)

text \<open>
  a member receives what is addressed to him: a listing (with a positive limit) needs access
  to the conversation and returns at most 500 messages of its group, in order, none of
  which is targeted at another user.
\<close>

theorem mls_listing_addressed:
  assumes "listMlsMessages pg_int8 qb_limit t c u r after limit w = (Inr rows, w')"
    and "case limit of None \<Rightarrow> True | Some None \<Rightarrow> False | Some (Some n) \<Rightarrow> 0 < n"
  shows "may_access u r c w \<and> length rows \<le> 500 \<and> sorted (map ml_sequence rows)
    \<and> (\<exists>g \<in> set (w_groups w). gr_conversationId g = c \<and> (\<forall>m \<in> set rows. m \<in> set (w_mls w)
         \<and> ml_groupId m = gr_id g \<and> (ml_targetUserId m = None \<or> ml_targetUserId m = Some u)))"
proof -
  have ma: "may_access u r c w"
    using assms(1) assertCanAccess_denied [of u r c w t]
    by (cases "may_access u r c w") (simp_all add: listMlsMessages_def)
  from assertCanAccess_granted [OF this, of t] obtain p w1 where
    a: "assertCanAccess t u r c w = (Inr p, w1)" and fr: "access_frame w w1" by auto
  from assms(1) a obtain g sel where g: "find (\<lambda>g. gr_conversationId g = c) (w_groups w1) = Some g"
    and sel: "select_mls pg_int8 (gr_id g) u after w1 = Inr sel"
    and lim: "mls_limit qb_limit limit sel = Inr rows"
    by (auto simp: listMlsMessages_def split: option.splits sum.splits)
  define n where "n = nat (min (case limit of Some (Some x) \<Rightarrow> x | _ \<Rightarrow> 100) 500)"
  have n: "n \<le> 500" "rows = take n sel"
    using lim assms(2) by (auto simp: n_def mls_limit_def coalesce_def split: option.splits if_splits)
  note s = select_mls_Inr [OF sel]
  have "sorted (map ml_sequence rows)" using s by (simp add: n(2) take_map [symmetric] sorted_wrt_take)
  moreover have "m \<in> set (w_mls w) \<and> ml_groupId m = gr_id g
      \<and> (ml_targetUserId m = None \<or> ml_targetUserId m = Some u)" if "m \<in> set rows" for m
  proof -
    have "m \<in> set sel" using that n(2) set_take_subset by fastforce
    with s show ?thesis using access_frameD(10) [OF fr] by (auto simp: mls_of_def)
  qed
  moreover have "g \<in> set (w_groups w)" "gr_conversationId g = c"
    using find_SomeD [OF g] access_frameD(9) [OF fr] by simp_all
  ultimately show ?thesis using ma n by auto
qed

theorem mls_listing_addressed_witness:
  "\<exists>rows w'. listMlsMessages (\<lambda>_. Inr 0) (\<lambda>_ rows. Inr rows) 9 c_one u_bob Seller None None e2ee_sample
     = (Inr rows, w') \<and> length rows \<le> 500"
proof -
  have "\<exists>rows w'. listMlsMessages (\<lambda>_. Inr 0) (\<lambda>_ rows. Inr rows) 9 c_one u_bob Seller None None e2ee_sample
     = (Inr rows, w')" by (rule run_Inr) code_simp
  then show ?thesis using mls_listing_addressed [where limit = None] by fastforce
qed

text \<open>
  the server checks neither the epoch of a commit nor the status of the conversation: a
  commit is accepted whatever epoch it states, each time it comes, and advances the epoch of
  the group, also in a conversation that is closed for ordinary messages.
\<close>

theorem stale_commit_accepted:
  assumes "inv w" "mls_ok w" "may_access u r c w" "g \<in> set (w_groups w)" "gr_conversationId g = c"
    and "mi_kind inp = Commit" "pg_int8 (mi_epoch inp) = Inr epoch" "mi_targetUserId inp = None"
    and "i \<notin> ml_id ` set (w_mls w)"
  shows "\<exists>w'. sendMlsMessage pg_uuid pg_int8 t i c u r inp w = (Inr (i, int (length (mls_of (gr_id g) w)) + 1), w')
    \<and> g\<lparr>gr_epoch := gr_epoch g + 1\<rparr> \<in> set (w_groups w')"
proof -
  from assertCanAccess_granted [OF assms(3), of t] obtain p w1 where
    a: "assertCanAccess t u r c w = (Inr p, w1)" and fr: "access_frame w w1" by auto
  note same = access_frameD(9,10) [OF fr]
  have uniq: "x = g" if "x \<in> set (w_groups w)" "gr_id x = gr_id g \<or> gr_conversationId x = c" for x
    using clash_freeD [OF inv_tables(10) [OF assms(1)] that(1) assms(4)] that(2) assms(5)
    by (cases "x = g") (auto simp: group_clash_def)
  have f: "find (\<lambda>x. p x) (w_groups w) = Some g"
    if "p g" "\<And>x. x \<in> set (w_groups w) \<Longrightarrow> p x \<Longrightarrow> x = g" for p
  proof -
    have "find p (w_groups w) \<noteq> None" using that(1) assms(4) by (simp add: find_None_iff) blast
    then obtain x where x: "find p (w_groups w) = Some x" by blast
    with that(2) [of x] find_SomeD [OF x] show ?thesis by simp
  qed
  have fc: "find (\<lambda>x. gr_conversationId x = c) (w_groups w1) = Some g"
    unfolding same by (rule f) (use assms(5) uniq in auto)
  have fi: "find (\<lambda>x. gr_id x = gr_id g) (w_groups w1) = Some g"
    unfolding same by (rule f) (use uniq in auto)
  have m1: "mls_ok w1" using assms(2) mls_ok_frame [of w1 w] same by simp
  have mls: "mls_of x w1 = mls_of x w" for x by (simp add: mls_of_def same)
  have n: "last_mls_seq (gr_id g) w1 = int (length (mls_of (gr_id g) w))"
    using last_mls_seq_ok [OF m1] mls by simp
  have nums: "ml_sequence x \<noteq> int (length (mls_of (gr_id g) w)) + 1"
    if "x \<in> set (w_mls w)" "ml_groupId x = gr_id g" for x
  proof -
    have "ml_sequence x \<in> set (map ml_sequence (mls_of (gr_id g) w))" using that by (simp add: mls_of_def)
    then have "ml_sequence x \<in> set [1..int (length (mls_of (gr_id g) w))]"
      using assms(2) unfolding mls_ok_def by metis
    then show ?thesis by simp
  qed
  define row where "row = \<lparr>ml_id = i, ml_groupId = gr_id g, ml_senderUserId = Some u,
      ml_senderDeviceId = Some (mi_senderDeviceId inp), ml_kind = Commit, ml_epoch = epoch,
      ml_sequence = int (length (mls_of (gr_id g) w)) + 1, ml_targetUserId = None,
      ml_ciphertext = mi_ciphertext inp, ml_createdAt = t\<rparr>"
  have ins: "insert_row mls_clash row (w_mls w) = Inr (w_mls w @ [row])"
    by (rule insert_row_Inr) (use assms(9) nums in \<open>auto simp: mls_clash_def row_def\<close>)
  let ?w = "(bump_epoch (gr_id g) (gr_epoch g + 1) w1)\<lparr>w_mls := w_mls w @ [row]\<rparr>"
  have b: "w_mls (bump_epoch x y w1) = w_mls w" "w_users (bump_epoch x y w1) = w_users w1" for x y
    by (simp_all add: bump_epoch_def same)
  have "send_mls_tx pg_uuid pg_int8 t i (gr_id g) u inp w1
      = Inr ((i, int (length (mls_of (gr_id g) w)) + 1), ?w)"
    using ins unfolding row_def
    by (simp add: send_mls_tx_def fi n assms(6-8) b user_ref_def Let_def)
  then have "sendMlsMessage pg_uuid pg_int8 t i c u r inp w
      = (Inr (i, int (length (mls_of (gr_id g) w)) + 1), ?w)"
    using a fc by (cases p) (simp add: sendMlsMessage_def)
  moreover have "g\<lparr>gr_epoch := gr_epoch g + 1\<rparr> \<in> set (w_groups ?w)"
    using in_update_rowsI [OF assms(4), of "\<lambda>x. gr_id x = gr_id g"]
    by (fastforce simp: bump_epoch_def same)
  ultimately show ?thesis by blast
qed

definition stale_commit :: mls_input where
  "stale_commit = \<lparr>mi_senderDeviceId = ''d'', mi_kind = Commit, mi_epoch = ''7'', mi_ciphertext = [3],
     mi_targetUserId = None\<rparr>"

theorem stale_commit_accepted_witness:
  "\<exists>w' conv. sendMlsMessage Some (\<lambda>_. Inr 7) 9 m_two c_one u_alice Customer stale_commit e2ee_sample
      = (Inr (m_two, 2), w')
    \<and> getByIdOrThrow c_one e2ee_sample = Inr conv \<and> isl (assertCanWrite conv)"
proof -
  let ?w = "sample_world\<lparr>w_convs := [(sample_conv c_one o_one)\<lparr>cv_status := Closed\<rparr>]\<rparr>"
  have ok: "inv e2ee_sample \<and> mls_ok e2ee_sample"
    unfolding e2ee_sample_def using inv_closed_sample mls_ok_empty [of ?w]
    by (intro enableE2ee_inv) (simp add: sample_world_def empty_world_def)
  have acc: "may_access u_alice Customer c_one e2ee_sample" by code_simp
  have g: "(case w_groups e2ee_sample of [x] \<Rightarrow> gr_id x = b_one \<and> gr_conversationId x = c_one | _ \<Rightarrow> False)
      \<and> length (mls_of b_one e2ee_sample) = 1 \<and> map ml_id (w_mls e2ee_sample) = [m_one]" by code_simp
  then obtain x where x: "w_groups e2ee_sample = [x]" "gr_id x = b_one" "gr_conversationId x = c_one"
    by (auto split: list.splits)
  have fresh: "m_two \<notin> ml_id ` set (w_mls e2ee_sample)"
    using arg_cong [OF g [THEN conjunct2, THEN conjunct2], of set] by (simp add: sample_ids)
  have "\<exists>w'. sendMlsMessage Some (\<lambda>_. Inr 7) 9 m_two c_one u_alice Customer stale_commit e2ee_sample
      = (Inr (m_two, 2), w')"
    using stale_commit_accepted [OF _ _ acc, of x stale_commit "\<lambda>_. Inr 7" 7 m_two Some 9] ok x g fresh
    by (auto simp: stale_commit_def)
  moreover have "(case getByIdOrThrow c_one e2ee_sample of Inl _ \<Rightarrow> False | Inr conv \<Rightarrow> isl (assertCanWrite conv))"
    by code_simp
  ultimately show ?thesis by (auto split: sum.splits)
qed

end
