(* ===== verification/Attachments.thy ===== *)
theory Attachments
  imports Invariants
begin

text \<open>
  Attachments: \<open>S3Service\<close>, \<open>AttachmentsService\<close> and the controller
  (backend/src/modules/attachments).

  \<open>s3_env\<close> is the AWS SDK: the signing of the two requests, and which deletions succeed.
  \<open>w_s3\<close> maps the keys of the stored objects to their sizes. \<open>is_uuid\<close> and \<open>is_mime\<close> are
  class-validator's; identifiers are generated by the caller. The construction of the client
  from the configuration is not modelled.
\<close>

section \<open>S3Service\<close>

record s3_env =
  s3_sign_put :: "string \<Rightarrow> string \<Rightarrow> int \<Rightarrow> int \<Rightarrow> string"
  s3_sign_get :: "string \<Rightarrow> string option \<Rightarrow> int \<Rightarrow> string"
  s3_delete_ok :: "string \<Rightarrow> bool"

definition uri_unreserved :: "char \<Rightarrow> bool" where
  "uri_unreserved c \<longleftrightarrow> is_upper c \<or> is_lower c \<or> is_digit c \<or> c \<in> set ''-_.!~*()'' \<or> c = CHR 0x27"

definition hex_digit :: "nat \<Rightarrow> char" where
  "hex_digit n = (if n < 10 then char_of (48 + n) else char_of (55 + n))"

definition percent_byte :: "byte \<Rightarrow> string" where
  "percent_byte b = [CHR ''%'', hex_digit (unat b div 16), hex_digit (unat b mod 16)]"

text \<open>\<open>encodeURIComponent\<close>.\<close>

definition encode_uri_component :: "string \<Rightarrow> string" where
  "encode_uri_component s =
     concat (map (\<lambda>c. if uri_unreserved c then [c] else concat (map percent_byte (utf8_encode [c]))) s)"

definition content_disposition :: "string option \<Rightarrow> string option" where
  "content_disposition filename =
     (if truthy filename
      then Some (''attachment; filename='' @ [CHR 0x22] @ encode_uri_component (coalesce filename []) @ [CHR 0x22])
      else None)"

definition presignPut :: "s3_env \<Rightarrow> string \<Rightarrow> string \<Rightarrow> int \<Rightarrow> int \<Rightarrow> string" where
  "presignPut s3 key mime maxBytes ttl = s3_sign_put s3 key mime maxBytes ttl"

definition presignGet :: "s3_env \<Rightarrow> string \<Rightarrow> int \<Rightarrow> string option \<Rightarrow> string" where
  "presignGet s3 key ttl filename = s3_sign_get s3 key (content_disposition filename) ttl"

definition s3_head :: "string \<Rightarrow> world \<Rightarrow> exn + int" where
  "s3_head key w = (case w_s3 w key of None \<Rightarrow> Inl (JsError ''NotFound'') | Some n \<Rightarrow> Inr n)"

definition s3_delete :: "s3_env \<Rightarrow> string \<Rightarrow> world \<Rightarrow> (world, unit) res" where
  "s3_delete s3 key w =
     (if s3_delete_ok s3 key then (Inr (), w\<lparr>w_s3 := (w_s3 w)(key := None)\<rparr>)
      else (Inl (JsError ''DeleteObject''), w))"

section \<open>AttachmentsService\<close>

definition allowed_mime :: "string list" where
  "allowed_mime = [''image/jpeg'', ''image/png'', ''image/webp'', ''application/pdf'', ''text/plain'']"

definition unsafe_char :: "char \<Rightarrow> bool" where
  "unsafe_char c \<longleftrightarrow> \<not> (is_word c \<or> c = CHR ''.'' \<or> c = CHR ''-'')"

definition sanitizeFilename :: "string \<Rightarrow> string" where
  "sanitizeFilename name = take 120 (fst (replace_g (plus unsafe_char) (\<lambda>_ st. (''_'', st)) None name ()))"

record presign_dto =
  pd_conversationId :: string
  pd_filename :: string
  pd_mimeType :: string
  pd_sizeBytes :: int

record presign_result =
  pr_attachmentId :: uuid
  pr_uploadUrl :: string
  pr_objectKey :: string
  pr_expiresIn :: int

definition object_key :: "string \<Rightarrow> uuid \<Rightarrow> string \<Rightarrow> string" where
  "object_key conv u filename = ''conv/'' @ conv @ ''/'' @ u @ ''-'' @ sanitizeFilename filename"

text \<open>The decimal text of the size limit in the error message.\<close>

fun nat_text :: "nat \<Rightarrow> string" where
  "nat_text n = (if n < 10 then [char_of (48 + n)] else nat_text (n div 10) @ [char_of (48 + n mod 10)])"

declare nat_text.simps [simp del]

definition presignUpload ::
  "s3_env \<Rightarrow> (string \<Rightarrow> uuid option) \<Rightarrow> config \<Rightarrow> int \<Rightarrow> uuid \<Rightarrow> uuid \<Rightarrow> auth_user \<Rightarrow> presign_dto \<Rightarrow>
   world \<Rightarrow> (world, presign_result) res" where
  "presignUpload s3 pg_uuid cfg t new_id key_id user d w =
     (if pd_mimeType d \<notin> set allowed_mime
      then (Inl (BadRequest (''Type de fichier non autoris'' @ [CHR 0xE9])), w)
      else if pd_sizeBytes d \<le> 0 \<or> pd_sizeBytes d > cf_maxAttachmentMb cfg * 1024 * 1024
      then (Inl (BadRequest (''Taille max '' @ nat_text (nat (cf_maxAttachmentMb cfg)) @ '' MB'')), w)
      else (case pg_uuid (pd_conversationId d) of
              None \<Rightarrow> (Inl (DbError ''22P02''), w)
            | Some c \<Rightarrow>
                (case assertCanAccess t (au_sub user) (au_role user) c w of
                   (Inl e, w1) \<Rightarrow> (Inl e, w1)
                 | (Inr _, w1) \<Rightarrow>
                     (let key = object_key (pd_conversationId d) key_id (pd_filename d);
                          url = presignPut s3 key (pd_mimeType d) (pd_sizeBytes d) 300;
                          att = \<lparr>at_id = new_id, at_messageId = None, at_conversationId = c,
                                 at_uploaderId = au_sub user, at_objectKey = key,
                                 at_originalFilename = pd_filename d, at_mimeType = pd_mimeType d,
                                 at_sizeBytes = pd_sizeBytes d,
                                 at_scanStatus = (if cf_clamavEnabled cfg then Pending else Clean),
                                 at_createdAt = t\<rparr>
                      in (Inr \<lparr>pr_attachmentId = new_id, pr_uploadUrl = url, pr_objectKey = key,
                               pr_expiresIn = 300\<rparr>,
                          w1\<lparr>w_atts := w_atts w1 @ [att]\<rparr>)))))"

text \<open>The \<open>try\<close> block of \<open>finalize\<close>.\<close>

definition check_size :: "s3_env \<Rightarrow> att_row \<Rightarrow> world \<Rightarrow> (world, unit) res" where
  "check_size s3 att w =
     (case s3_head (at_objectKey att) w of
        Inl e \<Rightarrow> (Inl e, w)
      | Inr realSize \<Rightarrow>
          if \<bar>realSize - at_sizeBytes att\<bar> > 1024 then
            (case s3_delete s3 (at_objectKey att) w of
               (Inl e, w1) \<Rightarrow> (Inl e, w1)
             | (Inr _, w1) \<Rightarrow>
                 (Inl (BadRequest (''Taille d'' @ [CHR 0xE9] @ ''clar'' @ [CHR 0xE9] @ ''e incoh'' @ [CHR 0xE9] @ ''rente'')),
                  w1\<lparr>w_atts := filter (\<lambda>a. at_id a \<noteq> at_id att) (w_atts w1)\<rparr>))
          else (Inr (), w))"

definition finalize :: "s3_env \<Rightarrow> uuid \<Rightarrow> uuid \<Rightarrow> world \<Rightarrow> (world, att_row) res" where
  "finalize s3 i user w =
     (case find (\<lambda>a. at_id a = i) (w_atts w) of
        None \<Rightarrow> (Inl (NotFound ''Attachment introuvable''), w)
      | Some att \<Rightarrow>
          if at_uploaderId att \<noteq> user then (Inl (Forbidden ''Forbidden''), w)
          else (case check_size s3 att w of
                  (Inl _, w1) \<Rightarrow> (Inl (BadRequest ''Upload introuvable sur le stockage''), w1)
                | (Inr _, w1) \<Rightarrow> (Inr att, w1)))"

fun scan_string :: "scan_status \<Rightarrow> string" where
  "scan_string Pending = ''pending''"
| "scan_string Clean = ''clean''"
| "scan_string Infected = ''infected''"
| "scan_string Failed = ''failed''"

definition getDownloadUrl ::
  "s3_env \<Rightarrow> int \<Rightarrow> uuid \<Rightarrow> uuid \<Rightarrow> user_role \<Rightarrow> world \<Rightarrow> (world, string \<times> int) res" where
  "getDownloadUrl s3 t i user role w =
     (case find (\<lambda>a. at_id a = i) (w_atts w) of
        None \<Rightarrow> (Inl (NotFound ''Not Found''), w)
      | Some att \<Rightarrow>
          if at_scanStatus att \<noteq> Clean
          then (Inl (Forbidden (''Fichier indisponible (scan='' @ scan_string (at_scanStatus att) @ '')'')), w)
          else (case assertCanAccess t user role (at_conversationId att) w of
                  (Inl e, w1) \<Rightarrow> (Inl e, w1)
                | (Inr _, w1) \<Rightarrow>
                    (Inr (presignGet s3 (at_objectKey att) 60 (Some (at_originalFilename att)), 60), w1)))"

section \<open>The controller\<close>

definition valid_presign :: "(string \<Rightarrow> bool) \<Rightarrow> (string \<Rightarrow> bool) \<Rightarrow> presign_dto \<Rightarrow> bool" where
  "valid_presign is_uuid is_mime d \<longleftrightarrow> is_uuid (pd_conversationId d) \<and> length (pd_filename d) \<le> 255
     \<and> is_mime (pd_mimeType d) \<and> 1 \<le> pd_sizeBytes d"

definition presign_post ::
  "s3_env \<Rightarrow> (string \<Rightarrow> bool) \<Rightarrow> (string \<Rightarrow> bool) \<Rightarrow> (string \<Rightarrow> uuid option) \<Rightarrow> config \<Rightarrow> int \<Rightarrow> uuid \<Rightarrow> uuid \<Rightarrow>
   auth_user \<Rightarrow> presign_dto \<Rightarrow> world \<Rightarrow> (world, presign_result) res" where
  "presign_post s3 is_uuid is_mime pg_uuid cfg t new_id key_id user d w =
     (if \<not> valid_presign is_uuid is_mime d then (Inl (BadRequest ''Bad Request''), w)
      else presignUpload s3 pg_uuid cfg t new_id key_id user d w)"

definition finalize_post :: "s3_env \<Rightarrow> auth_user \<Rightarrow> string \<Rightarrow> world \<Rightarrow> (world, att_row) res" where
  "finalize_post s3 user raw w =
     (case uuid_pipe raw of Inl e \<Rightarrow> (Inl e, w) | Inr i \<Rightarrow> finalize s3 i (au_sub user) w)"

definition download_get :: "s3_env \<Rightarrow> int \<Rightarrow> auth_user \<Rightarrow> string \<Rightarrow> world \<Rightarrow> (world, string \<times> int) res" where
  "download_get s3 t user raw w =
     (case uuid_pipe raw of
        Inl e \<Rightarrow> (Inl e, w) | Inr i \<Rightarrow> getDownloadUrl s3 t i (au_sub user) (au_role user) w)"

section \<open>Sanitised names\<close>

text \<open>The reference: each maximal run of unsafe characters becomes one underscore.\<close>

function collapse :: "string \<Rightarrow> string" where
  "collapse [] = []"
| "collapse (c # s) = (if unsafe_char c then CHR ''_'' # collapse (dropWhile unsafe_char s)
     else c # collapse s)"
  by pat_completeness auto
termination
  by (relation "measure length") (auto simp: length_dropWhile_le less_Suc_eq_le)

lemma m_re_star_greedy: "\<exists>b'. m_re (Star p) Some (b, s) = Some (b', dropWhile p s)"
proof (induction s arbitrary: b)
  case (Cons c s)
  from Cons [of "Some c"] show ?case by (auto split: option.splits)
qed simp

lemma match_plus:
  "match_at (plus p) (b, []) = None" "\<not> p c \<Longrightarrow> match_at (plus p) (b, c # s) = None"
  "p c \<Longrightarrow> \<exists>b'. match_at (plus p) (b, c # s) = Some (b', dropWhile p s)"
  using m_re_star_greedy [of p "Some c" s] by (simp_all add: match_at_def plus_def)

lemma replace_collapse:
  "fst (replace_g (plus unsafe_char) (\<lambda>_ st. (''_'', st)) b s st) = collapse s"
proof (induction s arbitrary: b st rule: collapse.induct)
  case 1
  then show ?case by (simp add: replace_g_none_Nil match_plus)
next
  case (2 c s)
  show ?case
  proof (cases "unsafe_char c")
    case True
    then obtain b' where m: "match_at (plus unsafe_char) (b, c # s) = Some (b', dropWhile unsafe_char s)"
      using match_plus(3) by blast
    have "length (dropWhile unsafe_char s) < length (c # s)"
      by (simp add: length_dropWhile_le less_Suc_eq_le)
    with m 2(1) [OF True, of b' st] True show ?thesis
      by (subst replace_g.simps) (simp add: case_prod_unfold)
  next
    case False
    then have "match_at (plus unsafe_char) (b, c # s) = None" by (rule match_plus)
    with 2(2) [OF False, of "Some c" st] False show ?thesis by (simp add: replace_g_none_Cons)
  qed
qed

lemma collapse_safe: "x \<in> set (collapse s) \<Longrightarrow> \<not> unsafe_char x"
proof (induction s rule: collapse.induct)
  case (2 c s)
  have "\<not> unsafe_char (CHR ''_'')" by code_simp
  with 2 show ?case by (auto split: if_splits)
qed simp

lemma sanitize_safe: "x \<in> set (sanitizeFilename s) \<Longrightarrow> \<not> unsafe_char x"
  unfolding sanitizeFilename_def replace_collapse by (meson collapse_safe in_set_takeD)

lemma assertCanAccess_atts: "assertCanAccess t u r c w = (x, w') \<Longrightarrow> w_atts w' = w_atts w"
  by (auto simp: assertCanAccess_def split: sum.splits option.splits if_splits)

lemma presignUpload_Inr:
  assumes "presignUpload s3 pg_uuid cfg t i k user d w = (Inr r, w')"
  obtains c w1 att where "pd_mimeType d \<in> set allowed_mime" "0 < pd_sizeBytes d"
    "pd_sizeBytes d \<le> cf_maxAttachmentMb cfg * 1024 * 1024" "pg_uuid (pd_conversationId d) = Some c"
    "may_access (au_sub user) (au_role user) c w" "access_frame w w1"
    "w' = w1\<lparr>w_atts := w_atts w1 @ [att]\<rparr>" "at_id att = i" "pr_attachmentId r = i"
    "at_conversationId att = c" "at_uploaderId att = au_sub user" "pr_objectKey r = at_objectKey att"
    "at_objectKey att = object_key (pd_conversationId d) k (pd_filename d)"
    "at_scanStatus att = (if cf_clamavEnabled cfg then Pending else Clean)"
proof -
  from assms have ok: "pd_mimeType d \<in> set allowed_mime" "0 < pd_sizeBytes d"
    "pd_sizeBytes d \<le> cf_maxAttachmentMb cfg * 1024 * 1024"
    by (auto simp: presignUpload_def split: if_splits)
  with assms obtain c where c: "pg_uuid (pd_conversationId d) = Some c"
    by (cases "pg_uuid (pd_conversationId d)") (simp_all add: presignUpload_def)
  have ma: "may_access (au_sub user) (au_role user) c w"
    using assms ok c assertCanAccess_denied [of "au_sub user" "au_role user" c w t]
    by (cases "may_access (au_sub user) (au_role user) c w") (simp_all add: presignUpload_def)
  from assertCanAccess_granted [OF this, of t] obtain p w1 where
    a: "assertCanAccess t (au_sub user) (au_role user) c w = (Inr p, w1)" "access_frame w w1" by auto
  from assms ok c a(1) have r: "r = \<lparr>pr_attachmentId = i,
      pr_uploadUrl = presignPut s3 (object_key (pd_conversationId d) k (pd_filename d)) (pd_mimeType d) (pd_sizeBytes d) 300,
      pr_objectKey = object_key (pd_conversationId d) k (pd_filename d), pr_expiresIn = 300\<rparr>"
    and w': "w' = w1\<lparr>w_atts := w_atts w1 @ [\<lparr>at_id = i, at_messageId = None, at_conversationId = c,
                                 at_uploaderId = au_sub user, at_objectKey = object_key (pd_conversationId d) k (pd_filename d),
                                 at_originalFilename = pd_filename d, at_mimeType = pd_mimeType d,
                                 at_sizeBytes = pd_sizeBytes d,
                                 at_scanStatus = (if cf_clamavEnabled cfg then Pending else Clean),
                                 at_createdAt = t\<rparr>]\<rparr>"
    by (simp_all add: presignUpload_def Let_def)
  from ok c ma a(2) w' show thesis by (rule that) (simp_all add: r)
qed

section \<open>Properties\<close>

text \<open>
  the stored name of an upload is the reference one (each run of characters other than
  letters, digits, underscore, dot and dash is one underscore, at most 120 characters), so
  it holds no separator.
\<close>

theorem sanitize_is_collapse:
  "sanitizeFilename s = take 120 (collapse s) \<and> length (sanitizeFilename s) \<le> 120
    \<and> CHR ''/'' \<notin> set (sanitizeFilename s)"
proof -
  have "unsafe_char (CHR ''/'')" by code_simp
  then show ?thesis using sanitize_safe by (auto simp: sanitizeFilename_def replace_collapse)
qed

text \<open>
  C34: an upload is granted only for an allowed type, a positive size within the limit and a
  conversation the user may access, and is stored under that conversation's prefix with a
  safe name.
\<close>

theorem upload_granted_within_bounds:
  assumes "presignUpload s3 pg_uuid cfg t i k user d w = (Inr r, w')"
  shows "pd_mimeType d \<in> set allowed_mime \<and> 0 < pd_sizeBytes d
    \<and> pd_sizeBytes d \<le> cf_maxAttachmentMb cfg * 1024 * 1024
    \<and> (\<exists>c. pg_uuid (pd_conversationId d) = Some c \<and> may_access (au_sub user) (au_role user) c w
        \<and> (\<exists>att. w_atts w' = w_atts w @ [att] \<and> at_id att = pr_attachmentId r
             \<and> at_conversationId att = c \<and> at_uploaderId att = au_sub user
             \<and> at_objectKey att = ''conv/'' @ pd_conversationId d @ ''/'' @ k @ ''-''
                                  @ sanitizeFilename (pd_filename d)))
    \<and> (\<forall>x \<in> set (sanitizeFilename (pd_filename d)). is_word x \<or> x = CHR ''.'' \<or> x = CHR ''-'')"
  using assms
proof (rule presignUpload_Inr, goal_cases)
  case (1 c w1 att)
  have "w_atts w1 = w_atts w" using access_frameD(12) [OF 1(6)] .
  with 1 sanitize_safe show ?case by (auto simp: object_key_def unsafe_char_def)
qed

definition sample_s3 :: s3_env where
  "sample_s3 = \<lparr>s3_sign_put = \<lambda>k _ _ _. k, s3_sign_get = \<lambda>k _ _. k, s3_delete_ok = \<lambda>_. True\<rparr>"

definition sample_presign :: presign_dto where
  "sample_presign = \<lparr>pd_conversationId = c_one, pd_filename = ''../a b.png'', pd_mimeType = ''image/png'',
     pd_sizeBytes = 5000\<rparr>"

definition user_alice :: auth_user where
  "user_alice = \<lparr>au_sub = u_alice, au_role = Customer, au_email = []\<rparr>"

theorem upload_granted_within_bounds_witness:
  "\<exists>r w'. presignUpload sample_s3 Some default_config 5 m_one m_two user_alice sample_presign sample_world
     = (Inr r, w') \<and> 0 < pd_sizeBytes sample_presign"
proof -
  have "\<exists>r w'. presignUpload sample_s3 Some default_config 5 m_one m_two user_alice sample_presign sample_world
     = (Inr r, w')" by (rule run_Inr) code_simp
  then show ?thesis using upload_granted_within_bounds by blast
qed

text \<open>
  an upload whose size differs from the declared one by more than a kibibyte is deleted, from
  the store and from the table, but the client is told that the upload was not found: the
  message on the size is caught by the handler that raises it.
\<close>

theorem size_mismatch_misreported:
  assumes "find (\<lambda>a. at_id a = i) (w_atts w) = Some att" "at_uploaderId att = user"
    and "w_s3 w (at_objectKey att) = Some n" "1024 < \<bar>n - at_sizeBytes att\<bar>"
    and "s3_delete_ok s3 (at_objectKey att)"
  shows "finalize s3 i user w = (Inl (BadRequest ''Upload introuvable sur le stockage''),
    w\<lparr>w_s3 := (w_s3 w)(at_objectKey att := None), w_atts := filter (\<lambda>a. at_id a \<noteq> i) (w_atts w)\<rparr>)"
  using assms find_SomeD [OF assms(1)]
  by (simp add: finalize_def check_size_def s3_head_def s3_delete_def)

definition sample_att :: "scan_status \<Rightarrow> att_row" where
  "sample_att st = \<lparr>at_id = m_one, at_messageId = None, at_conversationId = c_one,
     at_uploaderId = u_alice, at_objectKey = ''k'', at_originalFilename = ''a.png'',
     at_mimeType = ''image/png'', at_sizeBytes = 5000, at_scanStatus = st, at_createdAt = 5\<rparr>"

theorem size_mismatch_misreported_witness:
  "\<exists>w'. finalize sample_s3 m_one u_alice (sample_world\<lparr>w_atts := [sample_att Clean], w_s3 := [''k'' \<mapsto> 9000]\<rparr>)
     = (Inl (BadRequest ''Upload introuvable sur le stockage''), w') \<and> w_atts w' = []"
  by (subst size_mismatch_misreported [where att = "sample_att Clean" and n = 9000])
    (simp_all add: sample_att_def sample_s3_def)

text \<open>The operations on attachments, and what they do to the scan status.\<close>

datatype att_op =
    Op_presign config int uuid uuid auth_user presign_dto
  | Op_finalize uuid uuid
  | Op_download int uuid uuid user_role
  | Op_put string int

fun att_step :: "s3_env \<Rightarrow> (string \<Rightarrow> uuid option) \<Rightarrow> att_op \<Rightarrow> world \<Rightarrow> world" where
  "att_step s3 pg_uuid (Op_presign cfg t i k user d) w = snd (presignUpload s3 pg_uuid cfg t i k user d w)"
| "att_step s3 pg_uuid (Op_finalize i user) w = snd (finalize s3 i user w)"
| "att_step s3 pg_uuid (Op_download t i user role) w = snd (getDownloadUrl s3 t i user role w)"
| "att_step s3 pg_uuid (Op_put key n) w = w\<lparr>w_s3 := (w_s3 w)(key \<mapsto> n)\<rparr>"

definition status_of :: "uuid \<Rightarrow> world \<Rightarrow> scan_status set" where
  "status_of i w = at_scanStatus ` {a \<in> set (w_atts w). at_id a = i}"

fun op_creates :: "att_op \<Rightarrow> uuid option" where
  "op_creates (Op_presign cfg t i k user d) = Some i"
| "op_creates _ = None"

lemma att_step_status:
  assumes "op_creates op \<noteq> Some i"
  shows "status_of i (att_step s3 pg op w) \<subseteq> status_of i w"
proof (cases op)
  case (Op_presign cfg t j k user d)
  show ?thesis
  proof (cases "presignUpload s3 pg cfg t j k user d w")
    case (Pair r w')
    show ?thesis
    proof (cases r)
      case (Inl e)
      with Pair have "w_atts w' = w_atts w"
        by (auto simp: presignUpload_def Let_def dest: assertCanAccess_atts
            split: if_splits option.splits prod.splits sum.splits)
      with Op_presign Pair show ?thesis by (simp add: status_of_def)
    next
      case (Inr x)
      from Pair [unfolded Inr] show ?thesis
      proof (rule presignUpload_Inr, goal_cases)
        case (1 c w1 att)
        then show ?case using Op_presign Pair Inr assms access_frameD(12) [OF 1(6)]
          by (auto simp: status_of_def)
      qed
    qed
  qed
next
  case (Op_finalize j user)
  then show ?thesis
    by (auto simp: status_of_def finalize_def check_size_def s3_delete_def
        split: option.splits sum.splits if_splits)
next
  case (Op_download t j user role)
  have "w_atts (snd (getDownloadUrl s3 t j user role w)) = w_atts w"
    by (auto simp: getDownloadUrl_def dest: assertCanAccess_atts split: option.splits sum.splits prod.splits)
  with Op_download show ?thesis by (simp add: status_of_def)
qed (simp add: status_of_def)

text \<open>
  with the virus scan enabled an attachment is never downloadable: it is created as pending
  and no operation changes the status, so after any sequence of operations a download of
  it is refused.
\<close>

theorem pending_for_ever:
  assumes "cf_clamavEnabled cfg" "i \<notin> at_id ` set (w_atts w)"
    and "presignUpload s3 pg cfg t i k user d w = (Inr r, w')"
    and "\<forall>op \<in> set ops. op_creates op \<noteq> Some i"
  shows "\<exists>e. getDownloadUrl s3 t2 i u role (fold (att_step s3 pg) ops w')
    = (Inl e, fold (att_step s3 pg) ops w')"
proof -
  from assms(3) have start: "status_of i w' \<subseteq> {Pending}"
  proof (rule presignUpload_Inr, goal_cases)
    case (1 c w1 att)
    then show ?case using assms(1,2) access_frameD(12) [OF 1(6)]
      by (auto simp: status_of_def) (metis imageI)
  qed
  have "status_of i (fold (att_step s3 pg) ops v) \<subseteq> status_of i v" for v
    using assms(4)
  proof (induction ops arbitrary: v)
    case (Cons op ops)
    then show ?case using att_step_status [of op i s3 pg v] by fastforce
  qed simp
  then have "status_of i (fold (att_step s3 pg) ops w') \<subseteq> {Pending}" using start by blast
  then have "at_scanStatus a = Pending"
    if "find (\<lambda>a. at_id a = i) (w_atts (fold (att_step s3 pg) ops w')) = Some a" for a
    using find_SomeD [OF that] by (auto simp: status_of_def)
  then show ?thesis by (auto simp: getDownloadUrl_def split: option.split)
qed

theorem pending_for_ever_witness:
  "\<exists>r w'. presignUpload sample_s3 Some (default_config\<lparr>cf_clamavEnabled := True\<rparr>) 5 m_one m_two user_alice
       sample_presign sample_world = (Inr r, w')
     \<and> (\<exists>e w''. getDownloadUrl sample_s3 9 m_one u_alice Customer (att_step sample_s3 Some
          (Op_finalize m_one u_alice) (att_step sample_s3 Some (Op_put (pr_objectKey r) 5000) w')) = (Inl e, w''))"
proof -
  let ?cfg = "default_config\<lparr>cf_clamavEnabled := True\<rparr>"
  have "\<exists>r w'. presignUpload sample_s3 Some ?cfg 5 m_one m_two user_alice sample_presign sample_world
     = (Inr r, w')" by (rule run_Inr) code_simp
  then obtain r w' where p: "presignUpload sample_s3 Some ?cfg 5 m_one m_two user_alice sample_presign
      sample_world = (Inr r, w')" by blast
  have "cf_clamavEnabled ?cfg" "m_one \<notin> at_id ` set (w_atts sample_world)"
    by (simp_all add: sample_world_def empty_world_def)
  from pending_for_ever [OF this p, of "[Op_put (pr_objectKey r) 5000, Op_finalize m_one u_alice]" 9 u_alice Customer]
  have "\<exists>e w''. getDownloadUrl sample_s3 9 m_one u_alice Customer (att_step sample_s3 Some
          (Op_finalize m_one u_alice) (att_step sample_s3 Some (Op_put (pr_objectKey r) 5000) w')) = (Inl e, w'')"
    by auto
  with p show ?thesis by blast
qed

end
