(* ===== verification/Sessions.thy ===== *)
theory Sessions
  imports Access
begin

text \<open>
  Sessions: \<open>RefreshTokensService\<close>, \<open>AuthService\<close>, \<open>AuthController\<close> and the claims that
  \<open>JwtStrategy\<close> passes on (backend/src/modules/auth).

  Third-party parameters: \<open>sha\<close> (SHA-256 in hexadecimal), \<open>sign\<close> and \<open>check_jwt\<close> (the JWT
  library, \<open>None\<close> when it throws), argon2 as in \<open>Access\<close>, \<open>is_email\<close> (class-validator). The
  random token text and the generated row identifier are arguments. \<open>rotate\<close> reads the row
  and writes it back in two separate statements, without a transaction: \<open>rotate_find\<close> and
  \<open>rotate_apply\<close> are the two, so that they can be interleaved.
\<close>

section \<open>RefreshTokensService\<close>

record session_meta =
  sm_ip :: "string option"
  sm_userAgent :: "string option"

definition issue ::
  "(string \<Rightarrow> string) \<Rightarrow> config \<Rightarrow> int \<Rightarrow> string \<Rightarrow> uuid \<Rightarrow> uuid \<Rightarrow> uuid option \<Rightarrow> session_meta \<Rightarrow>
   world \<Rightarrow> (world, string \<times> int) res" where
  "issue sha cfg t raw new_id userId parentId meta w =
     (let expires = t + cf_refreshTtl cfg * 1000;
          row = \<lparr>rt_id = new_id, rt_userId = userId, rt_tokenHash = sha raw, rt_parentId = parentId,
                 rt_userAgent = sm_userAgent meta, rt_ip = sm_ip meta, rt_expiresAt = expires,
                 rt_revokedAt = None, rt_revokedReason = None\<rparr>
      in case insert_row token_clash row (w_tokens w) of
           Inl e \<Rightarrow> (Inl e, w)
         | Inr rows \<Rightarrow> (Inr (raw, expires), w\<lparr>w_tokens := rows\<rparr>))"

definition revoke_rows :: "int \<Rightarrow> string \<Rightarrow> (token_row \<Rightarrow> bool) \<Rightarrow> token_row list \<Rightarrow> token_row list" where
  "revoke_rows t reason p rows =
     update_rows (\<lambda>r. p r \<and> rt_revokedAt r = None)
       (\<lambda>r. r\<lparr>rt_revokedAt := Some t, rt_revokedReason := Some reason\<rparr>) rows"

definition revokeAllForUser :: "int \<Rightarrow> uuid \<Rightarrow> string \<Rightarrow> world \<Rightarrow> world" where
  "revokeAllForUser t u reason w =
     w\<lparr>w_tokens := revoke_rows t reason (\<lambda>r. rt_userId r = u) (w_tokens w)\<rparr>"

definition revoke :: "(string \<Rightarrow> string) \<Rightarrow> int \<Rightarrow> string \<Rightarrow> string \<Rightarrow> world \<Rightarrow> world" where
  "revoke sha t token reason w =
     w\<lparr>w_tokens := revoke_rows t reason (\<lambda>r. rt_tokenHash r = sha token) (w_tokens w)\<rparr>"

definition rotate_find ::
  "(string \<Rightarrow> string) \<Rightarrow> config \<Rightarrow> int \<Rightarrow> string \<Rightarrow> world \<Rightarrow> (world, token_row) res" where
  "rotate_find sha cfg t token w =
     (case find (\<lambda>r. rt_tokenHash r = sha token) (w_tokens w) of
        None \<Rightarrow> (Inl (Forbidden ''Refresh token invalide''), w)
      | Some found \<Rightarrow>
          if rt_revokedAt found \<noteq> None then
            (Inl (Forbidden (''Session compromise '' @ [CHR 0x97] @ '' reconnexion requise'')),
             revokeAllForUser t (rt_userId found) ''family_compromise''
               (metrics_count cfg t ''RefreshTokenReplayDetected'' 1 None w))
          else if rt_expiresAt found < t
          then (Inl (Forbidden (''Refresh token expir'' @ [CHR 0xE9])), w)
          else (Inr found, w))"

definition rotate_apply ::
  "(string \<Rightarrow> string) \<Rightarrow> config \<Rightarrow> int \<Rightarrow> string \<Rightarrow> uuid \<Rightarrow> session_meta \<Rightarrow> token_row \<Rightarrow> world \<Rightarrow>
   (world, uuid \<times> string \<times> int) res" where
  "rotate_apply sha cfg t raw new_id meta found w =
     (let w1 = metrics_count cfg t ''RefreshTokenRotated'' 1 None
            (w\<lparr>w_tokens := update_rows (\<lambda>r. rt_id r = rt_id found)
               (\<lambda>r. r\<lparr>rt_revokedAt := Some t, rt_revokedReason := Some ''rotated''\<rparr>) (w_tokens w)\<rparr>)
      in case issue sha cfg t raw new_id (rt_userId found) (Some (rt_id found)) meta w1 of
           (Inl e, w2) \<Rightarrow> (Inl e, w2)
         | (Inr (tok, ex), w2) \<Rightarrow> (Inr (rt_userId found, tok, ex), w2))"

definition rotate ::
  "(string \<Rightarrow> string) \<Rightarrow> config \<Rightarrow> int \<Rightarrow> string \<Rightarrow> string \<Rightarrow> uuid \<Rightarrow> session_meta \<Rightarrow> world \<Rightarrow>
   (world, uuid \<times> string \<times> int) res" where
  "rotate sha cfg t token raw new_id meta w =
     (case rotate_find sha cfg t token w of
        (Inl e, w1) \<Rightarrow> (Inl e, w1)
      | (Inr found, w1) \<Rightarrow> rotate_apply sha cfg t raw new_id meta found w1)"

section \<open>AuthService\<close>

record session =
  se_accessToken :: string
  se_refreshToken :: string
  se_refreshExpiresAt :: int

definition account_closed :: "user_row \<Rightarrow> bool" where
  "account_closed u \<longleftrightarrow> us_isSuspended u \<or> us_anonymizedAt u \<noteq> None"

definition jwt_payload :: "user_row \<Rightarrow> auth_user" where
  "jwt_payload u = \<lparr>au_sub = us_id u, au_role = us_role u, au_email = us_email u\<rparr>"

definition issueSession ::
  "(string \<Rightarrow> string) \<Rightarrow> (auth_user \<Rightarrow> int \<Rightarrow> string) \<Rightarrow> config \<Rightarrow> int \<Rightarrow> string \<Rightarrow> uuid \<Rightarrow> user_row \<Rightarrow>
   session_meta \<Rightarrow> world \<Rightarrow> (world, session) res" where
  "issueSession sha sign cfg t raw new_id u meta w =
     (case issue sha cfg t raw new_id (us_id u) None meta w of
        (Inl e, w1) \<Rightarrow> (Inl e, w1)
      | (Inr (tok, ex), w1) \<Rightarrow>
          (Inr \<lparr>se_accessToken = sign (jwt_payload u) (cf_accessTtl cfg), se_refreshToken = tok,
                se_refreshExpiresAt = ex\<rparr>, w1))"

definition auth_login ::
  "(string \<Rightarrow> string) \<Rightarrow> (auth_user \<Rightarrow> int \<Rightarrow> string) \<Rightarrow> (string \<Rightarrow> string \<Rightarrow> bool option) \<Rightarrow> config \<Rightarrow>
   int \<Rightarrow> string \<Rightarrow> uuid \<Rightarrow> string \<Rightarrow> string \<Rightarrow> session_meta \<Rightarrow> world \<Rightarrow> (world, user_row \<times> session) res" where
  "auth_login sha sign verify cfg t raw new_id email password meta w =
     (case users_findByEmail email w of
        None \<Rightarrow> (Inl (Unauthorized ''Identifiants invalides''), w)
      | Some u \<Rightarrow>
          if account_closed u then (Inl (Unauthorized ''Identifiants invalides''), w)
          else if \<not> verifyPassword verify u password
          then (Inl (Unauthorized ''Identifiants invalides''), w)
          else (case issueSession sha sign cfg t raw new_id u meta w of
                  (Inl e, w1) \<Rightarrow> (Inl e, w1) | (Inr s, w1) \<Rightarrow> (Inr (u, s), w1)))"

definition auth_refresh ::
  "(string \<Rightarrow> string) \<Rightarrow> (auth_user \<Rightarrow> int \<Rightarrow> string) \<Rightarrow> config \<Rightarrow> int \<Rightarrow> string \<Rightarrow> string \<Rightarrow> uuid \<Rightarrow>
   session_meta \<Rightarrow> world \<Rightarrow> (world, session) res" where
  "auth_refresh sha sign cfg t token raw new_id meta w =
     (case rotate sha cfg t token raw new_id meta w of
        (Inl e, w1) \<Rightarrow> (Inl e, w1)
      | (Inr (uid, tok, ex), w1) \<Rightarrow>
          (case users_findById uid w1 of
             None \<Rightarrow> (Inl (Unauthorized ''Compte invalide''), w1)
           | Some u \<Rightarrow>
               if account_closed u then (Inl (Unauthorized ''Compte invalide''), w1)
               else (Inr \<lparr>se_accessToken = sign (jwt_payload u) (cf_accessTtl cfg),
                          se_refreshToken = tok, se_refreshExpiresAt = ex\<rparr>, w1)))"

definition auth_logout ::
  "(string \<Rightarrow> string) \<Rightarrow> int \<Rightarrow> string option \<Rightarrow> uuid option \<Rightarrow> world \<Rightarrow> world" where
  "auth_logout sha t token user w =
     (if truthy token then revoke sha t (coalesce token []) ''logout'' w
      else if truthy user then revokeAllForUser t (coalesce user []) ''logout'' w
      else w)"

definition verifyAccess :: "(string \<Rightarrow> auth_user option) \<Rightarrow> string \<Rightarrow> exn + auth_user" where
  "verifyAccess check_jwt token =
     (case check_jwt token of None \<Rightarrow> Inl (Unauthorized ''Token invalide'') | Some p \<Rightarrow> Inr p)"

section \<open>AuthController\<close>

record cookie =
  ck_name :: string
  ck_value :: string
  ck_httpOnly :: bool
  ck_secure :: bool
  ck_sameSite :: string
  ck_path :: string
  ck_maxAge :: int

definition setAuthCookies :: "config \<Rightarrow> string \<Rightarrow> string \<Rightarrow> cookie list" where
  "setAuthCookies cfg access refresh =
     (let common = \<lambda>n v age. \<lparr>ck_name = n, ck_value = v, ck_httpOnly = True,
            ck_secure = cf_production cfg, ck_sameSite = ''lax'', ck_path = ''/'', ck_maxAge = age\<rparr>
      in [common ''access_token'' access (cf_accessTtl cfg * 1000),
          common ''refresh_token'' refresh (cf_refreshTtl cfg * 1000)])"

definition valid_login :: "(string \<Rightarrow> bool) \<Rightarrow> string \<Rightarrow> string \<Rightarrow> bool" where
  "valid_login is_email email password \<longleftrightarrow> is_email email \<and> length email \<le> 255
     \<and> 8 \<le> length password \<and> length password \<le> 128"

definition valid_register ::
  "(string \<Rightarrow> bool) \<Rightarrow> string \<Rightarrow> string \<Rightarrow> user_role \<Rightarrow> string option \<Rightarrow> bool" where
  "valid_register is_email email password role name \<longleftrightarrow> is_email email \<and> length email \<le> 255
     \<and> 12 \<le> length password \<and> length password \<le> 128 \<and> (role = Customer \<or> role = Seller)
     \<and> length (coalesce name []) \<le> 120"

definition auth_register ::
  "(string \<Rightarrow> bool) \<Rightarrow> (string \<Rightarrow> string) \<Rightarrow> int \<Rightarrow> uuid \<Rightarrow> string \<Rightarrow> string \<Rightarrow> user_role \<Rightarrow> string option \<Rightarrow>
   world \<Rightarrow> (world, bool) res" where
  "auth_register is_email hash t new_id email password role name w =
     (if \<not> valid_register is_email email password role name
      then (Inl (BadRequest ''Bad Request''), w)
      else (case users_findByEmail email w of
              Some _ \<Rightarrow> (Inr True, w)
            | None \<Rightarrow> (case createUser hash t new_id email password role name w of
                         (Inl e, w1) \<Rightarrow> (Inl e, w1) | (Inr _, w1) \<Rightarrow> (Inr True, w1))))"

definition login_post ::
  "(string \<Rightarrow> bool) \<Rightarrow> (string \<Rightarrow> string) \<Rightarrow> (auth_user \<Rightarrow> int \<Rightarrow> string) \<Rightarrow>
   (string \<Rightarrow> string \<Rightarrow> bool option) \<Rightarrow> config \<Rightarrow> int \<Rightarrow> string \<Rightarrow> uuid \<Rightarrow> string \<Rightarrow> string \<Rightarrow>
   session_meta \<Rightarrow> world \<Rightarrow> (world, user_row \<times> string \<times> cookie list) res" where
  "login_post is_email sha sign verify cfg t raw new_id email password meta w =
     (if \<not> valid_login is_email email password then (Inl (BadRequest ''Bad Request''), w)
      else (case auth_login sha sign verify cfg t raw new_id email password meta w of
              (Inl e, w1) \<Rightarrow> (Inl e, w1)
            | (Inr (u, s), w1) \<Rightarrow>
                (Inr (u, se_accessToken s,
                      setAuthCookies cfg (se_accessToken s) (se_refreshToken s)), w1)))"

text \<open>Without a token the controller answers 401 itself; \<open>None\<close> is that answer.\<close>

definition refresh_post ::
  "(string \<Rightarrow> string) \<Rightarrow> (auth_user \<Rightarrow> int \<Rightarrow> string) \<Rightarrow> config \<Rightarrow> int \<Rightarrow> string option \<Rightarrow> string option \<Rightarrow>
   string \<Rightarrow> uuid \<Rightarrow> session_meta \<Rightarrow> world \<Rightarrow> (world, (string \<times> cookie list) option) res" where
  "refresh_post sha sign cfg t cookie_tok body_tok raw new_id meta w =
     (let tok = (case cookie_tok of Some x \<Rightarrow> Some x | None \<Rightarrow> body_tok)
      in if \<not> truthy tok then (Inr None, w)
         else (case auth_refresh sha sign cfg t (coalesce tok []) raw new_id meta w of
                 (Inl e, w1) \<Rightarrow> (Inl e, w1)
               | (Inr s, w1) \<Rightarrow>
                   (Inr (Some (se_accessToken s,
                      setAuthCookies cfg (se_accessToken s) (se_refreshToken s))), w1)))"

definition logout_post :: "(string \<Rightarrow> string) \<Rightarrow> int \<Rightarrow> string option \<Rightarrow> auth_user \<Rightarrow> world \<Rightarrow> world" where
  "logout_post sha t cookie_tok user w = auth_logout sha t cookie_tok (Some (au_sub user)) w"

section \<open>Facts\<close>

definition live :: "token_row \<Rightarrow> bool" where
  "live r \<longleftrightarrow> rt_revokedAt r = None"

lemma revoke_rows_clash_free [inv_intros]:
  "clash_free token_clash rows \<Longrightarrow> clash_free token_clash (revoke_rows t reason p rows)"
  unfolding revoke_rows_def by (rule clash_free_update) (auto simp: token_clash_def split: if_splits)

lemma revoke_rows_dead: "r \<in> set (revoke_rows t reason p rows) \<Longrightarrow> p r \<Longrightarrow>
    (\<And>x. p (x\<lparr>rt_revokedAt := Some t, rt_revokedReason := Some reason\<rparr>) = p x) \<Longrightarrow> \<not> live r"
  unfolding revoke_rows_def live_def by (auto elim!: in_update_rowsE split: if_splits)

lemma metrics_tokens [simp]: "w_tokens (metrics_count cfg t n v d w) = w_tokens w"
  using db_eqD(10) [OF db_metrics(1)] .

lemma issue_Inr:
  assumes "issue sha cfg t raw i u par meta w = (Inr (tok, ex), w')"
  shows "tok = raw \<and> ex = t + cf_refreshTtl cfg * 1000 \<and> (\<exists>row. w_tokens w' = w_tokens w @ [row]
     \<and> (\<forall>x \<in> set (w_tokens w). \<not> token_clash x row) \<and> rt_id row = i \<and> rt_userId row = u
     \<and> rt_tokenHash row = sha raw \<and> rt_parentId row = par \<and> rt_expiresAt row = ex \<and> live row)"
  using assms by (auto simp: issue_def Let_def live_def split: sum.splits dest!: insert_row_InrD)

lemma rotate_find_Inr:
  assumes "rotate_find sha cfg t token w = (Inr found, w')"
  shows "w' = w \<and> found \<in> set (w_tokens w) \<and> rt_tokenHash found = sha token \<and> live found
     \<and> t \<le> rt_expiresAt found \<and> find (\<lambda>r. rt_tokenHash r = sha token) (w_tokens w) = Some found"
  using assms by (auto simp: rotate_find_def live_def split: option.splits if_splits dest: find_SomeD)

lemma token_unique:
  "clash_free token_clash rows \<Longrightarrow> x \<in> set rows \<Longrightarrow> y \<in> set rows \<Longrightarrow>
   rt_tokenHash x = rt_tokenHash y \<or> rt_id x = rt_id y \<Longrightarrow> x = y"
  by (rule ccontr) (use clash_freeD [of token_clash rows x y] in \<open>auto simp: token_clash_def\<close>)

text \<open>The two halves of a rotation, on the table of tokens.\<close>

definition retired :: "int \<Rightarrow> uuid \<Rightarrow> token_row list \<Rightarrow> token_row list" where
  "retired t i rows = update_rows (\<lambda>r. rt_id r = i)
     (\<lambda>r. r\<lparr>rt_revokedAt := Some t, rt_revokedReason := Some ''rotated''\<rparr>) rows"

lemma rotate_apply_Inr:
  assumes "rotate_apply sha cfg t raw i meta f w = (Inr (uid, tok, ex), w')"
  shows "uid = rt_userId f \<and> tok = raw \<and> (\<exists>row. w_tokens w' = retired t (rt_id f) (w_tokens w) @ [row]
     \<and> (\<forall>x \<in> set (retired t (rt_id f) (w_tokens w)). \<not> token_clash x row) \<and> rt_userId row = uid
     \<and> rt_id row = i \<and> rt_tokenHash row = sha raw \<and> rt_parentId row = Some (rt_id f) \<and> live row)"
proof -
  define w1 where "w1 = metrics_count cfg t ''RefreshTokenRotated'' 1 None
    (w\<lparr>w_tokens := retired t (rt_id f) (w_tokens w)\<rparr>)"
  from assms have "uid = rt_userId f"
    and iss: "issue sha cfg t raw i (rt_userId f) (Some (rt_id f)) meta w1 = (Inr (tok, ex), w')"
    by (auto simp: rotate_apply_def Let_def w1_def retired_def split: prod.splits sum.splits)
  moreover have "w_tokens w1 = retired t (rt_id f) (w_tokens w)" by (simp add: w1_def)
  ultimately show ?thesis using issue_Inr [OF iss] by auto
qed

lemma rotate_Inr:
  assumes "rotate sha cfg t token raw i meta w = (Inr out, w')"
  obtains f where "rotate_find sha cfg t token w = (Inr f, w)"
    "rotate_apply sha cfg t raw i meta f w = (Inr out, w')"
proof -
  from assms obtain f w1 where f: "rotate_find sha cfg t token w = (Inr f, w1)"
    and ap: "rotate_apply sha cfg t raw i meta f w1 = (Inr out, w')"
    by (auto simp: rotate_def split: prod.splits sum.splits)
  moreover have "w1 = w" using rotate_find_Inr [OF f] by simp
  ultimately show thesis using that by simp
qed

lemma find_retired:
  assumes "find (\<lambda>r. rt_tokenHash r = h) rows = Some f"
  shows "\<exists>g. find (\<lambda>r. rt_tokenHash r = h) (retired t (rt_id f) rows) = Some g \<and> \<not> live g
    \<and> rt_userId g = rt_userId f"
  using assms by (simp add: retired_def find_update_rows live_def)

text \<open>Presenting a revoked token ends every session of its user.\<close>

lemma rotate_revoked:
  assumes "find (\<lambda>r. rt_tokenHash r = sha token) (w_tokens w) = Some g" "\<not> live g"
  shows "\<exists>m w'. rotate sha cfg t token raw i meta w = (Inl (Forbidden m), w')
    \<and> (\<forall>r \<in> set (w_tokens w'). rt_userId r = rt_userId g \<longrightarrow> \<not> live r)"
  using assms revoke_rows_dead [where p = "\<lambda>r. rt_userId r = rt_userId g"]
  by (auto simp: rotate_def rotate_find_def live_def revokeAllForUser_def)

section \<open>Properties\<close>

text \<open>
  C23: rotation makes a refresh token single-use: it issues a new live token of the same user,
  and presenting the old token again, at any time, is refused and revokes every token of that
  user, the new one included.
\<close>

theorem refresh_token_single_use:
  assumes "rotate sha cfg t token raw i meta w = (Inr (uid, tok, ex), w')"
  shows "(\<exists>row \<in> set (w_tokens w'). rt_tokenHash row = sha tok \<and> rt_userId row = uid \<and> live row)
    \<and> (\<exists>m w''. rotate sha cfg t2 token raw2 i2 meta2 w' = (Inl (Forbidden m), w'')
         \<and> (\<forall>r \<in> set (w_tokens w''). rt_userId r = uid \<longrightarrow> \<not> live r))"
proof -
  from assms obtain f where f: "rotate_find sha cfg t token w = (Inr f, w)"
    and ap: "rotate_apply sha cfg t raw i meta f w = (Inr (uid, tok, ex), w')" by (rule rotate_Inr)
  from rotate_apply_Inr [OF ap] obtain row where tok: "tok = raw" and uid: "uid = rt_userId f"
    and row: "w_tokens w' = retired t (rt_id f) (w_tokens w) @ [row]"
    "rt_userId row = uid" "rt_tokenHash row = sha raw" "live row" by blast
  from find_retired rotate_find_Inr [OF f] obtain g where
    "find (\<lambda>r. rt_tokenHash r = sha token) (retired t (rt_id f) (w_tokens w)) = Some g"
    and g: "\<not> live g" "rt_userId g = uid" unfolding uid by blast
  then have "find (\<lambda>r. rt_tokenHash r = sha token) (w_tokens w') = Some g"
    by (simp add: row(1) find_append)
  from rotate_revoked [where sha = sha and token = token, OF this g(1)] g(2) have "\<exists>m w''.
      rotate sha cfg t2 token raw2 i2 meta2 w' = (Inl (Forbidden m), w'')
      \<and> (\<forall>r \<in> set (w_tokens w''). rt_userId r = uid \<longrightarrow> \<not> live r)" by simp
  with row tok show ?thesis by auto
qed

definition sample_token :: token_row where
  "sample_token = \<lparr>rt_id = m_one, rt_userId = u_alice, rt_tokenHash = ''h:old'', rt_parentId = None,
     rt_userAgent = None, rt_ip = None, rt_expiresAt = 100, rt_revokedAt = None,
     rt_revokedReason = None\<rparr>"

definition sample_meta :: session_meta where
  "sample_meta = \<lparr>sm_ip = None, sm_userAgent = None\<rparr>"

theorem refresh_token_single_use_witness:
  "\<exists>out w' m w''. rotate (\<lambda>x. ''h:'' @ x) default_config 5 ''old'' ''new'' m_two sample_meta
       (sample_world\<lparr>w_tokens := [sample_token]\<rparr>) = (Inr out, w')
     \<and> rotate (\<lambda>x. ''h:'' @ x) default_config 6 ''old'' ''x'' b_one sample_meta w'
         = (Inl (Forbidden m), w'')"
proof -
  have "\<exists>out w'. rotate (\<lambda>x. ''h:'' @ x) default_config 5 ''old'' ''new'' m_two sample_meta
       (sample_world\<lparr>w_tokens := [sample_token]\<rparr>) = (Inr out, w')"
    by (rule run_Inr) code_simp
  then obtain uid tok ex w' where run: "rotate (\<lambda>x. ''h:'' @ x) default_config 5 ''old'' ''new''
      m_two sample_meta (sample_world\<lparr>w_tokens := [sample_token]\<rparr>) = (Inr (uid, tok, ex), w')"
    by auto
  from refresh_token_single_use [OF this, of 6 "''x''" b_one sample_meta] run show ?thesis by blast
qed

text \<open>
  the check and the revocation of a rotation are not one step: when two requests with the
  same token both read its row before either writes, both rotations succeed, no replay is
  detected, and two live tokens descend from the one presented.
\<close>

theorem concurrent_rotation_forks:
  assumes "rotate_find sha cfg t1 token w = (Inr f, w)" "rotate_find sha cfg t2 token w = (Inr f, w)"
    and "rotate_apply sha cfg t1 raw1 i1 meta1 f w = (Inr out1, w1)"
    and "rotate_apply sha cfg t2 raw2 i2 meta2 f w1 = (Inr out2, w2)" "i1 \<noteq> rt_id f"
  shows "\<exists>a \<in> set (w_tokens w2). \<exists>b \<in> set (w_tokens w2). a \<noteq> b \<and> live a \<and> live b
    \<and> rt_parentId a = Some (rt_id f) \<and> rt_parentId b = Some (rt_id f)
    \<and> rt_tokenHash a = sha raw1 \<and> rt_tokenHash b = sha raw2"
proof -
  obtain u1 k1 e1 where "out1 = (u1, k1, e1)" by (cases out1)
  with rotate_apply_Inr assms(3) obtain a where a0: "w_tokens w1 = retired t1 (rt_id f) (w_tokens w) @ [a]"
    and a: "rt_id a = i1" "live a" "rt_parentId a = Some (rt_id f)" "rt_tokenHash a = sha raw1" by blast
  obtain u2 k2 e2 where "out2 = (u2, k2, e2)" by (cases out2)
  with rotate_apply_Inr assms(4) obtain b where
    b: "w_tokens w2 = retired t2 (rt_id f) (w_tokens w1) @ [b]" "live b"
      "rt_parentId b = Some (rt_id f)" "rt_tokenHash b = sha raw2"
      "\<forall>x \<in> set (retired t2 (rt_id f) (w_tokens w1)). \<not> token_clash x b" by blast
  have "a \<in> set (retired t2 (rt_id f) (w_tokens w1))"
    using a(1) assms(5) by (simp add: a0 retired_def)
  moreover from this b(5) have "a \<noteq> b" by (auto simp: token_clash_def)
  ultimately show ?thesis using a b(1-4) by (intro bexI [of _ a] bexI [of _ b]) simp_all
qed

theorem concurrent_rotation_forks_witness:
  "\<exists>out1 w1 out2 w2.
     rotate_apply (\<lambda>x. ''h:'' @ x) default_config 5 ''new'' m_two sample_meta sample_token
       (sample_world\<lparr>w_tokens := [sample_token]\<rparr>) = (Inr out1, w1)
     \<and> rotate_apply (\<lambda>x. ''h:'' @ x) default_config 5 ''other'' b_one sample_meta sample_token w1
         = (Inr out2, w2)
     \<and> (\<exists>a \<in> set (w_tokens w2). \<exists>b \<in> set (w_tokens w2). a \<noteq> b \<and> live a \<and> live b)"
proof -
  let ?sha = "\<lambda>x. ''h:'' @ x" and ?w = "sample_world\<lparr>w_tokens := [sample_token]\<rparr>"
  have f: "rotate_find ?sha default_config 5 ''old'' ?w = (Inr sample_token, ?w)"
    by (simp add: rotate_find_def sample_token_def)
  have "\<exists>out1 w1. rotate_apply ?sha default_config 5 ''new'' m_two sample_meta sample_token ?w
      = (Inr out1, w1)" by (rule run_Inr) code_simp
  then obtain out1 w1 where
    r1: "rotate_apply ?sha default_config 5 ''new'' m_two sample_meta sample_token ?w = (Inr out1, w1)"
    by blast
  have "\<not> isl (fst (rotate_apply ?sha default_config 5 ''other'' b_one sample_meta sample_token
      (snd (rotate_apply ?sha default_config 5 ''new'' m_two sample_meta sample_token ?w))))"
    by code_simp
  from run_Inr [OF this] r1 obtain out2 w2 where
    r2: "rotate_apply ?sha default_config 5 ''other'' b_one sample_meta sample_token w1 = (Inr out2, w2)"
    by auto
  have "m_two \<noteq> rt_id sample_token" by (simp add: sample_token_def sample_ids)
  from concurrent_rotation_forks [OF f f r1 r2 this] r1 r2 show ?thesis by blast
qed

end
