(* ===== verification/Privacy.thy ===== *)
theory Privacy
  imports Search Sessions Outbox
begin

text \<open>
  The user's rights on his data: \<open>PrivacyService\<close> and its controller
  (backend/src/modules/privacy): export of his data with the messages decrypted, and
  anonymisation.

  The revocation of the tokens inside the transaction runs on another connection; it is its
  last statement, so it is modelled as part of it. The unique constraint on the e-mail is
  checked for the pseudonymous address.
\<close>

section \<open>Export\<close>

record exported_message =
  xm_id :: uuid
  xm_conversationId :: uuid
  xm_sequence :: int
  xm_createdAt :: int
  xm_body :: string

record exported_attachment =
  xa_id :: uuid
  xa_conversationId :: uuid
  xa_originalFilename :: string
  xa_mimeType :: string
  xa_sizeBytes :: int
  xa_createdAt :: int

record exported_data =
  xd_exportedAt :: int
  xd_userId :: uuid
  xd_email :: string
  xd_role :: user_role
  xd_displayName :: "string option"
  xd_createdAt :: int
  xd_conversations :: "uuid list"
  xd_messages :: "exported_message list"
  xd_attachments :: "exported_attachment list"

definition decryptIfNeeded ::
  "crypto_env \<Rightarrow> kms \<Rightarrow> int \<Rightarrow> msg_row \<Rightarrow> world \<Rightarrow> string \<times> world" where
  "decryptIfNeeded env k t m w =
     (case ms_body m of
        Some b \<Rightarrow> (b, w)
      | None \<Rightarrow>
          (case (ms_bodyCiphertext m, ms_bodyIv m, ms_bodyTag m) of
             (Some ct, Some iv, Some tag) \<Rightarrow>
               if truthy (ms_bodyDekId m) then
                 (case decrypt env k t ct iv tag (coalesce (ms_bodyDekId m) []) (w_dekCache w) of
                    (Inl e, c) \<Rightarrow> ([], w\<lparr>w_dekCache := c\<rparr>)
                  | (Inr body, c) \<Rightarrow> (body, w\<lparr>w_dekCache := c\<rparr>))
               else ([], w)
           | _ \<Rightarrow> ([], w)))"

definition export_message :: "msg_row \<Rightarrow> string \<Rightarrow> exported_message" where
  "export_message m body =
     \<lparr>xm_id = ms_id m, xm_conversationId = ms_conversationId m, xm_sequence = ms_sequence m,
      xm_createdAt = ms_createdAt m, xm_body = body\<rparr>"

fun export_messages ::
  "crypto_env \<Rightarrow> kms \<Rightarrow> int \<Rightarrow> msg_row list \<Rightarrow> world \<Rightarrow> exported_message list \<times> world" where
  "export_messages env k t [] w = ([], w)"
| "export_messages env k t (m # ms) w =
     (let (body, w1) = decryptIfNeeded env k t m w;
          (xs, w2) = export_messages env k t ms w1
      in (export_message m body # xs, w2))"

definition own_messages :: "uuid \<Rightarrow> world \<Rightarrow> msg_row list" where
  "own_messages u w = filter (\<lambda>m. ms_senderId m = u \<and> ms_deletedAt m = None) (w_msgs w)"

definition export_attachment :: "att_row \<Rightarrow> exported_attachment" where
  "export_attachment a =
     \<lparr>xa_id = at_id a, xa_conversationId = at_conversationId a,
      xa_originalFilename = at_originalFilename a, xa_mimeType = at_mimeType a,
      xa_sizeBytes = at_sizeBytes a, xa_createdAt = at_createdAt a\<rparr>"

definition exportUserData ::
  "crypto_env \<Rightarrow> kms \<Rightarrow> int \<Rightarrow> uuid \<Rightarrow> world \<Rightarrow> (world, exported_data) res" where
  "exportUserData env k t i w =
     (case find (\<lambda>u. us_id u = i) (w_users w) of
        None \<Rightarrow> (Inl (NotFound ''Not Found''), w)
      | Some user \<Rightarrow>
          (let convIds = map pt_conversationId (filter (\<lambda>p. pt_userId p = i) (w_parts w));
               messages = (if convIds = [] then [] else own_messages i w);
               (decrypted, w1) = export_messages env k t messages w;
               atts = filter (\<lambda>a. at_uploaderId a = i) (w_atts w1);
               w2 = w1\<lparr>w_users := update_rows (\<lambda>u. us_id u = i)
                        (\<lambda>u. u\<lparr>us_dataExportRequestedAt := Some t\<rparr>) (w_users w1)\<rparr>
           in (Inr \<lparr>xd_exportedAt = t, xd_userId = us_id user, xd_email = us_email user,
                    xd_role = us_role user, xd_displayName = us_displayName user,
                    xd_createdAt = us_createdAt user, xd_conversations = convIds,
                    xd_messages = decrypted, xd_attachments = map export_attachment atts\<rparr>,
               audit_log (mk_audit i ''privacy.exported'' ''user'' i None) w2)))"

section \<open>Anonymisation\<close>

definition pseudo_email :: "uuid \<Rightarrow> string" where
  "pseudo_email i = ''anon_'' @ i @ ''@deleted.invalid''"

definition anonymize_row :: "int \<Rightarrow> user_row \<Rightarrow> user_row" where
  "anonymize_row t u =
     u\<lparr>us_email := pseudo_email (us_id u), us_displayName := Some (''Utilisateur supprim'' @ [CHR 0xE9]),
       us_passwordHash := ''INVALID'', us_mfaSecret := None, us_anonymizedAt := Some t,
       us_isSuspended := True\<rparr>"

definition wipe_row :: "int \<Rightarrow> msg_row \<Rightarrow> msg_row" where
  "wipe_row t m =
     m\<lparr>ms_body := None, ms_bodyCiphertext := None, ms_bodyIv := None, ms_bodyTag := None,
       ms_bodyDekId := None, ms_bodyAlg := None, ms_status := Deleted,
       ms_deletedAt := Some (coalesce (ms_deletedAt m) t)\<rparr>"

definition anonymize_tx :: "int \<Rightarrow> uuid \<Rightarrow> world \<Rightarrow> exn + unit \<times> world" where
  "anonymize_tx t i w =
     (case find (\<lambda>u. us_id u = i) (w_users w) of
        None \<Rightarrow> Inl (NotFound ''Not Found'')
      | Some user \<Rightarrow>
          if us_anonymizedAt user \<noteq> None then Inr ((), w)
          else if list_ex (\<lambda>u. us_id u \<noteq> i \<and> to_lower (us_email u) = to_lower (pseudo_email i)) (w_users w)
          then Inl (DbError ''23505'')
          else Inr ((), revokeAllForUser t i ''gdpr_anonymized''
                 (w\<lparr>w_users := update_rows (\<lambda>u. us_id u = i) (anonymize_row t) (w_users w),
                    w_msgs := update_rows (\<lambda>m. ms_senderId m = i) (wipe_row t) (w_msgs w)\<rparr>)))"

definition anonymizeUser :: "int \<Rightarrow> uuid \<Rightarrow> uuid \<Rightarrow> world \<Rightarrow> (world, unit) res" where
  "anonymizeUser t i actor w =
     (case transact (anonymize_tx t i) w of
        (Inl e, w1) \<Rightarrow> (Inl e, w1)
      | (Inr _, w1) \<Rightarrow>
          (Inr (), audit_log (mk_audit actor ''privacy.anonymized'' ''user'' i None) w1))"

section \<open>The controller\<close>

definition exportMine :: "crypto_env \<Rightarrow> kms \<Rightarrow> int \<Rightarrow> auth_user \<Rightarrow> world \<Rightarrow> (world, exported_data) res" where
  "exportMine env k t user w = exportUserData env k t (au_sub user) w"

definition deleteMine :: "int \<Rightarrow> auth_user \<Rightarrow> world \<Rightarrow> (world, unit) res" where
  "deleteMine t user w = anonymizeUser t (au_sub user) (au_sub user) w"

definition deleteByAdmin :: "int \<Rightarrow> auth_user \<Rightarrow> string \<Rightarrow> world \<Rightarrow> (world, unit) res" where
  "deleteByAdmin t user raw w =
     (case roles_guard (Some [Admin]) (Some user) of
        Inl e \<Rightarrow> (Inl e, w)
      | Inr _ \<Rightarrow>
          (case uuid_pipe raw of
             Inl e \<Rightarrow> (Inl e, w) | Inr i \<Rightarrow> anonymizeUser t i (au_sub user) w))"

section \<open>Facts\<close>

lemma db_decryptIfNeeded: "db (snd (decryptIfNeeded env k t m w)) = db w"
  by (simp add: decryptIfNeeded_def split: option.splits sum.splits prod.splits)

lemma export_messages_facts:
  "db (snd (export_messages env k t ms w)) = db w
   \<and> list_all2 (\<lambda>m x. \<exists>body. x = export_message m body \<and> (\<forall>b. ms_body m = Some b \<longrightarrow> body = b))
       ms (fst (export_messages env k t ms w))"
proof (induction ms arbitrary: w)
  case (Cons m ms)
  obtain body w1 where d: "decryptIfNeeded env k t m w = (body, w1)" by fastforce
  have "db w1 = db w" using db_decryptIfNeeded [of env k t m w] d by simp
  moreover have "\<forall>b. ms_body m = Some b \<longrightarrow> body = b" using d by (auto simp: decryptIfNeeded_def)
  ultimately show ?case using d Cons [of w1] by (auto split: prod.split)
qed simp

lemma user_rows_inv:
  assumes "inv w" "\<And>u. us_id (f u) = us_id u" "\<And>u. us_email (f u) = us_email u"
  shows "inv (w\<lparr>w_users := update_rows p f (w_users w)\<rparr>)"
  using assms(1) by (rule inv_table(1))
    (rule clash_free_update [OF inv_tables(1) [OF assms(1)]],
      auto simp: user_clash_def assms(2,3) split: if_splits)

lemma exportUserData_inv [inv_intros]: "inv w \<Longrightarrow> inv (snd (exportUserData env k t i w))"
proof (cases "find (\<lambda>u. us_id u = i) (w_users w)")
  case (Some u)
  assume i: "inv w"
  let ?ms = "if map pt_conversationId (filter (\<lambda>p. pt_userId p = i) (w_parts w)) = [] then []
    else own_messages i w"
  obtain xs w1 where e: "export_messages env k t ?ms w = (xs, w1)" by fastforce
  have "db w1 = db w" using export_messages_facts [of env k t ?ms w] e by simp
  with i have "inv w1" by (simp add: inv_db [of w1 w])
  then have "inv (w1\<lparr>w_users := update_rows (\<lambda>u. us_id u = i)
      (\<lambda>u. u\<lparr>us_dataExportRequestedAt := Some t\<rparr>) (w_users w1)\<rparr>)"
    by (rule user_rows_inv) simp_all
  with Some e show ?thesis by (simp add: exportUserData_def Let_def)
qed (simp add: exportUserData_def)

lemma anonymized_users_clash_free:
  assumes "clash_free user_clash rows"
    and "\<forall>u \<in> set rows. us_id u \<noteq> i \<longrightarrow> to_lower (us_email u) \<noteq> to_lower (pseudo_email i)"
  shows "clash_free user_clash (update_rows (\<lambda>u. us_id u = i) (anonymize_row t) rows)"
  using assms
proof (induction rows)
  case (Cons u rows)
  let ?f = "\<lambda>u. if us_id u = i then anonymize_row t u else u"
  have c: "\<not> user_clash (?f u) (?f v)" if v: "v \<in> set rows" for v
  proof -
    have n: "\<not> user_clash u v" using Cons.prems(1) v by (simp add: clash_free_def)
    show ?thesis
      using n Cons.prems(2) v by (cases "us_id u = i"; cases "us_id v = i")
        (auto simp: user_clash_def anonymize_row_def)
  qed
  have "\<not> user_clash (?f u) x" if "x \<in> set (update_rows (\<lambda>u. us_id u = i) (anonymize_row t) rows)" for x
    using that by (rule in_update_rowsE) (use c in simp)
  moreover have "clash_free user_clash (update_rows (\<lambda>u. us_id u = i) (anonymize_row t) rows)"
    using Cons.prems by (intro Cons.IH) (simp_all add: clash_free_def)
  moreover have "update_rows (\<lambda>u. us_id u = i) (anonymize_row t) (u # rows)
      = ?f u # update_rows (\<lambda>u. us_id u = i) (anonymize_row t) rows"
    by (simp add: update_rows_def)
  ultimately show ?case by (simp only: clash_free_def sorted_wrt.simps) blast
qed (simp add: update_rows_def)

text \<open>A successful anonymisation, when the account was not anonymised before.\<close>

lemma anonymizeUser_fresh:
  assumes "anonymizeUser t i a w = (Inr (), w')" "find (\<lambda>u. us_id u = i) (w_users w) = Some u"
    "us_anonymizedAt u = None"
  shows "w' = audit_log (mk_audit a ''privacy.anonymized'' ''user'' i None)
      (revokeAllForUser t i ''gdpr_anonymized''
        (w\<lparr>w_users := update_rows (\<lambda>u. us_id u = i) (anonymize_row t) (w_users w),
           w_msgs := update_rows (\<lambda>m. ms_senderId m = i) (wipe_row t) (w_msgs w)\<rparr>))
    \<and> (\<forall>v \<in> set (w_users w). us_id v \<noteq> i \<longrightarrow> to_lower (us_email v) \<noteq> to_lower (pseudo_email i))"
  using assms by (auto simp: anonymizeUser_def anonymize_tx_def transact_def list_ex_iff
      split: if_splits)

lemma revokeAll_other [simp]:
  "w_users (revokeAllForUser t i r w) = w_users w" "w_msgs (revokeAllForUser t i r w) = w_msgs w"
  "w_outbox (revokeAllForUser t i r w) = w_outbox w" "w_index (revokeAllForUser t i r w) = w_index w"
  "w_tokens (revokeAllForUser t i r w) = revoke_rows t r (\<lambda>x. rt_userId x = i) (w_tokens w)"
  by (simp_all add: revokeAllForUser_def)

lemma revokeAll_inv [inv_intros]: "inv w \<Longrightarrow> inv (revokeAllForUser t i r w)"
  unfolding revokeAllForUser_def
  by (rule inv_table(6), assumption, rule revoke_rows_clash_free, rule inv_tables(8))

lemma anonymizeUser_inv [inv_intros]:
  assumes "inv w"
  shows "inv (snd (anonymizeUser t i a w))"
proof (cases "find (\<lambda>u. us_id u = i) (w_users w)")
  case None
  then show ?thesis using assms by (simp add: anonymizeUser_def anonymize_tx_def transact_def)
next
  case (Some u)
  show ?thesis
  proof (cases "us_anonymizedAt u \<noteq> None \<or> list_ex (\<lambda>u. us_id u \<noteq> i
      \<and> to_lower (us_email u) = to_lower (pseudo_email i)) (w_users w)")
    case True
    with Some assms show ?thesis by (auto simp: anonymizeUser_def anonymize_tx_def transact_def)
  next
    case False
    let ?w = "w\<lparr>w_users := update_rows (\<lambda>u. us_id u = i) (anonymize_row t) (w_users w)\<rparr>"
    have "inv ?w" using assms by (rule inv_table(1))
      (rule anonymized_users_clash_free [OF inv_tables(1) [OF assms]], use False in \<open>auto simp: list_ex_iff\<close>)
    then have "inv (?w\<lparr>w_msgs := update_rows (\<lambda>m. ms_senderId m = i) (wipe_row t) (w_msgs ?w)\<rparr>)"
      by (rule inv_update_msgs) (simp_all add: wipe_row_def)
    then have "inv (revokeAllForUser t i ''gdpr_anonymized''
        (w\<lparr>w_users := update_rows (\<lambda>u. us_id u = i) (anonymize_row t) (w_users w),
           w_msgs := update_rows (\<lambda>m. ms_senderId m = i) (wipe_row t) (w_msgs w)\<rparr>))"
      using revokeAll_inv by simp
    with Some False show ?thesis by (simp add: anonymizeUser_def anonymize_tx_def transact_def)
  qed
qed

section \<open>Properties\<close>

definition no_content :: "msg_row \<Rightarrow> bool" where
  "no_content m \<longleftrightarrow> ms_body m = None \<and> ms_bodyCiphertext m = None \<and> ms_bodyIv m = None
     \<and> ms_bodyTag m = None \<and> ms_bodyDekId m = None \<and> ms_status m = Deleted \<and> ms_deletedAt m \<noteq> None"


lemma inv_one_message: "inv (sample_world\<lparr>w_convs := [(sample_conv c_one o_one)\<lparr>cv_lastSequence := 1\<rparr>],
    w_msgs := [sample_msg None]\<rparr>)"
proof -
  have "schema_ok (sample_world\<lparr>w_convs := [(sample_conv c_one o_one)\<lparr>cv_lastSequence := 1\<rparr>],
      w_msgs := [sample_msg None]\<rparr>)"
    using schema_ok_sample by (simp add: schema_ok_def clash_free_def)
  then show ?thesis
    by (simp add: inv_def seq_ok_def msgs_of_def sample_msg_def new_message_def sample_input_def sample_conv_def)
qed


text \<open>
  anonymisation does not reach the copies: the outbox rows with the texts of his messages in
  clear and the documents of the search index stay, and the other participants go on finding
  them by search.
\<close>

theorem anonymization_leaves_copies:
  assumes "anonymizeUser t i a w = (Inr (), w')"
  shows "w_outbox w' = w_outbox w \<and> w_index w' = w_index w
    \<and> os_search sv cfg u q c l w' = os_search sv cfg u q c l w"
proof -
  have "w_outbox w' = w_outbox w \<and> w_index w' = w_index w \<and> w_indexReady w' = w_indexReady w"
    using assms by (auto simp: anonymizeUser_def anonymize_tx_def transact_def revokeAllForUser_def audit_log_def
        split: option.splits if_splits)
  then show ?thesis by (simp add: os_search_def os_isEnabled_def search_docs_def)
qed

theorem anonymization_leaves_copies_witness:
  "\<exists>w'. anonymizeUser 9 u_alice u_alice sample_indexed = (Inr (), w')
     \<and> length (fst (os_search sample_engine search_config u_bob ''ab'' None None w')) = 1"
proof -
  have "\<exists>x w'. anonymizeUser 9 u_alice u_alice sample_indexed = (Inr x, w')" by (rule run_Inr) code_simp
  then obtain w' where a: "anonymizeUser 9 u_alice u_alice sample_indexed = (Inr (), w')" by auto
  have "length (fst (os_search sample_engine search_config u_bob ''ab'' None None sample_indexed)) = 1"
    by (simp add: os_isEnabled_def search_config_def sample_indexed_def os_search_def search_docs_def
        sample_engine_def Let_def)
  with anonymization_leaves_copies [OF a, of sample_engine search_config u_bob "''ab''" None None] a
  show ?thesis by auto
qed

text \<open>
  an export holds the user's own data and all of it: exactly his messages that are not
  deleted, each with its text where the store has it in clear, and exactly his uploads.
\<close>

theorem export_is_own_data:
  assumes "exportUserData env k t i w = (Inr x, w')"
    and "\<exists>p \<in> set (w_parts w). pt_userId p = i"
  shows "xd_userId x = i
    \<and> list_all2 (\<lambda>m e. xm_id e = ms_id m \<and> xm_sequence e = ms_sequence m
         \<and> (\<forall>b. ms_body m = Some b \<longrightarrow> xm_body e = b)) (own_messages i w) (xd_messages x)
    \<and> xd_attachments x = map export_attachment (filter (\<lambda>a. at_uploaderId a = i) (w_atts w))"
proof -
  from assms(1) obtain u where u: "find (\<lambda>u. us_id u = i) (w_users w) = Some u"
    by (cases "find (\<lambda>u. us_id u = i) (w_users w)") (simp_all add: exportUserData_def)
  from assms(2) have ne: "map pt_conversationId (filter (\<lambda>p. pt_userId p = i) (w_parts w)) \<noteq> []"
    by (auto simp: filter_empty_conv)
  obtain xs w1 where e: "export_messages env k t (own_messages i w) w = (xs, w1)" by fastforce
  note f = export_messages_facts [of env k t "own_messages i w" w, unfolded e fst_conv snd_conv]
  have x: "xd_userId x = us_id u" "xd_messages x = xs"
    "xd_attachments x = map export_attachment (filter (\<lambda>a. at_uploaderId a = i) (w_atts w1))"
    using assms(1) u ne e by (auto simp: exportUserData_def Let_def)
  have "list_all2 (\<lambda>m e. xm_id e = ms_id m \<and> xm_sequence e = ms_sequence m
         \<and> (\<forall>b. ms_body m = Some b \<longrightarrow> xm_body e = b)) (own_messages i w) xs"
    using f [THEN conjunct2] by (rule list_all2_mono) (auto simp: export_message_def)
  then show ?thesis using x find_SomeD [OF u] db_eqD(15) [OF f [THEN conjunct1]] by simp
qed

theorem export_is_own_data_witness:
  "\<exists>x w'. exportUserData toy_env (Local_kms toy_kms) 9 u_alice (sample_world\<lparr>w_msgs := [sample_msg None]\<rparr>)
      = (Inr x, w') \<and> xd_userId x = u_alice \<and> length (xd_messages x) = 1"
proof -
  let ?w = "sample_world\<lparr>w_msgs := [sample_msg None]\<rparr>"
  have "\<exists>x w'. exportUserData toy_env (Local_kms toy_kms) 9 u_alice ?w = (Inr x, w')"
    by (rule run_Inr) code_simp
  then obtain x w' where x: "exportUserData toy_env (Local_kms toy_kms) 9 u_alice ?w = (Inr x, w')" by blast
  have "\<exists>p \<in> set (w_parts ?w). pt_userId p = u_alice" by (simp add: sample_world_def sample_part_def)
  moreover have "length (own_messages u_alice ?w) = 1"
    by (simp add: own_messages_def sample_msg_def new_message_def sample_input_def)
  ultimately show ?thesis using export_is_own_data [OF x] x by (auto dest: list_all2_lengthD)
qed

end
