(* ===== verification/Api.thy ===== *)
theory Api
  imports Moderation Presence Outbox E2ee Attachments Privacy
begin

text \<open>
  The server as a whole: \<open>api_step\<close> is the step relation whose steps are the handlers of the
  controllers, the ticks of the outbox worker and the presence updates of the gateways, each
  with any parameters. The composition shows what holds over every history of the server:
  the invariants of the database and of the MLS logs are kept (\<open>wf\<close>), and nobody loses his
  access to a conversation (\<open>kept\<close>). \<open>sound\<close> is the two together for one operation.
\<close>

section \<open>What an operation must respect\<close>

definition wf :: "world \<Rightarrow> bool" where
  "wf w \<longleftrightarrow> inv w \<and> mls_ok w"

definition members :: "world \<Rightarrow> (uuid \<times> uuid) set" where
  "members w = (\<lambda>p. (pt_conversationId p, pt_userId p)) ` {p \<in> set (w_parts w). pt_leftAt p = None}"

definition kept :: "world \<Rightarrow> world \<Rightarrow> bool" where
  "kept w w' \<longleftrightarrow> cv_id ` set (w_convs w) \<subseteq> cv_id ` set (w_convs w') \<and> members w \<subseteq> members w'"

definition sound :: "world \<Rightarrow> world \<Rightarrow> bool" where
  "sound w w' \<longleftrightarrow> (wf w \<longrightarrow> wf w') \<and> kept w w'"

lemma active_part_members: "active_part c u w \<noteq> None \<longleftrightarrow> (c, u) \<in> members w"
  by (auto simp: active_part_def members_def find_None_iff)

lemma may_access_members: "may_access u r c w \<longleftrightarrow>
    c \<in> cv_id ` set (w_convs w) \<and> (is_staff r \<or> (c, u) \<in> members w)"
  unfolding may_access_def active_part_members by (auto simp: list_ex_iff)

lemma kept_access: "kept w w' \<Longrightarrow> may_access u r c w \<Longrightarrow> may_access u r c w'"
  by (auto simp: may_access_members kept_def)

lemma kept_refl [simp]: "kept w w"
  by (auto simp: kept_def)

lemma kept_trans: "kept a b \<Longrightarrow> kept b c \<Longrightarrow> kept a c"
  unfolding kept_def by blast

lemma sound_refl [simp]: "sound w w"
  by (simp add: sound_def)

lemma sound_trans: "sound a b \<Longrightarrow> sound b c \<Longrightarrow> sound a c"
  unfolding sound_def using kept_trans by blast

text \<open>An operation that leaves conversations, participants and MLS alone.\<close>

definition calm :: "world \<Rightarrow> world \<Rightarrow> bool" where
  "calm w w' \<longleftrightarrow> w_convs w' = w_convs w \<and> w_parts w' = w_parts w \<and> w_groups w' = w_groups w
     \<and> w_mls w' = w_mls w"

lemma calm_refl [simp]: "calm w w"
  by (simp add: calm_def)

lemma calm_trans: "calm a b \<Longrightarrow> calm b c \<Longrightarrow> calm a c"
  by (simp add: calm_def)

lemma calm_kept: "calm w w' \<Longrightarrow> kept w w'"
  by (simp add: calm_def kept_def members_def)

lemma calm_db: "db w' = db w \<Longrightarrow> calm w w'"
  unfolding calm_def using db_eqD [of w' w] by blast

lemma soundI:
  "(inv w \<Longrightarrow> inv w') \<Longrightarrow> w_groups w' = w_groups w \<Longrightarrow> w_mls w' = w_mls w \<Longrightarrow> kept w w' \<Longrightarrow> sound w w'"
  using mls_ok_frame [of w' w] by (simp add: sound_def wf_def)

lemma sound_calm: "(inv w \<Longrightarrow> inv w') \<Longrightarrow> calm w w' \<Longrightarrow> sound w w'"
  using calm_kept by (intro soundI) (simp_all add: calm_def)

lemma sound_db: "db w' = db w \<Longrightarrow> sound w w'"
  by (rule sound_calm) (simp_all add: calm_db inv_db [of w' w])

lemma sound_audit [simp]: "sound w (audit_log a w') = sound w w'"
  by (simp add: sound_def wf_def kept_def members_def mls_ok_frame [of "audit_log a w'" w'])

lemma calm_audit [simp]: "calm w (audit_log a w') = calm w w'"
  by (simp add: calm_def)

text \<open>Rows of conversations and participants whose keys are kept.\<close>

lemma kept_update_convs:
  assumes "\<And>c. cv_id (f c) = cv_id c" "w_parts w' = w_parts w" "w_convs w' = update_rows p f (w_convs w)"
  shows "kept w w'"
proof -
  have "map cv_id (w_convs w') = map cv_id (w_convs w)" by (simp add: assms(1,3) map_update_rows)
  from arg_cong [OF this, of set] show ?thesis by (simp add: kept_def members_def assms(2))
qed

lemma kept_update_parts:
  assumes "w_convs w' = w_convs w" "w_parts w' = update_rows p f (w_parts w)"
    "\<And>x. pt_conversationId (f x) = pt_conversationId x \<and> pt_userId (f x) = pt_userId x \<and> pt_leftAt (f x) = pt_leftAt x"
  shows "kept w w'"
proof -
  have "(c, u) \<in> members w'" if m: "(c, u) \<in> members w" for c u
  proof -
    from m obtain x where x: "x \<in> set (w_parts w)" "pt_leftAt x = None" "c = pt_conversationId x" "u = pt_userId x"
      by (auto simp: members_def)
    with in_update_rowsI [OF x(1), of p f] assms(3) show ?thesis
      by (auto simp: members_def assms(2) intro!: image_eqI [of _ _ "if p x then f x else x"])
  qed
  then show ?thesis by (auto simp: kept_def assms(1))
qed

lemma kept_append:
  "w_convs w' = w_convs w @ cs \<Longrightarrow> w_parts w' = w_parts w @ ps \<Longrightarrow> kept w w'"
  by (auto simp: kept_def members_def)

section \<open>Access checks\<close>

lemma kept_save_part: "kept w (w\<lparr>w_parts := save_part p (w_parts w)\<rparr>)"
proof (cases "list_ex (\<lambda>x. part_clash x p) (w_parts w)")
  case True
  then show ?thesis
    by (intro kept_update_parts [where p = "\<lambda>x. part_clash x p" and f = "\<lambda>x. x\<lparr>pt_role := pt_role p\<rparr>"])
      (simp_all add: save_part_def)
qed (auto simp: save_part_def intro!: kept_append)

lemma assertCanAccess_sound: "sound w (snd (assertCanAccess t u r c w))"
proof (rule soundI)
  show "inv w \<Longrightarrow> inv (snd (assertCanAccess t u r c w))" by (rule assertCanAccess_inv)
  show "kept w (snd (assertCanAccess t u r c w))"
    using kept_save_part
    by (auto simp: assertCanAccess_def kept_def members_def split: sum.split option.split)
qed (auto simp: assertCanAccess_def split: sum.split option.split)

text \<open>
  What the guards of the controllers preserve: a relation between worlds that is reflexive,
  transitive and respected by the access check.
\<close>

locale access_law =
  fixes R :: "world \<Rightarrow> world \<Rightarrow> bool"
  assumes same: "R w w"
    and compose: "R w w1 \<Longrightarrow> R w1 w2 \<Longrightarrow> R w w2"
    and access: "R w (snd (assertCanAccess t u r c w))"
begin

lemma guard: "R w (snd (conversation_access_guard pg_uuid t user a b c w))"
  by (auto simp: conversation_access_guard_def access same Let_def split: option.split)

lemma guarded:
  assumes "\<And>g w1. R w1 (snd (k g w1))"
  shows "R w (snd (guarded (conversation_access_guard pg_uuid t user a b c) k w))"
proof (cases "conversation_access_guard pg_uuid t user a b c w")
  case (Pair g w1)
  with guard [of w pg_uuid t user a b c] have "R w w1" by simp
  with Pair assms compose show ?thesis by (cases g) (auto simp: guarded_def)
qed

lemma accessed:
  assumes "\<And>g w1. assertCanAccess t u r c w = (Inr g, w1) \<Longrightarrow> R w1 (snd (k g w1))"
  shows "R w (snd (case assertCanAccess t u r c w of (Inl e, w1) \<Rightarrow> (Inl e, w1) | (Inr g, w1) \<Rightarrow> k g w1))"
proof (cases "assertCanAccess t u r c w")
  case (Pair g w1)
  with access [of w t u r c] have w1: "R w w1" by simp
  show ?thesis
  proof (cases g)
    case (Inr x)
    with Pair compose [OF w1 assms] show ?thesis by simp
  qed (simp add: Pair w1)
qed

lemma uuid_piped:
  "(\<And>c. R w (snd (k c))) \<Longrightarrow> R w (snd (case uuid_pipe raw of Inl e \<Rightarrow> (Inl e, w) | Inr c \<Rightarrow> k c))"
  by (simp add: same split: sum.split)

end

interpretation keeps: access_law sound
  by unfold_locales (simp, erule (1) sound_trans, rule assertCanAccess_sound)

section \<open>The operations\<close>

text \<open>Messages.\<close>

lemma messages_send_sound: "sound w (snd (messages_send env k cfg t0 t ry inp w))"
proof -
  obtain r w' where send: "messages_send env k cfg t0 t ry inp w = (r, w')" by fastforce
  then have "(inv w \<longrightarrow> inv w') \<and> kept w w' \<and> w_groups w' = w_groups w \<and> w_mls w' = w_mls w"
  proof (cases rule: messages_send_cases)
    case (early e)
    then show ?thesis using sound_db [of w' w] calm_db [of w' w] calm_kept inv_db [of w' w]
      by (auto simp: calm_def)
  next
    case (tx e sb w1)
    then show ?thesis using calm_db [of w' w] calm_kept inv_db [of w' w] by (auto simp: calm_def)
  next
    case (sent sb w1 m w2)
    note d = db_eqD(3,4,13,14) [OF sent(1)] db_eqD(3,4,13,14) [OF sent(5)]
    have "inv w \<longrightarrow> inv w'" using messages_send_inv [of w env k cfg t0 t ry inp] send by (simp add: inv_def)
    moreover from send_tx_Inr [OF sent(3)] obtain conv where
      "w2 = w1 \<or> store_message t ry inp (scan (js_trim (si_body inp))) sb conv w1 = Inr (m, w2)" by metis
    then have "kept w w' \<and> w_groups w' = w_groups w \<and> w_mls w' = w_mls w"
    proof
      assume "w2 = w1"
      then show ?thesis using d by (simp add: kept_def members_def)
    next
      assume st: "store_message t ry inp (scan (js_trim (si_body inp))) sb conv w1 = Inr (m, w2)"
      note f = store_message_Inr(7,9,14,15) [OF st]
      have "kept w w'"
        by (rule kept_update_convs [OF _ _ trans [OF d(5) f(1) [unfolded d(1)]]]) (simp_all add: d f)
      with d f show ?thesis by simp
    qed
    ultimately show ?thesis by blast
  qed
  with send show ?thesis by (intro soundI) simp_all
qed

lemma db_decrypt_all: "db (snd (decrypt_all env k t ms w)) = db w"
proof (induction ms arbitrary: w)
  case (Cons m ms)
  obtain r w1 where d: "toDecrypted env k t m None w = (r, w1)" by fastforce
  with db_toDecrypted [of env k t m None w] Cons [of w1] show ?case
    by (simp add: case_prod_unfold Let_def)
qed simp

lemma messages_list_sound: "sound w (snd (messages_list env k pg_int8 qb t p w))"
  by (rule sound_db) (simp add: messages_list_def db_decrypt_all split: sum.split)

lemma markRead_sound: "sound w (snd (markRead cfg pg_int8 t obid c u s w))"
proof -
  have tx: "sound w w1" if m: "mark_read_tx pg_int8 t obid c u s w = Inr ((), w1)" for w1
  proof -
    from m obtain n events where e: "insert_row outbox_clash
          (new_outbox t obid ''message.read'' c (ReadUpto c u s)) (w_outbox w) = Inr events"
      and w1: "w1 = w\<lparr>w_parts := update_rows (\<lambda>p. pt_conversationId p = c \<and> pt_userId p = u)
                         (\<lambda>p. p\<lparr>pt_lastReadSequence := n\<rparr>) (w_parts w),
          w_receipts := update_rows (\<lambda>r. rc_userId r = u \<and> rc_readAt r = None
              \<and> rc_messageId r \<in> set (map ms_id (filter (\<lambda>m. ms_conversationId m = c \<and> ms_sequence m \<le> n) (w_msgs w))))
                         (\<lambda>r. r\<lparr>rc_readAt := Some t\<rparr>) (w_receipts w), w_outbox := events\<rparr>"
      by (auto simp: mark_read_tx_def Let_def split: sum.splits)
    have "inv w1" if i: "inv w"
    proof -
      have "inv (w\<lparr>w_parts := w_parts w1\<rparr>)" (is "inv ?w")
        by (rule inv_table(3) [OF i], unfold w1, simp, rule clash_free_update)
          (use inv_tables(4) [OF i] in \<open>auto simp: part_clash_def split: if_splits\<close>)
      then have "inv (?w\<lparr>w_receipts := w_receipts w1\<rparr>)"
        by (rule inv_table(4), unfold w1, simp, intro clash_free_update)
          (use inv_tables(6) [OF i] in \<open>auto simp: receipt_clash_def split: if_splits\<close>)
      then have "inv (?w\<lparr>w_receipts := w_receipts w1, w_outbox := events\<rparr>)"
        by (rule inv_table(5)) (rule insert_row_clash_free [OF e inv_tables(7) [OF i]])
      then show ?thesis by (simp add: w1)
    qed
    moreover have "kept w w1"
      by (rule kept_update_parts [where p = "\<lambda>p. pt_conversationId p = c \<and> pt_userId p = u"
            and f = "\<lambda>p. p\<lparr>pt_lastReadSequence := n\<rparr>"]) (simp_all add: w1)
    ultimately show ?thesis by (intro soundI) (simp_all add: w1)
  qed
  show ?thesis
  proof (cases "mark_read_tx pg_int8 t obid c u s w")
    case (Inr x)
    then obtain w1 where x: "mark_read_tx pg_int8 t obid c u s w = Inr ((), w1)" by (cases x) auto
    have "sound w1 (publishReadReceipt cfg c u s w1)" by (rule sound_db) simp
    with tx [OF x] x sound_trans show ?thesis by (auto simp: markRead_def)
  qed (simp add: markRead_def)
qed

lemma softDelete_sound: "sound w (snd (softDelete cfg t mid u w))"
proof (rule sound_calm)
  show "inv w \<Longrightarrow> inv (snd (softDelete cfg t mid u w))" using softDelete_inv by (simp add: inv_def)
  have "calm w (publishMessageDeleted cfg x (audit_log a (w\<lparr>w_msgs := ms\<rparr>)))" for x a ms
    by (rule calm_trans [of _ "audit_log a (w\<lparr>w_msgs := ms\<rparr>)"]) (simp add: calm_def, simp add: calm_db)
  then show "calm w (snd (softDelete cfg t mid u w))" by (simp add: softDelete_def split: option.split)
qed

text \<open>Orders, users and conversations.\<close>

lemma upsert_sound: "sound w (snd (upsertFromExternal t i d w))"
  by (rule sound_calm)
    (auto simp: upsertFromExternal_def calm_def Let_def split: sum.split
      dest: insert_row_clash_free intro: inv_table(2) inv_tables(2))

lemma createUser_sound: "sound w (snd (createUser hash t i e p r n w))"
  by (rule sound_calm)
    (auto simp: createUser_def calm_def Let_def split: sum.split
      dest: insert_row_clash_free intro: inv_table(1) inv_tables(1))

lemma create_conversation_seq:
  assumes "inv w" "create_conversation t i ord a w = Inr (conv, w')"
  shows "seq_ok w'"
proof -
  note c = create_conversation_Inr [OF assms(2)]
  obtain au where w': "w' = audit_log au (w\<lparr>w_convs := w_convs w @ [conv],
     w_parts := w_parts w @ [new_part t i (or_customerId ord) Customer,
                             new_part t i (or_sellerId ord) Seller]\<rparr>)" using c(6) by blast
  have "i \<notin> cv_id ` set (w_convs w)" using c(2,5) by (auto simp: conv_clash_def)
  then have "msgs_of i w = []" using invD(2) [OF assms(1)] by (auto simp: seq_ok_def msgs_of_def filter_empty_conv)
  then have "msgs_of i w' = []" by (simp add: msgs_of_def w')
  moreover have "msgs_of j w' = msgs_of j w" for j by (simp add: msgs_of_def w')
  moreover have "w_convs w' = w_convs w @ [conv]" "w_msgs w' = w_msgs w" by (simp_all add: w')
  ultimately show ?thesis using invD(2) [OF assms(1)] c(2,4) by (auto simp: seq_ok_def)
qed

lemma getOrCreate_sound: "sound w (snd (getOrCreateForOrder t i oid a w))"
proof (cases "getOrCreateForOrder t i oid a w")
  case (Pair r w')
  show ?thesis
  proof (cases r)
    case (Inl e)
    with Pair have "w' = w"
      by (auto simp: getOrCreateForOrder_def split: sum.splits option.splits dest: transact_InlD)
    with Pair show ?thesis by simp
  next
    case (Inr conv)
    with Pair have "getOrCreateForOrder t i oid a w = (Inr conv, w')" by simp
    from getOrCreate_Inr [OF this] consider "w' = w"
      | ord where "create_conversation t i ord a w = Inr (conv, w')" by blast
    then show ?thesis
    proof cases
      case 2
      obtain au where w': "w' = audit_log au (w\<lparr>w_convs := w_convs w @ [conv],
         w_parts := w_parts w @ [new_part t i (or_customerId ord) Customer,
                                 new_part t i (or_sellerId ord) Seller]\<rparr>)"
        using create_conversation_Inr(6) [OF 2] by blast
      have "inv w'" if "inv w"
        using that create_conversation_seq [OF that 2] getOrCreate_schema_ok [of w t i oid a] Pair
        by (simp add: inv_def)
      moreover have "kept w w'" by (rule kept_append) (simp_all add: w')
      moreover have "w_groups w' = w_groups w" "w_mls w' = w_mls w" by (simp_all add: w')
      ultimately have "sound w w'" by (intro soundI)
      then show ?thesis by (simp add: Pair)
    qed (simp add: Pair)
  qed
qed

text \<open>Sessions.\<close>

lemma issue_sound: "sound w (snd (issue sha cfg t raw i u par meta w))"
  by (rule sound_calm)
    (auto simp: issue_def calm_def Let_def split: sum.split
      dest: insert_row_clash_free intro: inv_table(6) inv_tables(8))

lemma revoke_sound: "sound w (revoke sha t tok r w)" "sound w (revokeAllForUser t u r w)"
proof -
  show "sound w (revoke sha t tok r w)"
    unfolding revoke_def
    by (rule sound_calm, rule inv_table(6), assumption, rule revoke_rows_clash_free, rule inv_tables(8))
      (simp_all add: calm_def)
  show "sound w (revokeAllForUser t u r w)"
    by (rule sound_calm, rule revokeAll_inv) (simp_all add: calm_def revokeAllForUser_def)
qed

lemma metrics_sound: "sound w (metrics_count cfg t n v d w)" "sound w (metrics_gauge cfg t n v u w)"
  by (rule sound_db; simp)+

lemma rotate_find_sound: "sound w (snd (rotate_find sha cfg t tok w))"
  using sound_trans [OF metrics_sound(1) revoke_sound(2)]
  by (simp add: rotate_find_def split: option.split)

lemma rotate_apply_sound: "sound w (snd (rotate_apply sha cfg t raw i meta f w))"
proof -
  define w1 where "w1 = w\<lparr>w_tokens := update_rows (\<lambda>r. rt_id r = rt_id f)
               (\<lambda>r. r\<lparr>rt_revokedAt := Some t, rt_revokedReason := Some ''rotated''\<rparr>) (w_tokens w)\<rparr>"
  have "sound w w1"
    unfolding w1_def
    by (rule sound_calm, rule inv_table(6), assumption, rule clash_free_update)
      (auto simp: token_clash_def calm_def dest: inv_tables(8) split: if_splits)
  from sound_trans [OF sound_trans [OF this metrics_sound(1)] issue_sound] show ?thesis
    by (auto simp: rotate_apply_def Let_def w1_def [symmetric] case_prod_unfold split: sum.split)
qed

lemma rotate_sound: "sound w (snd (rotate sha cfg t tok raw i meta w))"
proof (cases "rotate_find sha cfg t tok w")
  case (Pair r w1)
  with rotate_find_sound [of w sha cfg t tok] have "sound w w1" by simp
  with Pair sound_trans [OF _ rotate_apply_sound] show ?thesis by (cases r) (simp_all add: rotate_def)
qed

lemma auth_login_sound: "sound w (snd (auth_login sha sign vf cfg t raw i e p meta w))"
proof -
  have "snd (issueSession sha sign cfg t raw i u meta w) = snd (issue sha cfg t raw i (us_id u) None meta w)" for u
    by (simp add: issueSession_def case_prod_unfold split: sum.split)
  then have "sound w (snd (issueSession sha sign cfg t raw i u meta w))" for u using issue_sound by simp
  then show ?thesis by (auto simp: auth_login_def case_prod_unfold split: option.split sum.split)
qed

lemma auth_refresh_sound: "sound w (snd (auth_refresh sha sign cfg t tok raw i meta w))"
proof -
  have "snd (auth_refresh sha sign cfg t tok raw i meta w) = snd (rotate sha cfg t tok raw i meta w)"
    by (auto simp: auth_refresh_def split: prod.split sum.split option.split)
  then show ?thesis using rotate_sound by simp
qed

text \<open>Moderation and search.\<close>

lemma moderation_sound:
  "sound w (snd (moderation_report t i mid u re d w))"
  "sound w (snd (moderation_resolve t t2 rid u a w))"
proof -
  show "sound w (snd (moderation_report t i mid u re d w))"
    by (rule sound_calm, rule moderation_report_inv)
      (auto simp: moderation_report_def calm_def Let_def split: option.split)
  show "sound w (snd (moderation_resolve t t2 rid u a w))"
    by (rule sound_calm, rule moderation_resolve_inv)
      (auto simp: moderation_resolve_def calm_def Let_def split: option.split)
qed

lemma os_index_calm: "calm w (snd (os_indexMessage sv cfg d w))"
  by (simp add: os_indexMessage_def calm_def)

lemma backfill_calm: "calm w (snd (backfill env k sv cfg t c pids ms w))"
proof (induction ms arbitrary: w)
  case (Cons m ms)
  obtain content w1 where sd: "search_decrypt env k t m w = (content, w1)" by fastforce
  have w1: "calm w w1" using db_search_decrypt [of env k t m w] sd by (simp add: calm_db)
  obtain r w2 where os: "os_indexMessage sv cfg (message_doc c pids m content) w1 = (r, w2)" by fastforce
  with os_index_calm [of w1 sv cfg "message_doc c pids m content"] w1 have "calm w w2"
    by (auto intro: calm_trans)
  with sd w1 os Cons show ?case by (cases r) (auto intro: calm_trans)
qed simp

lemma set_indexed_sound: "sound w (set_indexed c b at w)"
  by (rule soundI, erule set_indexed_inv)
    (simp_all add: set_indexed_def kept_update_convs [where f = "\<lambda>x. x\<lparr>cv_searchIndexed := b, cv_searchIndexedAt := at\<rparr>"])

lemma enableIndexing_sound: "sound w (snd (enableIndexing env k sv cfg t c u r w))"
proof -
  obtain g w1 where a: "assertCanAccess t u r c w = (g, w1)" by fastforce
  with assertCanAccess_sound [of w t u r c] have w1: "sound w w1" by simp
  obtain x w2 where b: "backfill env k sv cfg t c (map pt_userId (listParticipants c w1))
      (indexed_messages c w1) w1 = (x, w2)" by fastforce
  have "sound w1 w2"
    using b backfill_inv [of w1 env k sv cfg t c] backfill_calm [of w1 env k sv cfg t c]
    by (metis sound_calm snd_conv)
  then have w2: "sound w w2" using sound_trans w1 by blast
  then have "sound w (set_indexed c True (Some t) w2)" using sound_trans set_indexed_sound by blast
  with w1 w2 a b show ?thesis
    by (auto simp: enableIndexing_def Let_def split: sum.splits prod.splits)
qed

lemma disableIndexing_sound: "sound w (snd (disableIndexing sv cfg t c u r w))"
proof -
  have "sound w1 (snd (os_deleteByConversation sv cfg c w1))" for w1
    by (rule sound_calm) (simp_all add: os_deleteByConversation_def calm_def)
  note d = sound_trans [OF set_indexed_sound this]
  show ?thesis unfolding disableIndexing_def
    by (rule keeps.accessed) (auto simp: case_prod_unfold d split: sum.split)
qed

text \<open>End-to-end encryption.\<close>

lemma key_packages_sound:
  "sound w (snd (publishKeyPackages t ids u inp w))" "sound w (snd (claimKeyPackage t a b s w))"
proof -
  show "sound w (snd (publishKeyPackages t ids u inp w))"
    by (rule sound_calm) (simp_all add: publishKeyPackages_def calm_def Let_def)
  have "sound w (snd (transact (claim_tx t a b s) w))"
    by (rule transact_preserves, simp)
      (auto simp: claim_tx_def calm_def split: list.splits intro!: sound_calm)
  then show "sound w (snd (claimKeyPackage t a b s w))"
    by (auto simp: claimKeyPackage_def split: prod.splits sum.splits)
qed

lemma kept_assertCanAccess: "assertCanAccess t u r c w = (g, w1) \<Longrightarrow> kept w w1"
  using assertCanAccess_sound [of w t u r c] by (simp add: sound_def)

lemma kept_tables: "w_convs w' = w_convs w \<Longrightarrow> w_parts w' = w_parts w \<Longrightarrow> kept w w'"
  by (simp add: kept_def members_def)

lemma sendMls_sound: "sound w (snd (sendMlsMessage pg_uuid pg_int8 t i c u r inp w))"
proof -
  have "wf w \<longrightarrow> wf (snd (sendMlsMessage pg_uuid pg_int8 t i c u r inp w))"
    using sendMlsMessage_inv by (simp add: wf_def)
  moreover have tx: "kept w1 (snd (transact (send_mls_tx pg_uuid pg_int8 t i gid u inp) w1))" for gid w1
    by (rule transact_preserves, simp, rule kept_tables)
      (auto simp: send_mls_tx_def bump_epoch_def Let_def split: option.splits sum.splits if_splits)
  then have "kept w (snd (sendMlsMessage pg_uuid pg_int8 t i c u r inp w))"
  proof (cases "assertCanAccess t u r c w")
    case (Pair g w1)
    note k = kept_assertCanAccess [OF Pair]
    with Pair kept_trans [OF k tx] show ?thesis
      by (auto simp: sendMlsMessage_def split: sum.split option.split)
  qed
  ultimately show ?thesis by (simp add: sound_def)
qed

lemma store_welcomes_parts:
  "store_welcomes pg t ids gid a n xs w = Inr w' \<Longrightarrow> w_parts w' = w_parts w \<and> w_convs w' = w_convs w"
  by (induction xs arbitrary: n w) (fastforce split: sum.splits)+

lemma enableE2ee_sound: "sound w (snd (enableE2ee pg_uuid t gid ids c u r mlsId suite ws w))"
proof -
  have "wf w \<longrightarrow> wf (snd (enableE2ee pg_uuid t gid ids c u r mlsId suite ws w))"
    using enableE2ee_inv by (simp add: wf_def)
  moreover have tx: "kept w1 (snd (transact (enable_tx pg_uuid t gid ids c u mlsId suite ws) w1))" for w1
  proof (rule transact_preserves, simp)
    fix x w2 assume "enable_tx pg_uuid t gid ids c u mlsId suite ws w1 = Inr (x, w2)"
    then obtain gs w3 where s: "store_welcomes pg_uuid t ids gid u 0 ws (w1\<lparr>w_groups := gs\<rparr>) = Inr w3"
      and w2: "\<exists>au. w2 = audit_log au (set_e2ee t c w3)"
      by (auto simp: enable_tx_def split: sum.splits)
    from w2 store_welcomes_parts [OF s] show "kept w1 w2"
      by (intro kept_update_convs [where p = "\<lambda>x. cv_id x = c"
            and f = "\<lambda>x. x\<lparr>cv_e2eeEnabled := True, cv_e2eeEnabledAt := Some t\<rparr>"]) (auto simp: set_e2ee_def)
  qed
  then have "kept w (snd (enableE2ee pg_uuid t gid ids c u r mlsId suite ws w))"
  proof (cases "assertCanAccess t u r c w")
    case (Pair g w1)
    note k = kept_assertCanAccess [OF Pair]
    with Pair kept_trans [OF k tx] show ?thesis
      by (auto simp: enableE2ee_def split: sum.split)
  qed
  ultimately show ?thesis by (simp add: sound_def)
qed

lemma listMls_sound: "sound w (snd (listMlsMessages pg_int8 qb t c u r af li w))"
  unfolding listMlsMessages_def
  by (rule keeps.accessed) (simp split: option.split sum.split)

text \<open>Attachments and privacy.\<close>

lemma presign_sound: "sound w (snd (presignUpload s3 pg_uuid cfg t i k u d w))"
proof -
  have "sound w1 (w1\<lparr>w_atts := a\<rparr>)" for w1 a by (rule sound_calm) (simp_all add: calm_def)
  note a = this
  show ?thesis unfolding presignUpload_def
    by (auto split: option.split intro!: keeps.accessed) (simp_all add: Let_def a)
qed

lemma finalize_sound: "sound w (snd (finalize s3 i u w))"
proof (rule sound_calm)
  show "inv w \<Longrightarrow> inv (snd (finalize s3 i u w))"
    by (auto simp: finalize_def check_size_def s3_delete_def split: option.split sum.split)
  show "calm w (snd (finalize s3 i u w))"
    by (auto simp: finalize_def check_size_def s3_delete_def calm_def split: option.split sum.split)
qed

lemma download_sound: "sound w (snd (getDownloadUrl s3 t i u r w))"
proof -
  have "sound w (snd (case assertCanAccess t u r c w of
      (Inl e, w1) \<Rightarrow> (Inl e, w1) | (Inr g, w1) \<Rightarrow> (Inr x, w1)))" for c and x :: "string \<times> int"
    by (rule keeps.accessed) simp
  then show ?thesis by (simp add: getDownloadUrl_def split: option.split)
qed

lemma export_sound: "sound w (snd (exportUserData env k t i w))"
proof (rule sound_calm)
  show "inv w \<Longrightarrow> inv (snd (exportUserData env k t i w))" by (rule exportUserData_inv)
  have "calm w (snd (export_messages env k t ms w))" for ms
    using export_messages_facts [of env k t ms w] calm_db by blast
  then show "calm w (snd (exportUserData env k t i w))"
    by (simp add: exportUserData_def Let_def case_prod_unfold calm_def split: option.split)
qed

lemma anonymize_sound: "sound w (snd (anonymizeUser t i a w))"
proof (rule sound_calm)
  show "inv w \<Longrightarrow> inv (snd (anonymizeUser t i a w))" by (rule anonymizeUser_inv)
  have "calm w (snd (transact (anonymize_tx t i) w))"
    by (rule transact_preserves, simp)
      (auto simp: anonymize_tx_def calm_def revokeAllForUser_def split: option.splits if_splits)
  then show "calm w (snd (anonymizeUser t i a w))"
    by (auto simp: anonymizeUser_def split: prod.splits sum.splits)
qed

text \<open>The outbox worker, presence and limits.\<close>

lemma calm_metrics: "calm w (metrics_count cfg t n v d w)"
  by (rule calm_db) simp

lemma notify_users_calm: "calm w (snd (notify_users cfg t mid conv us w))"
proof (induction us arbitrary: w)
  case (Cons u us)
  obtain r w1 where n: "notify_user cfg t mid conv u w = (r, w1)" by fastforce
  then have "calm w w1"
    by (auto simp: notify_user_def email_send_def calm_def split: if_splits sum.splits prod.splits)
  with n Cons [of w1] show ?case by (cases r) (auto intro: calm_trans)
qed simp

lemma onMessageCreated_calm: "calm w (snd (onMessageCreated cfg t cp w))"
  by (simp add: onMessageCreated_def notifyNewMessage_def Let_def notify_users_calm split: option.split)

lemma consume_calm: "calm w (snd (consume_event dv cfg t r w))"
proof (cases "ob_payload r")
  case (Created cp)
  obtain q w1 where o: "onMessageCreated cfg t cp w = (q, w1)" by fastforce
  with onMessageCreated_calm [of w cfg t cp] have "calm w w1" by simp
  moreover have "calm w1 (snd (indexMessageIfEnabled sv cfg d w1))" for sv d
    by (simp add: indexMessageIfEnabled_def os_index_calm split: option.split)
  ultimately show ?thesis using o Created by (cases q) (auto simp: consume_event_def intro: calm_trans)
qed (simp add: consume_event_def)

lemma outbox_handle_calm: "calm w (snd (outbox_handle dv cfg t r w))"
proof -
  obtain q w1 where p: "nats_publish dv (ob_eventType r) (ob_payload r) (ob_id r) w = (q, w1)" by fastforce
  then have w1: "calm w w1" by (auto simp: nats_publish_def calm_def Let_def split: if_splits)
  have "calm w (snd (consume_event dv cfg t r (metrics_count cfg t n v d w1)))" for n v d
    using calm_trans [OF calm_trans [OF w1 calm_metrics] consume_calm] .
  with p w1 consume_calm show ?thesis by (cases q) (simp_all add: outbox_handle_def)
qed

lemma process_rows_calm: "calm w (process_rows (outbox_handle dv cfg t) cfg t rs w)"
proof (induction rs arbitrary: w)
  case (Cons r rs)
  obtain q w1 where h: "outbox_handle dv cfg t r w = (q, w1)" by fastforce
  with outbox_handle_calm [of w dv cfg t r] have w1: "calm w w1" by simp
  have b: "calm w (w1\<lparr>w_outbox := x\<rparr>)" for x using w1 by (simp add: calm_def)
  show ?case
    using h calm_trans [OF b Cons] calm_trans [OF calm_trans [OF b calm_metrics] Cons]
    by (cases q) simp_all
qed simp

lemma outbox_tick_sound: "sound w (snd (outbox_tick dv cfg t locked w))"
proof -
  obtain k w1 where b: "processBatch dv cfg t locked 20 w = (k, w1)" by fastforce
  have "inv w1" if "inv w" using that b by (rule batch_settles)
  moreover have "calm w w1" using b process_rows_calm [of w dv cfg t] by (auto simp: processBatch_def Let_def)
  ultimately have "sound w w1" by (rule sound_calm)
  with b sound_trans metrics_sound(1) show ?thesis by (auto simp: outbox_tick_def)
qed

lemma presence_sound: "sound w (presence_step t op w)"
  by (cases op; rule sound_calm)
    (simp_all add: presence_connect_def presence_heartbeat_def presence_disconnect_def
      disconnect_count_def disconnect_del_def calm_def Let_def)

lemma rate_sound: "sound w (snd (rate_limit_ok cfg t u w))"
  by (rule sound_calm) (simp_all add: rate_limit_ok_def calm_def Let_def case_prod_unfold)

lemmas service_sound = messages_send_sound messages_list_sound markRead_sound softDelete_sound
  upsert_sound createUser_sound getOrCreate_sound auth_login_sound auth_refresh_sound revoke_sound
  moderation_sound enableIndexing_sound disableIndexing_sound key_packages_sound sendMls_sound
  enableE2ee_sound listMls_sound presign_sound finalize_sound download_sound export_sound
  anonymize_sound

section \<open>The step relation\<close>

text \<open>One request, timer or worker tick. Every parameter is arbitrary.\<close>

inductive api_step :: "world \<Rightarrow> world \<Rightarrow> bool" where
  Post_message: "api_step w (snd (messages_post env k pg_uuid cfg t0 t ry user raw d key w))"
| Get_messages: "api_step w (snd (messages_get env k pg_uuid pg_int8 qb t user raw af be li w))"
| Read_messages: "api_step w (snd (messages_read pg_uuid pg_int8 cfg t i user raw s w))"
| Delete_message: "api_step w (snd (messages_delete pg_uuid cfg t user rawc rawm w))"
| Upsert_order: "api_step w (snd (orders_upsert is_uuid t i au od w))"
| Open_by_order: "api_step w (snd (openByOrder t i user raw w))"
| Get_conversation: "api_step w (snd (conversations_getOne pg_uuid t au raw w))"
| Register: "api_step w (snd (auth_register is_email hash t i email pw role name w))"
| Login: "api_step w (snd (login_post is_email sha sign vf cfg t raw i email pw meta w))"
| Refresh: "api_step w (snd (refresh_post sha sign cfg t ctok btok raw i meta w))"
| Logout: "api_step w (logout_post sha t ctok user w)"
| Report: "api_step w (snd (report_post t i user raw reason details w))"
| Resolve: "api_step w (snd (resolve_post t t2 user raw act w))"
| Enable_search: "api_step w (snd (search_enable env k sv pg_uuid cfg t user raw w))"
| Disable_search: "api_step w (snd (search_disable sv pg_uuid cfg t user raw w))"
| Publish_kps: "api_step w (snd (kp_publish t ids user kd w))"
| Claim_kp: "api_step w (snd (kp_claim t user raw suite w))"
| Enable_e2ee: "api_step w (snd (mls_enable pg_uuid t i ids user raw mlsId suite ws w))"
| Send_mls: "api_step w (snd (mls_send pg_uuid pg_int8 t i user raw md w))"
| List_mls: "api_step w (snd (mls_list pg_uuid pg_int8 mqb t user raw af li w))"
| Presign: "api_step w (snd (presign_post s3 is_uuid is_mime pg_uuid cfg t i j user pd w))"
| Finalize: "api_step w (snd (finalize_post s3 user raw w))"
| Download: "api_step w (snd (download_get s3 t user raw w))"
| Export: "api_step w (snd (exportMine env k t user w))"
| Delete_mine: "api_step w (snd (deleteMine t user w))"
| Delete_user: "api_step w (snd (deleteByAdmin t user raw w))"
| Outbox_tick: "api_step w (snd (outbox_tick dv cfg t locked w))"
| Outbox_lag: "api_step w (publishLagMetric cfg t w)"
| Flush_metrics: "api_step w (metrics_flush cfg w)"
| Presence: "api_step w (presence_step t pop w)"
| Limit_socket: "api_step w (snd (rate_limit_ok cfg t u w))"

inductive_cases api_stepE: "api_step w w'"

text \<open>
  The contract between the services and everything that calls them: a relation that each
  service operation respects is respected by every step of the server.
\<close>

locale service_law = access_law +
  assumes send: "R w (snd (messages_send env k cfg t0 t ry inp w))"
    and list: "R w (snd (messages_list env k pg_int8 qb t pq w))"
    and read: "R w (snd (markRead cfg pg_int8 t obid c u s w))"
    and delete: "R w (snd (softDelete cfg t mid u w))"
    and upsert: "R w (snd (upsertFromExternal t i d w))"
    and create: "R w (snd (createUser hash t i e p r n w))"
    and get_or_create: "R w (snd (getOrCreateForOrder t i oid a w))"
    and login: "R w (snd (auth_login sha sign vf cfg t raw i e p meta w))"
    and refresh: "R w (snd (auth_refresh sha sign cfg t tok raw i meta w))"
    and revoke: "R w (revoke sha t tok x w)"
    and revoke_all: "R w (revokeAllForUser t u x w)"
    and report: "R w (snd (moderation_report t i mid u re dt w))"
    and resolve: "R w (snd (moderation_resolve t t2 rid u act w))"
    and enable_index: "R w (snd (enableIndexing env k sv cfg t c u r w))"
    and disable_index: "R w (snd (disableIndexing sv cfg t c u r w))"
    and publish_kps: "R w (snd (publishKeyPackages t ids u kp w))"
    and claim_kp: "R w (snd (claimKeyPackage t u c s w))"
    and send_mls: "R w (snd (sendMlsMessage pg_uuid pg_int8 t i c u r mi w))"
    and enable_e2ee: "R w (snd (enableE2ee pg_uuid t gid ids c u r mlsId suite ws w))"
    and list_mls: "R w (snd (listMlsMessages pg_int8 mqb t c u r af li w))"
    and presign: "R w (snd (presignUpload s3 pg_uuid cfg t i j user pd w))"
    and finalize: "R w (snd (finalize s3 i u w))"
    and download: "R w (snd (getDownloadUrl s3 t i u r w))"
    and export: "R w (snd (exportUserData env k t i w))"
    and anonymize: "R w (snd (anonymizeUser t i c w))"
    and tick: "R w (snd (outbox_tick dv cfg t locked w))"
    and lag: "R w (publishLagMetric cfg t w)"
    and flush: "R w (metrics_flush cfg w)"
    and presence: "R w (presence_step t pop w)"
    and limit: "R w (snd (rate_limit_ok cfg t u w))"
begin

lemmas laws = same send list read delete upsert create get_or_create login refresh revoke revoke_all report
  resolve enable_index disable_index publish_kps claim_kp send_mls enable_e2ee list_mls presign
  finalize download export anonymize tick lag flush presence limit

lemma messages_controller:
  "R w (snd (messages_post env k pg_uuid cfg t0 t ry user raw d key w))"
  "R w (snd (messages_get env k pg_uuid pg_int8 qb t user raw af be li w))"
  "R w (snd (messages_read pg_uuid pg_int8 cfg t i user raw s w))"
  "R w (snd (messages_delete pg_uuid cfg t user rawc rawm w))"
  unfolding messages_post_def messages_get_def messages_read_def messages_delete_def
  by (intro guarded uuid_piped; simp add: laws)+

lemma conversations_controller:
  "R w (snd (orders_upsert is_uuid t i au od w))"
  "R w (snd (openByOrder t i user raw w))"
  "R w (snd (conversations_getOne pg_uuid t au raw w))"
  using guard [of w pg_uuid t au "Some raw" None None]
  by (auto simp: orders_upsert_def openByOrder_def conversations_getOne_def laws
      split: sum.split prod.split)

lemma auth_controller:
  "R w (snd (auth_register is_email hash t i email pw role name w))"
  "R w (snd (login_post is_email sha sign vf cfg t raw i email pw meta w))"
  "R w (snd (refresh_post sha sign cfg t ctok btok raw i meta w))"
  "R w (logout_post sha t ctok user w)"
  by (auto simp: auth_register_def login_post_def refresh_post_def logout_post_def auth_logout_def
      laws Let_def case_prod_unfold split: option.split sum.split)

lemma staff_controller:
  "R w (snd (report_post t i user raw reason details w))"
  "R w (snd (resolve_post t t2 user raw act w))"
  "R w (snd (search_enable env k sv pg_uuid cfg t user raw w))"
  "R w (snd (search_disable sv pg_uuid cfg t user raw w))"
  unfolding search_enable_def search_disable_def
  by (auto simp: report_post_def resolve_post_def laws split: sum.split
      intro!: guarded)

lemma e2ee_controller:
  "R w (snd (kp_publish t ids user kd w))"
  "R w (snd (kp_claim t user raw suite w))"
  "R w (snd (mls_enable pg_uuid t i ids user raw mlsId suite ws w))"
  "R w (snd (mls_send pg_uuid pg_int8 t i user raw md w))"
  "R w (snd (mls_list pg_uuid pg_int8 mqb t user raw af li w))"
proof -
  have "snd (kp_claim t user raw suite w) = (case uuid_pipe raw of Inl e \<Rightarrow> w
      | Inr c \<Rightarrow> snd (claimKeyPackage t c (au_sub user) suite w))"
    by (simp add: kp_claim_def case_prod_unfold split: sum.split)
  then show "R w (snd (kp_claim t user raw suite w))" by (simp add: laws split: sum.split)
  show "R w (snd (kp_publish t ids user kd w))" by (simp add: kp_publish_def laws)
  show "R w (snd (mls_enable pg_uuid t i ids user raw mlsId suite ws w))"
    "R w (snd (mls_send pg_uuid pg_int8 t i user raw md w))"
    unfolding mls_enable_def mls_send_def
    by (intro guarded uuid_piped; simp add: laws)+
  show "R w (snd (mls_list pg_uuid pg_int8 mqb t user raw af li w))"
    unfolding mls_list_def
    by (intro guarded uuid_piped) (simp add: laws case_prod_unfold split: sum.split)
qed

lemma account_controller:
  "R w (snd (presign_post s3 is_uuid is_mime pg_uuid cfg t i j user pd w))"
  "R w (snd (finalize_post s3 user raw w))"
  "R w (snd (download_get s3 t user raw w))"
  "R w (snd (exportMine env k t user w))"
  "R w (snd (deleteMine t user w))"
  "R w (snd (deleteByAdmin t user raw w))"
  by (auto simp: presign_post_def finalize_post_def download_get_def exportMine_def deleteMine_def
      deleteByAdmin_def laws split: sum.split)

lemma step: "api_step w w' \<Longrightarrow> R w w'"
  by (erule api_stepE)
    (simp_all only: messages_controller conversations_controller auth_controller staff_controller
      e2ee_controller account_controller tick lag flush presence limit)

lemma steps: "api_step\<^sup>*\<^sup>* w w' \<Longrightarrow> R w w'"
  by (induction rule: rtranclp_induct) (auto intro: same compose step)

end

lemma background_sound: "sound w (publishLagMetric cfg t w)" "sound w (metrics_flush cfg w)"
  by (auto simp: publishLagMetric_def Let_def metrics_sound) (rule sound_db, simp)

interpretation keeps: service_law sound
  by unfold_locales (rule service_sound background_sound outbox_tick_sound presence_sound rate_sound)+

lemmas api_step_sound = keeps.step

lemmas api_steps_sound = keeps.steps

section \<open>Properties\<close>



text \<open>
  no operation of the server withdraws access: who may open a conversation once may open
  it ever after, whatever happens in between; there is no operation by which a participant
  leaves or is removed, and an anonymised account keeps its conversations.
\<close>

theorem access_never_withdrawn:
  assumes "api_step\<^sup>*\<^sup>* w w'" "may_access u r c w"
  shows "\<exists>g w''. assertCanAccess t u r c w' = (Inr g, w'')"
proof -
  have "may_access u r c w'"
    using api_steps_sound [OF assms(1)] assms(2) kept_access by (auto simp: sound_def)
  from assertCanAccess_granted [OF this, of t] show ?thesis by blast
qed

theorem access_never_withdrawn_witness:
  "\<exists>g w''. assertCanAccess 99 u_alice Customer c_one (snd (deleteMine 50 user_alice sample_world)) = (Inr g, w'')"
proof (rule access_never_withdrawn)
  show "api_step\<^sup>*\<^sup>* sample_world (snd (deleteMine 50 user_alice sample_world))"
    by (rule r_into_rtranclp, rule Delete_mine)
  show "may_access u_alice Customer c_one sample_world"
    by code_simp
qed

text \<open>
  the deletion of a message does not reach the search index: every search answers exactly
  as before the deletion, so the erased text is still found and shown.
\<close>

theorem deleted_message_searchable:
  assumes "messages_delete pg_uuid cfg t user rawc rawm w = (Inr (), w')"
  shows "search_get is_uuid sv cfg2 reader q conv w' = search_get is_uuid sv cfg2 reader q conv w"
proof -
  from assms obtain g w1 mid where g: "conversation_access_guard pg_uuid t (Some user) (Some rawc) None None w
      = (Inr g, w1)" "softDelete cfg t mid (au_sub user) w1 = (Inr (), w')"
    by (auto simp: messages_delete_def guarded_def split: prod.splits sum.splits)
  have "w_index w1 = w_index w \<and> w_indexReady w1 = w_indexReady w"
    using g(1) by (auto simp: conversation_access_guard_def assertCanAccess_def audit_log_def Let_def
        split: option.splits if_splits sum.splits)
  moreover have "w_index w' = w_index w1 \<and> w_indexReady w' = w_indexReady w1"
    using g(2) by (auto simp: softDelete_def publishMessageDeleted_def emit_def audit_log_def
        split: option.splits if_splits)
  ultimately show ?thesis
    by (simp add: search_get_def search_search_def os_search_def os_isEnabled_def search_docs_def)
qed

theorem deleted_message_searchable_witness:
  "\<exists>w' h n. messages_delete Some default_config 9 user_alice c_one m_one
       (sample_indexed\<lparr>w_msgs := [sample_msg None]\<rparr>) = (Inr (), w') \<and> map ms_body (w_msgs w') = [None]
     \<and> search_get (\<lambda>_. True) sample_engine search_config
         \<lparr>au_sub = u_bob, au_role = Seller, au_email = []\<rparr> ''ab'' None w' = Inr ([h], n)"
proof -
  let ?w = "sample_indexed\<lparr>w_msgs := [sample_msg None]\<rparr>"
  have "case messages_delete Some default_config 9 user_alice c_one m_one ?w of
     (Inl _, _) \<Rightarrow> False | (Inr _, w') \<Rightarrow> map ms_body (w_msgs w') = [None]" by code_simp
  then obtain w' where d: "messages_delete Some default_config 9 user_alice c_one m_one ?w = (Inr (), w')"
    "map ms_body (w_msgs w') = [None]" by (auto split: prod.splits sum.splits)
  have "\<exists>h n. search_get (\<lambda>_. True) sample_engine search_config
     \<lparr>au_sub = u_bob, au_role = Seller, au_email = []\<rparr> ''ab'' None ?w = Inr ([h], n)"
    by (simp add: search_get_def search_search_def os_isEnabled_def search_config_def
        sample_indexed_def os_search_def search_docs_def sample_engine_def Let_def)
  with d deleted_message_searchable [OF d(1)] show ?thesis by metis
qed

end
