(* ===== verification/Gateway.thy ===== *)
theory Gateway
  imports Api
begin

text \<open>
  \<open>RealtimeGateway\<close> (backend/src/modules/realtime/realtime.gateway.ts), the Socket.IO gateway
  inside the server. A \<open>node\<close> is the state of the server (\<open>world\<close>), its sockets with their
  rooms and authenticated user, and the frames sent to each socket so far. Each handler is a
  function of the node; \<open>gw_step\<close> interleaves them with the steps of the server, whose
  emissions \<open>serve\<close> hands to the sockets of the room (the Redis adapter makes the sockets of
  all instances one set).

  A value that a client sends is a \<open>js_value\<close>, known by what the handlers do with it: its
  type test, its truth value and its text in a template. Parameters: \<open>check_jwt\<close> (the JWT
  library) and \<open>db_id\<close> (the identifier that a query with that value looks for, \<open>None\<close> when
  the query fails). Failures of Redis are not modelled.
\<close>

section \<open>State\<close>

datatype js_value = Js_absent | Js_text string | Js_other bool string

fun js_true :: "js_value \<Rightarrow> bool" where
  "js_true Js_absent = False"
| "js_true (Js_text s) = (s \<noteq> [])"
| "js_true (Js_other b s) = b"

fun js_string :: "js_value \<Rightarrow> string" where
  "js_string Js_absent = ''undefined''"
| "js_string (Js_text s) = s"
| "js_string (Js_other b s) = s"

record socket =
  so_id :: string
  so_user :: "auth_user option"
  so_rooms :: "string list"
  so_timer :: bool
  so_open :: bool

datatype frame = F_emit emission | F_typing js_value uuid bool | F_unauthorized

datatype ack = Ack_ok | Ack_refused string | Ack_none | Ack_error exn

record node =
  nd_world :: world
  nd_socks :: "socket list"
  nd_sent :: "(string \<times> frame) list"

definition sock :: "string \<Rightarrow> node \<Rightarrow> socket option" where
  "sock sid nd = find (\<lambda>s. so_id s = sid) (nd_socks nd)"

definition sock_user :: "string \<Rightarrow> node \<Rightarrow> auth_user option" where
  "sock_user sid nd = (case sock sid nd of None \<Rightarrow> None | Some s \<Rightarrow> so_user s)"

definition set_sock :: "string \<Rightarrow> (socket \<Rightarrow> socket) \<Rightarrow> node \<Rightarrow> node" where
  "set_sock sid f nd = nd\<lparr>nd_socks := update_rows (\<lambda>s. so_id s = sid) f (nd_socks nd)\<rparr>"

definition join_room :: "string \<Rightarrow> string \<Rightarrow> node \<Rightarrow> node" where
  "join_room sid r = set_sock sid (\<lambda>s. s\<lparr>so_rooms := List.insert r (so_rooms s)\<rparr>)"

definition leave_room :: "string \<Rightarrow> string \<Rightarrow> node \<Rightarrow> node" where
  "leave_room sid r = set_sock sid (\<lambda>s. s\<lparr>so_rooms := removeAll r (so_rooms s)\<rparr>)"

section \<open>Handlers\<close>

text \<open>\<open>/access_token=([^;]+)/\<close> and what its group holds.\<close>

definition cookie_key :: string where "cookie_key = ''access_token=''"

definition cookie_re :: re where
  "cookie_re = Cat (lit cookie_key) (plus (\<lambda>c. c \<noteq> CHR '';''))"

definition cookie_match :: "string \<Rightarrow> string option" where
  "cookie_match s =
     (case search_re cookie_re None s of
        None \<Rightarrow> None
      | Some ((_, a), (_, b)) \<Rightarrow> Some (drop (length cookie_key) (take (length a - length b) a)))"

definition extractToken :: "js_value \<Rightarrow> string option \<Rightarrow> string option" where
  "extractToken fromAuth cookie =
     (case fromAuth of
        Js_text s \<Rightarrow> if s \<noteq> [] then Some s else cookie_match (coalesce cookie [])
      | _ \<Rightarrow> cookie_match (coalesce cookie []))"

definition gw_open :: "string \<Rightarrow> node \<Rightarrow> node" where
  "gw_open sid nd = nd\<lparr>nd_socks := nd_socks nd @
     [\<lparr>so_id = sid, so_user = None, so_rooms = [], so_timer = False, so_open = True\<rparr>]\<rparr>"

definition handleDisconnect :: "int \<Rightarrow> string \<Rightarrow> node \<Rightarrow> node" where
  "handleDisconnect t sid nd =
     (let nd1 = set_sock sid (\<lambda>s. s\<lparr>so_timer := False, so_rooms := [], so_open := False\<rparr>) nd
      in case sock_user sid nd of
           None \<Rightarrow> nd1
         | Some u \<Rightarrow> nd1\<lparr>nd_world := presence_disconnect t (au_sub u) sid (nd_world nd1)\<rparr>)"

definition handleConnection ::
  "(string \<Rightarrow> auth_user option) \<Rightarrow> int \<Rightarrow> js_value \<Rightarrow> string option \<Rightarrow> string \<Rightarrow> node \<Rightarrow> node" where
  "handleConnection check_jwt t fromAuth cookie sid nd =
     (let rejected = handleDisconnect t sid (nd\<lparr>nd_sent := nd_sent nd @ [(sid, F_unauthorized)]\<rparr>)
      in case extractToken fromAuth cookie of
           None \<Rightarrow> rejected
         | Some token \<Rightarrow>
             (case verifyAccess check_jwt token of
                Inl e \<Rightarrow> rejected
              | Inr payload \<Rightarrow>
                  (let nd1 = join_room sid (roomForUser (au_sub payload))
                         (set_sock sid (\<lambda>s. s\<lparr>so_user := Some payload\<rparr>) nd)
                   in set_sock sid (\<lambda>s. s\<lparr>so_timer := True\<rparr>)
                        (nd1\<lparr>nd_world := presence_connect t (au_sub payload) sid (nd_world nd1)\<rparr>))))"

text \<open>Without an authenticated user \<open>client.data.user.sub\<close> throws.\<close>

definition no_user :: exn where
  "no_user = JsError ''Cannot read properties of undefined''"

definition onJoin :: "config \<Rightarrow> (js_value \<Rightarrow> uuid option) \<Rightarrow> int \<Rightarrow> string \<Rightarrow> js_value \<Rightarrow> node \<Rightarrow> ack \<times> node" where
  "onJoin cfg db_id t sid conversationId nd =
     (case sock_user sid nd of
        None \<Rightarrow> (Ack_error no_user, nd)
      | Some u \<Rightarrow>
          (let (ok, w1) = rate_limit_ok cfg t (au_sub u) (nd_world nd);
               nd1 = nd\<lparr>nd_world := w1\<rparr>
           in if \<not> ok then (Ack_refused ''rate_limited'', nd1)
              else (case conversationId of
                      Js_text raw \<Rightarrow>
                        if raw = [] then (Ack_refused ''bad_request'', nd1)
                        else (case db_id conversationId of
                                None \<Rightarrow> (Ack_refused ''forbidden'', nd1)
                              | Some c \<Rightarrow>
                                  (case assertCanAccess t (au_sub u) (au_role u) c w1 of
                                     (Inl e, w2) \<Rightarrow> (Ack_refused ''forbidden'', nd\<lparr>nd_world := w2\<rparr>)
                                   | (Inr _, w2) \<Rightarrow>
                                       (Ack_ok, join_room sid (roomForConversation raw) (nd\<lparr>nd_world := w2\<rparr>))))
                    | _ \<Rightarrow> (Ack_refused ''bad_request'', nd1))))"

definition onLeave :: "string \<Rightarrow> js_value \<Rightarrow> node \<Rightarrow> ack \<times> node" where
  "onLeave sid conversationId nd =
     (Ack_ok, if js_true conversationId
              then leave_room sid (roomForConversation (js_string conversationId)) nd else nd)"

definition room_socks :: "string \<Rightarrow> node \<Rightarrow> socket list" where
  "room_socks r nd = filter (\<lambda>s. so_open s \<and> r \<in> set (so_rooms s)) (nd_socks nd)"

definition onTyping ::
  "config \<Rightarrow> (js_value \<Rightarrow> uuid option) \<Rightarrow> int \<Rightarrow> string \<Rightarrow> js_value \<Rightarrow> js_value \<Rightarrow> node \<Rightarrow> ack \<times> node" where
  "onTyping cfg db_id t sid conversationId isTyping nd =
     (case sock_user sid nd of
        None \<Rightarrow> (Ack_error no_user, nd)
      | Some u \<Rightarrow>
          (let (ok, w1) = rate_limit_ok cfg t (au_sub u) (nd_world nd);
               nd1 = nd\<lparr>nd_world := w1\<rparr>
           in if \<not> ok then (Ack_none, nd1)
              else if \<not> js_true conversationId then (Ack_none, nd1)
              else (case db_id conversationId of
                      None \<Rightarrow> (Ack_none, nd1)
                    | Some c \<Rightarrow>
                        (case assertCanAccess t (au_sub u) (au_role u) c w1 of
                           (Inl e, w2) \<Rightarrow> (Ack_none, nd\<lparr>nd_world := w2\<rparr>)
                         | (Inr _, w2) \<Rightarrow>
                             (Ack_none, nd\<lparr>nd_world := w2, nd_sent := nd_sent nd @
                                map (\<lambda>s. (so_id s, F_typing conversationId (au_sub u) (js_true isTyping)))
                                  (filter (\<lambda>s. so_id s \<noteq> sid)
                                    (room_socks (roomForConversation (js_string conversationId)) nd))\<rparr>)))))"

definition onPing :: "int \<Rightarrow> string \<Rightarrow> node \<Rightarrow> ack \<times> node" where
  "onPing t sid nd =
     (Ack_ok, case sock_user sid nd of
        None \<Rightarrow> nd | Some u \<Rightarrow> nd\<lparr>nd_world := presence_heartbeat t (au_sub u) (nd_world nd)\<rparr>)"

text \<open>The timer that \<open>handleConnection\<close> starts, every 30 s.\<close>

definition heartbeat_tick :: "int \<Rightarrow> string \<Rightarrow> node \<Rightarrow> node" where
  "heartbeat_tick t sid nd =
     (case sock sid nd of
        None \<Rightarrow> nd
      | Some s \<Rightarrow>
          (case so_user s of
             None \<Rightarrow> nd
           | Some u \<Rightarrow>
               if so_timer s then nd\<lparr>nd_world := presence_heartbeat t (au_sub u) (nd_world nd)\<rparr> else nd))"

section \<open>The server behind the gateway\<close>

fun emission_room :: "emission \<Rightarrow> string" where
  "emission_room (EmitCreated r _ _ _ _ _ _) = r"
| "emission_room (EmitDeleted r _ _ _) = r"
| "emission_room (EmitRead r _ _ _) = r"

definition deliver :: "emission \<Rightarrow> node \<Rightarrow> (string \<times> frame) list" where
  "deliver e nd = map (\<lambda>s. (so_id s, F_emit e)) (room_socks (emission_room e) nd)"

definition serve :: "world \<Rightarrow> node \<Rightarrow> node" where
  "serve w' nd = nd\<lparr>nd_world := w', nd_sent := nd_sent nd @
     concat (map (\<lambda>e. deliver e nd) (drop (length (w_emits (nd_world nd))) (w_emits w')))\<rparr>"

text \<open>
  One step of the node. A socket is handled after it is opened and until it is closed, and
  \<open>handleConnection\<close> runs once for it.
\<close>

definition live_sock :: "string \<Rightarrow> node \<Rightarrow> bool" where
  "live_sock sid nd = (case sock sid nd of None \<Rightarrow> False | Some s \<Rightarrow> so_open s)"

inductive gw_step :: "(js_value \<Rightarrow> uuid option) \<Rightarrow> node \<Rightarrow> node \<Rightarrow> bool" for db_id where
  Open_socket: "sock sid nd = None \<Longrightarrow> gw_step db_id nd (gw_open sid nd)"
| Connect: "live_sock sid nd \<Longrightarrow> sock_user sid nd = None \<Longrightarrow>
    gw_step db_id nd (handleConnection check_jwt t fa ck sid nd)"
| Disconnect: "live_sock sid nd \<Longrightarrow> gw_step db_id nd (handleDisconnect t sid nd)"
| Join: "live_sock sid nd \<Longrightarrow> gw_step db_id nd (snd (onJoin cfg db_id t sid v nd))"
| Leave: "live_sock sid nd \<Longrightarrow> gw_step db_id nd (snd (onLeave sid v nd))"
| Typing: "live_sock sid nd \<Longrightarrow> gw_step db_id nd (snd (onTyping cfg db_id t sid v b nd))"
| Ping: "live_sock sid nd \<Longrightarrow> gw_step db_id nd (snd (onPing t sid nd))"
| Timer: "gw_step db_id nd (heartbeat_tick t sid nd)"
| Serve: "api_step (nd_world nd) w' \<Longrightarrow> gw_step db_id nd (serve w' nd)"

inductive_cases gw_stepE: "gw_step db_id nd nd'"

section \<open>Tokens in cookies\<close>

text \<open>
  The reference: the value after the leftmost \<open>access_token=\<close> that is followed by something
  other than \<open>;\<close>, up to the next \<open>;\<close>.
\<close>

fun cookie_token :: "string \<Rightarrow> string option" where
  "cookie_token [] = None"
| "cookie_token (c # s) =
     (case strip_prefix cookie_key (c # s) of
        None \<Rightarrow> cookie_token s
      | Some v \<Rightarrow> if v = [] \<or> hd v = CHR '';'' then cookie_token s
                   else Some (takeWhile (\<lambda>x. x \<noteq> CHR '';'') v))"

lemma m_re_lit: "m_re (lit p) k (b, s) =
    (case strip_prefix p s of None \<Rightarrow> None | Some v \<Rightarrow> k (if p = [] then b else Some (last p), v))"
proof (induction p arbitrary: b s)
  case (Cons c p)
  then show ?case by (cases s) (auto split: option.split)
qed simp

lemma match_cookie:
  "strip_prefix cookie_key s = None \<Longrightarrow> match_at cookie_re (b, s) = None"
  "strip_prefix cookie_key s = Some v \<Longrightarrow> v = [] \<or> hd v = CHR '';'' \<Longrightarrow> match_at cookie_re (b, s) = None"
  "strip_prefix cookie_key s = Some v \<Longrightarrow> v \<noteq> [] \<Longrightarrow> hd v \<noteq> CHR '';'' \<Longrightarrow>
    \<exists>b'. match_at cookie_re (b, s) = Some (b', dropWhile (\<lambda>x. x \<noteq> CHR '';'') v)"
proof -
  have m: "match_at cookie_re (b, s) = (case strip_prefix cookie_key s of None \<Rightarrow> None
     | Some v \<Rightarrow> match_at (plus (\<lambda>c. c \<noteq> CHR '';'')) (if cookie_key = [] then b else Some (last cookie_key), v))"
    by (simp add: match_at_def cookie_re_def m_re_lit split: option.split)
  show "strip_prefix cookie_key s = None \<Longrightarrow> match_at cookie_re (b, s) = None" by (simp add: m)
  show "strip_prefix cookie_key s = Some v \<Longrightarrow> v = [] \<or> hd v = CHR '';'' \<Longrightarrow> match_at cookie_re (b, s) = None"
    using match_plus(1,2) by (cases v) (simp_all add: m)
  show "strip_prefix cookie_key s = Some v \<Longrightarrow> v \<noteq> [] \<Longrightarrow> hd v \<noteq> CHR '';'' \<Longrightarrow>
    \<exists>b'. match_at cookie_re (b, s) = Some (b', dropWhile (\<lambda>x. x \<noteq> CHR '';'') v)"
    using match_plus(3) by (cases v) (simp_all add: m)
qed

lemma search_cookie:
  "(case search_re cookie_re b s of None \<Rightarrow> None
    | Some ((_, a), (_, b)) \<Rightarrow> Some (drop (length cookie_key) (take (length a - length b) a))) = cookie_token s"
proof (induction s arbitrary: b)
  case Nil
  have "strip_prefix cookie_key [] = None" by (simp add: cookie_key_def)
  then show ?case by (simp add: match_cookie(1))
next
  case (Cons c s)
  consider "strip_prefix cookie_key (c # s) = None"
    | v where "strip_prefix cookie_key (c # s) = Some v" "v = [] \<or> hd v = CHR '';''"
    | v where "strip_prefix cookie_key (c # s) = Some v" "v \<noteq> []" "hd v \<noteq> CHR '';''" by (cases "strip_prefix cookie_key (c # s)") auto
  then show ?case
  proof cases
    case 1
    with Cons match_cookie(1) [OF 1] show ?thesis by simp
  next
    case 2
    with Cons match_cookie(2) [OF 2] show ?thesis by simp
  next
    case (3 v)
    let ?p = "\<lambda>x. x \<noteq> CHR '';''"
    obtain b' where m: "match_at cookie_re (b, c # s) = Some (b', dropWhile ?p v)"
      using match_cookie(3) [OF 3] by blast
    have cs: "c # s = cookie_key @ v" using 3(1) by (simp add: strip_prefix_Some)
    have "length v - length (dropWhile ?p v) = length (takeWhile ?p v)"
      by (metis add_diff_cancel_right' length_append takeWhile_dropWhile_id)
    moreover have "length (dropWhile ?p v) \<le> length v" by (rule length_dropWhile_le)
    ultimately have "take (length (c # s) - length (dropWhile ?p v)) (c # s)
        = cookie_key @ take (length (takeWhile ?p v)) v"
      unfolding cs by simp
    then have t: "take (length (c # s) - length (dropWhile ?p v)) (c # s) = cookie_key @ takeWhile ?p v"
      using takeWhile_eq_take [of ?p v] by simp
    have "search_re cookie_re b (c # s) = Some ((b, c # s), (b', dropWhile ?p v))" using m by simp
    with 3 t show ?thesis by simp
  qed
qed

lemma cookie_match_eq: "cookie_match s = cookie_token s"
  unfolding cookie_match_def by (rule search_cookie)

section \<open>Rooms\<close>

text \<open>A user is entitled to a room when it is his own or when he may access its conversation.\<close>

definition room_right :: "(js_value \<Rightarrow> uuid option) \<Rightarrow> auth_user \<Rightarrow> string \<Rightarrow> world \<Rightarrow> bool" where
  "room_right db_id u r w \<longleftrightarrow> r = roomForUser (au_sub u)
     \<or> (\<exists>raw c. r = roomForConversation raw \<and> db_id (Js_text raw) = Some c
          \<and> may_access (au_sub u) (au_role u) c w)"

definition entitled :: "(js_value \<Rightarrow> uuid option) \<Rightarrow> string \<Rightarrow> string \<Rightarrow> node \<Rightarrow> bool" where
  "entitled db_id sid r nd \<longleftrightarrow>
     (\<exists>u. sock_user sid nd = Some u \<and> room_right db_id u r (nd_world nd))"

fun frame_room :: "frame \<Rightarrow> string option" where
  "frame_room (F_emit e) = Some (emission_room e)"
| "frame_room (F_typing v u b) = Some (roomForConversation (js_string v))"
| "frame_room F_unauthorized = None"

definition node_ok :: "(js_value \<Rightarrow> uuid option) \<Rightarrow> node \<Rightarrow> bool" where
  "node_ok db_id nd \<longleftrightarrow> distinct (map so_id (nd_socks nd))
     \<and> (\<forall>s \<in> set (nd_socks nd). \<forall>r \<in> set (so_rooms s). entitled db_id (so_id s) r nd)
     \<and> (\<forall>(sid, f) \<in> set (nd_sent nd). \<forall>r. frame_room f = Some r \<longrightarrow> entitled db_id sid r nd)"

text \<open>Rights and identities are kept by every step.\<close>

definition grows :: "node \<Rightarrow> node \<Rightarrow> bool" where
  "grows nd nd' \<longleftrightarrow> kept (nd_world nd) (nd_world nd')
     \<and> (\<forall>sid u. sock_user sid nd = Some u \<longrightarrow> sock_user sid nd' = Some u)"

lemma entitled_mono: "grows nd nd' \<Longrightarrow> entitled db_id sid r nd \<Longrightarrow> entitled db_id sid r nd'"
  unfolding grows_def entitled_def room_right_def using kept_access by metis

lemma node_ok_step:
  assumes "node_ok db_id nd" "grows nd nd'" "distinct (map so_id (nd_socks nd'))"
    and rooms: "\<And>s r. s \<in> set (nd_socks nd') \<Longrightarrow> r \<in> set (so_rooms s) \<Longrightarrow>
      (\<exists>s0 \<in> set (nd_socks nd). so_id s0 = so_id s \<and> r \<in> set (so_rooms s0)) \<or> entitled db_id (so_id s) r nd'"
    and sent: "\<And>sid f r. (sid, f) \<in> set (nd_sent nd') \<Longrightarrow> frame_room f = Some r \<Longrightarrow>
      (sid, f) \<in> set (nd_sent nd) \<or> (\<exists>s \<in> set (nd_socks nd). so_id s = sid \<and> r \<in> set (so_rooms s))"
  shows "node_ok db_id nd'"
proof -
  have old: "entitled db_id (so_id s) r nd'" if "s \<in> set (nd_socks nd)" "r \<in> set (so_rooms s)" for s r
    using that assms(1,2) entitled_mono unfolding node_ok_def by blast
  have "entitled db_id (so_id s) r nd'" if "s \<in> set (nd_socks nd')" "r \<in> set (so_rooms s)" for s r
    using rooms [OF that] old by metis
  moreover have "entitled db_id sid r nd'"
    if "(sid, f) \<in> set (nd_sent nd')" "frame_room f = Some r" for sid f r
    using sent [OF that]
  proof
    assume "(sid, f) \<in> set (nd_sent nd)"
    then have "entitled db_id sid r nd" using assms(1) that(2) unfolding node_ok_def by blast
    then show ?thesis using assms(2) entitled_mono by blast
  qed (use old in blast)
  ultimately show ?thesis using assms(3) by (auto simp: node_ok_def)
qed

lemma set_sock_fields [simp]:
  "nd_world (set_sock sid f nd) = nd_world nd" "nd_sent (set_sock sid f nd) = nd_sent nd"
  by (simp_all add: set_sock_def)

lemma sock_world [simp]: "sock x (nd\<lparr>nd_world := w\<rparr>) = sock x nd" "sock x (nd\<lparr>nd_sent := l\<rparr>) = sock x nd"
  "sock_user x (nd\<lparr>nd_world := w\<rparr>) = sock_user x nd" "sock_user x (nd\<lparr>nd_sent := l\<rparr>) = sock_user x nd"
  by (simp_all add: sock_def sock_user_def)

lemma ids_set_sock: "(\<And>s. so_id (f s) = so_id s) \<Longrightarrow>
    map so_id (nd_socks (set_sock sid f nd)) = map so_id (nd_socks nd)"
  by (simp add: set_sock_def map_update_rows)

lemma sock_set_sock:
  "(\<And>s. so_id (f s) = so_id s) \<Longrightarrow>
   sock x (set_sock sid f nd) = map_option (\<lambda>s. if so_id s = sid then f s else s) (sock x nd)"
  by (simp add: sock_def set_sock_def find_update_rows)

lemma sock_user_set_sock:
  assumes "\<And>s. so_id (f s) = so_id s" "\<And>s. so_user (f s) = so_user s"
  shows "sock_user x (set_sock sid f nd) = sock_user x nd"
  using assms(2) by (simp add: sock_user_def sock_set_sock [OF assms(1)] split: option.split)

lemma in_set_sockE:
  assumes "s \<in> set (nd_socks (set_sock sid f nd))"
  obtains s0 where "s0 \<in> set (nd_socks nd)" "s = (if so_id s0 = sid then f s0 else s0)"
  using assms unfolding set_sock_def by (auto elim: in_update_rowsE)

text \<open>Handlers that touch the world and the sent frames only, or shrink the rooms.\<close>

lemma node_ok_quiet:
  assumes "node_ok db_id nd" "kept (nd_world nd) w" "\<And>s. so_id (f s) = so_id s"
    "\<And>s. so_user (f s) = so_user s" "\<And>s. set (so_rooms (f s)) \<subseteq> set (so_rooms s)"
    and "\<And>x fr r. (x, fr) \<in> set l \<Longrightarrow> frame_room fr = Some r \<Longrightarrow> (x, fr) \<in> set (nd_sent nd)
      \<or> (\<exists>s \<in> set (nd_socks nd). so_id s = x \<and> r \<in> set (so_rooms s))"
  shows "node_ok db_id ((set_sock sid f nd)\<lparr>nd_world := w, nd_sent := l\<rparr>)" (is "node_ok db_id ?nd")
proof (rule node_ok_step [OF assms(1)])
  show "grows nd ?nd" using assms(2,3,4) by (simp add: grows_def sock_user_set_sock)
  show "distinct (map so_id (nd_socks ?nd))"
    using assms(1,3) by (simp add: ids_set_sock node_ok_def)
next
  fix s r assume s: "s \<in> set (nd_socks ?nd)" "r \<in> set (so_rooms s)"
  then have "s \<in> set (nd_socks (set_sock sid f nd))" by simp
  then obtain s0 where s0: "s0 \<in> set (nd_socks nd)" "s = (if so_id s0 = sid then f s0 else s0)"
    by (rule in_set_sockE)
  with s(2) assms(5) [of s0] have "r \<in> set (so_rooms s0)" by (auto split: if_splits)
  moreover have "so_id s0 = so_id s" using s0(2) assms(3) by simp
  ultimately show "(\<exists>s0 \<in> set (nd_socks nd). so_id s0 = so_id s \<and> r \<in> set (so_rooms s0))
      \<or> entitled db_id (so_id s) r ?nd" using s0(1) by blast
next
  fix x fr r assume "(x, fr) \<in> set (nd_sent ?nd)" "frame_room fr = Some r"
  with assms(6) show "(x, fr) \<in> set (nd_sent nd) \<or> (\<exists>s \<in> set (nd_socks nd). so_id s = x \<and> r \<in> set (so_rooms s))"
    by simp
qed

lemma node_ok_shrink:
  assumes "node_ok db_id nd" "kept (nd_world nd) w" "\<And>s. so_id (f s) = so_id s"
    "\<And>s. so_user (f s) = so_user s" "\<And>s. set (so_rooms (f s)) \<subseteq> set (so_rooms s)"
  shows "node_ok db_id ((set_sock sid f nd)\<lparr>nd_world := w\<rparr>)"
proof -
  have "node_ok db_id ((set_sock sid f nd)\<lparr>nd_world := w, nd_sent := nd_sent nd\<rparr>)"
    using assms by (rule node_ok_quiet) simp
  then show ?thesis by (simp add: set_sock_def)
qed

lemma node_ok_send:
  assumes "node_ok db_id nd" "kept (nd_world nd) w"
    and "\<And>x fr r. (x, fr) \<in> set l \<Longrightarrow> frame_room fr = Some r \<Longrightarrow>
      \<exists>s \<in> set (nd_socks nd). so_id s = x \<and> r \<in> set (so_rooms s)"
  shows "node_ok db_id (nd\<lparr>nd_world := w, nd_sent := nd_sent nd @ l\<rparr>)"
proof -
  have i: "set_sock sid (\<lambda>s. s) nd = nd" for sid by (simp add: set_sock_def update_rows_def)
  have "node_ok db_id ((set_sock sid (\<lambda>s. s) nd)\<lparr>nd_world := w, nd_sent := nd_sent nd @ l\<rparr>)" for sid
    using assms(1,2) by (rule node_ok_quiet) (use assms(3) in auto)
  then show ?thesis by (simp add: i)
qed

lemma node_ok_world: "node_ok db_id nd \<Longrightarrow> kept (nd_world nd) w \<Longrightarrow> node_ok db_id (nd\<lparr>nd_world := w\<rparr>)"
  using node_ok_send [of db_id nd w "[]"] by simp

lemma node_ok_join:
  assumes "node_ok db_id nd" "entitled db_id sid r nd"
  shows "node_ok db_id (join_room sid r nd)" (is "node_ok db_id ?nd")
proof (rule node_ok_step [OF assms(1)])
  have u: "sock_user x ?nd = sock_user x nd" for x by (simp add: join_room_def sock_user_set_sock)
  show "grows nd ?nd" by (simp add: grows_def u) (simp add: join_room_def)
  show "distinct (map so_id (nd_socks ?nd))" using assms(1) by (simp add: join_room_def ids_set_sock node_ok_def)
  fix s q assume s: "s \<in> set (nd_socks ?nd)" "q \<in> set (so_rooms s)"
  from s(1) obtain s0 where s0: "s0 \<in> set (nd_socks nd)"
    "s = (if so_id s0 = sid then s0\<lparr>so_rooms := List.insert r (so_rooms s0)\<rparr> else s0)"
    unfolding join_room_def by (rule in_set_sockE)
  have "entitled db_id sid r ?nd" using assms(2) u by (simp add: entitled_def join_room_def)
  with s(2) s0 show "(\<exists>s0 \<in> set (nd_socks nd). so_id s0 = so_id s \<and> q \<in> set (so_rooms s0))
      \<or> entitled db_id (so_id s) q ?nd" by (auto split: if_splits)
qed (simp add: join_room_def)

section \<open>Every step keeps the rooms\<close>

lemma set_sock_world: "set_sock sid f (nd\<lparr>nd_world := w\<rparr>) = (set_sock sid f nd)\<lparr>nd_world := w\<rparr>"
  by (simp add: set_sock_def)

lemma soundD: "sound w w' \<Longrightarrow> kept w w'"
  by (simp add: sound_def)

lemma presence_kept: "kept w (presence_connect t u s w)" "kept w (presence_heartbeat t u w)"
  "kept w (presence_disconnect t u s w)"
  using presence_sound [of w t "P_connect u s"] presence_sound [of w t "P_heartbeat u"]
    presence_sound [of w t "P_disconnect u s"] by (simp_all add: soundD)

lemma rate_kept: "rate_limit_ok cfg t u w = (b, w1) \<Longrightarrow> kept w w1"
  using rate_sound [of w cfg t u] by (simp add: soundD)

lemma handleDisconnect_ok:
  assumes "node_ok db_id nd"
  shows "node_ok db_id (handleDisconnect t sid nd)"
proof -
  let ?f = "\<lambda>s. s\<lparr>so_timer := False, so_rooms := [], so_open := False\<rparr>"
  have q: "node_ok db_id ((set_sock sid ?f nd)\<lparr>nd_world := w\<rparr>)" if "kept (nd_world nd) w" for w
    using assms that by (rule node_ok_shrink) simp_all
  have "(set_sock sid ?f nd)\<lparr>nd_world := nd_world nd\<rparr> = set_sock sid ?f nd" by (simp add: set_sock_def)
  with q [of "nd_world nd"] q presence_kept(3) show ?thesis
    by (simp add: handleDisconnect_def Let_def split: option.split)
qed

lemma node_ok_unauthorized:
  assumes "node_ok db_id nd"
  shows "node_ok db_id (nd\<lparr>nd_sent := nd_sent nd @ [(sid, F_unauthorized)]\<rparr>)"
proof -
  have "node_ok db_id (nd\<lparr>nd_world := nd_world nd, nd_sent := nd_sent nd @ [(sid, F_unauthorized)]\<rparr>)"
    by (rule node_ok_send [OF assms]) auto
  then show ?thesis by simp
qed

lemma node_ok_login:
  assumes "node_ok db_id nd" "sock_user sid nd = None" "live_sock sid nd"
  shows "node_ok db_id (set_sock sid (\<lambda>s. s\<lparr>so_user := Some u\<rparr>) nd)"
    "sock_user sid (set_sock sid (\<lambda>s. s\<lparr>so_user := Some u\<rparr>) nd) = Some u"
proof -
  let ?nd = "set_sock sid (\<lambda>s. s\<lparr>so_user := Some u\<rparr>) nd"
  have su: "sock_user x ?nd = (if x = sid \<and> sock x nd \<noteq> None then Some u else sock_user x nd)" for x
    by (cases "sock x nd") (auto simp: sock_user_def sock_set_sock, auto simp: sock_def dest: find_SomeD)
  show "sock_user sid ?nd = Some u" using assms(3) by (auto simp: su live_sock_def split: option.splits)
  show "node_ok db_id ?nd"
  proof (rule node_ok_step [OF assms(1)])
    show "grows nd ?nd" using assms(2) by (auto simp: grows_def su)
    show "distinct (map so_id (nd_socks ?nd))" using assms(1) by (simp add: ids_set_sock node_ok_def)
  next
    fix s r assume s: "s \<in> set (nd_socks ?nd)" "r \<in> set (so_rooms s)"
    from s(1) obtain s0 where "s0 \<in> set (nd_socks nd)" "s = (if so_id s0 = sid then s0\<lparr>so_user := Some u\<rparr> else s0)"
      by (rule in_set_sockE)
    with s(2) show "(\<exists>s0 \<in> set (nd_socks nd). so_id s0 = so_id s \<and> r \<in> set (so_rooms s0))
        \<or> entitled db_id (so_id s) r ?nd" by (auto split: if_splits)
  qed simp
qed

lemma handleConnection_ok:
  assumes "node_ok db_id nd" "sock_user sid nd = None" "live_sock sid nd"
  shows "node_ok db_id (handleConnection check_jwt t fa ck sid nd)"
proof -
  have rejected: "node_ok db_id (handleDisconnect t sid (nd\<lparr>nd_sent := nd_sent nd @ [(sid, F_unauthorized)]\<rparr>))"
    by (intro handleDisconnect_ok node_ok_unauthorized assms(1))
  have "node_ok db_id (set_sock sid (\<lambda>s. s\<lparr>so_timer := True\<rparr>) (nd1\<lparr>nd_world := presence_connect t (au_sub u) sid (nd_world nd1)\<rparr>))"
    if nd1: "nd1 = join_room sid (roomForUser (au_sub u)) (set_sock sid (\<lambda>s. s\<lparr>so_user := Some u\<rparr>) nd)" for u nd1
  proof -
    have "entitled db_id sid (roomForUser (au_sub u)) (set_sock sid (\<lambda>s. s\<lparr>so_user := Some u\<rparr>) nd)"
      using node_ok_login(2) [OF assms] by (simp add: entitled_def room_right_def)
    then have "node_ok db_id nd1" unfolding nd1 by (rule node_ok_join [OF node_ok_login(1) [OF assms]])
    then show ?thesis unfolding set_sock_world by (rule node_ok_shrink) (simp_all add: presence_kept)
  qed
  with rejected show ?thesis by (simp add: handleConnection_def Let_def split: option.split sum.split)
qed

lemma onJoin_ok:
  assumes "node_ok db_id nd"
  shows "node_ok db_id (snd (onJoin cfg db_id t sid v nd))"
proof (cases "sock_user sid nd")
  case (Some u)
  obtain ok w1 where r: "rate_limit_ok cfg t (au_sub u) (nd_world nd) = (ok, w1)" by fastforce
  note k1 = rate_kept [OF r]
  have ok1: "node_ok db_id (nd\<lparr>nd_world := w1\<rparr>)" using assms k1 by (rule node_ok_world)
  have refused: "node_ok db_id (nd\<lparr>nd_world := w2\<rparr>)"
    if "assertCanAccess t (au_sub u) (au_role u) c w1 = (g, w2)" for c g w2
    using assms kept_trans [OF k1 kept_assertCanAccess [OF that]] by (rule node_ok_world)
  have joined: "node_ok db_id (join_room sid (roomForConversation raw) (nd\<lparr>nd_world := w2\<rparr>))"
    if a: "assertCanAccess t (au_sub u) (au_role u) c w1 = (Inr g, w2)" "db_id (Js_text raw) = Some c" for c g w2 raw
  proof (rule node_ok_join [OF refused [OF a(1)]])
    have "may_access (au_sub u) (au_role u) c w1"
      using a(1) assertCanAccess_denied [of "au_sub u" "au_role u" c w1 t] by fastforce
    then have "may_access (au_sub u) (au_role u) c w2" using kept_access kept_assertCanAccess [OF a(1)] by blast
    with a(2) Some show "entitled db_id sid (roomForConversation raw) (nd\<lparr>nd_world := w2\<rparr>)"
      by (auto simp: entitled_def room_right_def)
  qed
  show ?thesis
    using Some r ok1 refused joined
    by (simp add: onJoin_def Let_def split: js_value.split option.split prod.split sum.split)
qed (simp add: onJoin_def assms)

lemma onLeave_ok:
  assumes "node_ok db_id nd"
  shows "node_ok db_id (snd (onLeave sid v nd))"
proof -
  have "node_ok db_id ((set_sock sid (\<lambda>s. s\<lparr>so_rooms := removeAll r (so_rooms s)\<rparr>) nd)\<lparr>nd_world := nd_world nd\<rparr>)" for r
    using assms by (rule node_ok_shrink) auto
  moreover have "(set_sock sid f nd)\<lparr>nd_world := nd_world nd\<rparr> = set_sock sid f nd" for f by (simp add: set_sock_def)
  ultimately show ?thesis using assms by (simp add: onLeave_def leave_room_def)
qed

lemma onTyping_ok:
  assumes "node_ok db_id nd"
  shows "node_ok db_id (snd (onTyping cfg db_id t sid v b nd))"
proof (cases "sock_user sid nd")
  case (Some u)
  obtain ok w1 where r: "rate_limit_ok cfg t (au_sub u) (nd_world nd) = (ok, w1)" by fastforce
  note k1 = rate_kept [OF r]
  have ok1: "node_ok db_id (nd\<lparr>nd_world := w1\<rparr>)" using assms k1 by (rule node_ok_world)
  have refused: "node_ok db_id (nd\<lparr>nd_world := w2\<rparr>)"
    if "assertCanAccess t (au_sub u) (au_role u) c w1 = (g, w2)" for c g w2
    using assms kept_trans [OF k1 kept_assertCanAccess [OF that]] by (rule node_ok_world)
  have told: "node_ok db_id (nd\<lparr>nd_world := w2, nd_sent := nd_sent nd @
        map (\<lambda>s. (so_id s, F_typing v (au_sub u) (js_true b))) (filter (\<lambda>s. so_id s \<noteq> sid)
          (room_socks (roomForConversation (js_string v)) nd))\<rparr>)"
    if "assertCanAccess t (au_sub u) (au_role u) c w1 = (g, w2)" for c g w2
    by (rule node_ok_send [OF assms kept_trans [OF k1 kept_assertCanAccess [OF that]]])
      (auto simp: room_socks_def)
  show ?thesis
    using Some r ok1 refused told
    by (simp add: onTyping_def Let_def split: option.split prod.split sum.split)
qed (simp add: onTyping_def assms)

lemma serve_ok:
  assumes "node_ok db_id nd" "kept (nd_world nd) w"
  shows "node_ok db_id (serve w nd)"
  unfolding serve_def by (rule node_ok_send [OF assms]) (auto simp: deliver_def room_socks_def)

lemma gw_open_ok:
  assumes "node_ok db_id nd" "sock sid nd = None"
  shows "node_ok db_id (gw_open sid nd)"
proof (rule node_ok_step [OF assms(1)])
  show "grows nd (gw_open sid nd)"
    by (auto simp: grows_def gw_open_def sock_user_def sock_def find_append split: option.splits)
  have "sid \<notin> so_id ` set (nd_socks nd)" using assms(2) by (auto simp: sock_def find_None_iff)
  then show "distinct (map so_id (nd_socks (gw_open sid nd)))"
    using assms(1) by (auto simp: gw_open_def node_ok_def)
qed (auto simp: gw_open_def)

lemma gw_step_ok: "gw_step db_id nd nd' \<Longrightarrow> node_ok db_id nd \<Longrightarrow> node_ok db_id nd'"
proof (induction rule: gw_step.induct)
  case (Ping sid nd t)
  then show ?case by (auto simp: onPing_def presence_kept intro: node_ok_world split: option.split)
next
  case (Timer nd t sid)
  then show ?case by (auto simp: heartbeat_tick_def presence_kept intro: node_ok_world split: option.split)
next
  case (Serve nd w')
  then show ?case by (intro serve_ok soundD api_step_sound)
qed (simp_all add: gw_open_ok handleConnection_ok handleDisconnect_ok onJoin_ok onLeave_ok onTyping_ok)

section \<open>What a send emits\<close>

lemma emits_parts:
  "w_emits (count_flags cfg t sr w) = w_emits w"
  "w_emits (snd (prepare_body env k cfg t ry c w)) = w_emits w"
  "store_message t ry inp sr sb conv w = Inr (m, w') \<Longrightarrow> w_emits w' = w_emits w"
proof -
  have "w_emits (fold (\<lambda>f w. metrics_count cfg t n 1 (Some [(''flag'', f)]) w) fs w) = w_emits w" for n fs w
    by (induction fs arbitrary: w) simp_all
  then show "w_emits (count_flags cfg t sr w) = w_emits w" by (simp add: count_flags_def)
  show "w_emits (snd (prepare_body env k cfg t ry c w)) = w_emits w"
    by (simp add: prepare_body_def split: sum.split)
  show "store_message t ry inp sr sb conv w = Inr (m, w') \<Longrightarrow> w_emits w' = w_emits w"
    by (auto simp: store_message_def bumpLastMessage_def Let_def split: if_splits sum.splits)
qed

lemma send_tx_facts:
  assumes "send_tx t ry inp sr sb w = Inr (m, w')"
  shows "w_emits w' = w_emits w" "ms_conversationId m = si_conversationId inp"
    "ms_senderId m = si_senderId inp"
proof -
  from send_tx_Inr [OF assms] obtain conv where "find_replay inp w = Some m \<and> w' = w
     \<or> find_replay inp w = None \<and> store_message t ry inp sr sb conv w = Inr (m, w')" by metis
  then show "w_emits w' = w_emits w" "ms_conversationId m = si_conversationId inp" "ms_senderId m = si_senderId inp"
    using emits_parts(3) [of t ry inp sr sb conv w m w'] store_message_Inr(1) [of t ry inp sr sb conv w m w']
      find_replay_SomeD [of inp w m]
    by (auto simp: new_message_def)
qed

lemma messages_send_emits:
  assumes "messages_send env k cfg t0 t ry inp w = (Inr d, w')"
  shows "w_emits w' = w_emits (publishMessageCreated cfg d w)"
    "ms_conversationId d = si_conversationId inp" "ms_senderId d = si_senderId inp"
proof -
  define sr where "sr = scan (js_trim (si_body inp))"
  obtain rb w1 where pb: "prepare_body env k cfg t0 ry (sr_cleaned sr) (count_flags cfg t0 sr w) = (rb, w1)"
    by fastforce
  have e1: "w_emits w1 = w_emits w"
    using emits_parts(2) [of env k cfg t0 ry "sr_cleaned sr" "count_flags cfg t0 sr w"] emits_parts(1) pb by simp
  from assms pb obtain sb where rb: "rb = Inr sb"
    by (cases rb) (auto simp: messages_send_def Let_def sr_def [symmetric] split: if_splits)
  from assms pb rb obtain m w2 where tx: "send_tx t ry inp sr sb w1 = Inr (m, w2)"
    by (cases "send_tx t ry inp sr sb w1") (auto simp: messages_send_def Let_def sr_def [symmetric] split: if_splits)
  have d: "d = strip_cipher m (if ms_status m = Deleted then [] else if ms_status m = Hidden then hidden_text else sr_cleaned sr)"
    "w' = metrics_timing cfg t ''MessageSendDurationMs'' (t - t0)
       (metrics_count cfg t ''MessagesSent'' 1 None (publishMessageCreated cfg d w2))"
    using assms pb rb tx
    by (auto simp: messages_send_def Let_def sr_def [symmetric] toDecrypted_known split: if_splits)
  note f = send_tx_facts [OF tx]
  show "w_emits w' = w_emits (publishMessageCreated cfg d w)"
    using d(2) f(1) e1 by (simp add: publishMessageCreated_def emit_def)
  show "ms_conversationId d = si_conversationId inp" "ms_senderId d = si_senderId inp"
    using f by (simp_all add: d(1) strip_cipher_def)
qed

lemma serve_emission:
  "w_emits w' = w_emits (nd_world nd) @ es \<Longrightarrow>
   nd_sent (serve w' nd) = nd_sent nd @ concat (map (\<lambda>e. deliver e nd) es)"
  by (simp add: serve_def)

section \<open>Properties\<close>

text \<open>
  C6: no leak through rooms: over every history of the gateway and the server, whatever is
  sent to a socket about a conversation, a message, a deletion, a read receipt or typing,
  goes to a socket whose authenticated user may access that conversation.
\<close>

theorem frames_reach_only_entitled:
  assumes "(gw_step db_id)\<^sup>*\<^sup>* nd0 nd" "nd_socks nd0 = []" "nd_sent nd0 = []"
    and "(sid, f) \<in> set (nd_sent nd)" "frame_room f = Some (roomForConversation c)" "db_id (Js_text c) = Some c"
  shows "\<exists>u. sock_user sid nd = Some u \<and> may_access (au_sub u) (au_role u) c (nd_world nd)"
proof -
  have "node_ok db_id nd0" using assms(2,3) by (simp add: node_ok_def)
  with assms(1) have "node_ok db_id nd" by (induction rule: rtranclp_induct) (auto intro: gw_step_ok)
  with assms(4,5) have "entitled db_id sid (roomForConversation c) nd" unfolding node_ok_def by blast
  then show ?thesis using assms(6) by (auto simp: entitled_def room_right_def)
qed

text \<open>Alice and Bob, connected and in the room of their conversation.\<close>

definition bob_claims :: auth_user where
  "bob_claims = \<lparr>au_sub = u_bob, au_role = Seller, au_email = ''bob@x.fr''\<rparr>"

definition plain_id :: "js_value \<Rightarrow> uuid option" where
  "plain_id v = (case v of Js_text s \<Rightarrow> Some (to_lower s) | _ \<Rightarrow> None)"

definition empty_node :: node where
  "empty_node = \<lparr>nd_world = sample_world, nd_socks = [], nd_sent = []\<rparr>"

definition alice_node :: node where
  "alice_node = handleConnection (\<lambda>_. Some user_alice) 1000 (Js_text ''t'') None ''s1'' (gw_open ''s1'' empty_node)"

definition bob_node :: node where
  "bob_node = handleConnection (\<lambda>_. Some bob_claims) 1000 (Js_text ''t'') None ''s2'' (gw_open ''s2'' alice_node)"

definition room_node :: node where
  "room_node = snd (onJoin default_config plain_id 1500 ''s1'' (Js_text c_one) bob_node)"

definition typing_node :: node where
  "typing_node = snd (onTyping default_config plain_id 1600 ''s2'' (Js_text c_one) (Js_other True ''true'') room_node)"

lemma reach_typing_node: "(gw_step plain_id)\<^sup>*\<^sup>* empty_node typing_node"
proof -
  have o1: "gw_step plain_id empty_node (gw_open ''s1'' empty_node)"
    by (rule Open_socket) (simp add: sock_def empty_node_def)
  have "gw_step plain_id (gw_open ''s1'' empty_node) alice_node"
    unfolding alice_node_def by (rule Connect) code_simp+
  moreover have "gw_step plain_id alice_node (gw_open ''s2'' alice_node)" by (rule Open_socket) code_simp
  moreover have "gw_step plain_id (gw_open ''s2'' alice_node) bob_node"
    unfolding bob_node_def by (rule Connect) code_simp+
  moreover have "gw_step plain_id bob_node room_node"
    unfolding room_node_def by (rule Join) code_simp
  moreover have "gw_step plain_id room_node typing_node"
    unfolding typing_node_def by (rule Typing) code_simp
  ultimately show ?thesis using o1 by (meson converse_rtranclp_into_rtranclp rtranclp.rtrancl_refl)
qed

theorem frames_reach_only_entitled_witness:
  "(''s1'', F_typing (Js_text c_one) u_bob True) \<in> set (nd_sent typing_node)
   \<and> (\<exists>u. sock_user ''s1'' typing_node = Some u
        \<and> may_access (au_sub u) (au_role u) c_one (nd_world typing_node))"
proof
  show f: "(''s1'', F_typing (Js_text c_one) u_bob True) \<in> set (nd_sent typing_node)" by code_simp
  have c: "plain_id (Js_text c_one) = Some c_one" by code_simp
  show "\<exists>u. sock_user ''s1'' typing_node = Some u
        \<and> may_access (au_sub u) (au_role u) c_one (nd_world typing_node)"
    by (rule frames_reach_only_entitled [OF reach_typing_node _ _ f _ c]) (simp_all add: empty_node_def)
qed

text \<open>
  a message sent with success is pushed at once, with the text its sender gets back, to
  exactly the sockets that are open in the conversation's room, once each and in order; in the
  dedicated mode the server pushes nothing.
\<close>

theorem sent_message_pushed:
  assumes "messages_send env k cfg t0 t ry inp (nd_world nd) = (Inr d, w')"
  shows "nd_sent (serve w' nd) = nd_sent nd @ (if cf_wsGatewayDedicated cfg then []
     else map (\<lambda>s. (so_id s, F_emit (EmitCreated (roomForConversation (si_conversationId inp)) (ms_id d)
            (si_conversationId inp) (si_senderId inp) (ms_sequence d) (coalesce (ms_body d) []) (ms_createdAt d))))
          (room_socks (roomForConversation (si_conversationId inp)) nd))"
proof -
  note e = messages_send_emits [OF assms]
  have "w_emits w' = w_emits (nd_world nd) @ (if cf_wsGatewayDedicated cfg then []
      else [EmitCreated (roomForConversation (si_conversationId inp)) (ms_id d)
            (si_conversationId inp) (si_senderId inp) (ms_sequence d) (coalesce (ms_body d) []) (ms_createdAt d)])"
    using e by (simp add: publishMessageCreated_def emit_def)
  from serve_emission [OF this] show ?thesis by (simp add: deliver_def)
qed

theorem sent_message_pushed_witness:
  "\<exists>d w'. sample_send sample_hello (nd_world room_node) = (Inr d, w')
     \<and> nd_sent (serve w' room_node) = nd_sent room_node @
        [(''s1'', F_emit (EmitCreated (roomForConversation c_one) (ms_id d) c_one u_alice (ms_sequence d)
            (coalesce (ms_body d) []) (ms_createdAt d)))]"
proof -
  have "\<exists>d w'. sample_send sample_hello (nd_world room_node) = (Inr d, w')" by (rule run_Inr) code_simp
  then obtain d w' where d: "sample_send sample_hello (nd_world room_node) = (Inr d, w')" by blast
  have "map so_id (room_socks (roomForConversation c_one) room_node) = [''s1'']" by code_simp
  then obtain s where "room_socks (roomForConversation c_one) room_node = [s]" "so_id s = ''s1''" by auto
  moreover have "\<not> cf_wsGatewayDedicated default_config" by code_simp
  ultimately show ?thesis
    using d sent_message_pushed [OF d [unfolded sample_send_def]]
    by (simp add: sample_hello_def sample_input_def)
qed

text \<open>
  the room is named by the text that the client sent: joining under another spelling of the
  conversation's identifier (PostgreSQL reads capitals) is acknowledged, but the socket then
  receives none of the conversation's events.
\<close>

theorem join_other_spelling_deaf:
  assumes "onJoin cfg db_id t sid (Js_text raw) nd = (Ack_ok, nd')" "raw \<noteq> c"
    and "distinct (map so_id (nd_socks nd))" "sock sid nd = Some s" "roomForConversation c \<notin> set (so_rooms s)"
    and "emission_room e = roomForConversation c"
  shows "(sid, F_emit e) \<notin> set (deliver e nd')"
proof -
  obtain w where nd': "nd' = join_room sid (roomForConversation raw) (nd\<lparr>nd_world := w\<rparr>)"
    using assms(1) by (auto simp: onJoin_def Let_def split: option.splits prod.splits if_splits sum.splits)
  have "roomForConversation c \<notin> set (so_rooms x)" if x: "x \<in> set (nd_socks nd')" "so_id x = sid" for x
  proof -
    from x(1) obtain x0 where x0: "x0 \<in> set (nd_socks nd)"
      "x = (if so_id x0 = sid then x0\<lparr>so_rooms := List.insert (roomForConversation raw) (so_rooms x0)\<rparr> else x0)"
      unfolding nd' join_room_def set_sock_world by (auto elim: in_set_sockE)
    then have "so_id x0 = sid" using x(2) by (auto split: if_splits)
    then have "x0 = s"
      using find_unique [OF assms(3) x0(1), of sid] assms(4) by (simp add: sock_def)
    with x0 assms(2,5) \<open>so_id x0 = sid\<close> show ?thesis by simp
  qed
  then show ?thesis using assms(6) by (auto simp: deliver_def room_socks_def)
qed

theorem join_other_spelling_deaf_witness:
  "\<exists>nd'. onJoin default_config plain_id 1500 ''s1'' (Js_text ''C0000000-0000-4000-8000-000000000001'') alice_node
       = (Ack_ok, nd') \<and> (''s1'', F_emit (EmitDeleted (roomForConversation c_one) m_one c_one 1))
       \<notin> set (deliver (EmitDeleted (roomForConversation c_one) m_one c_one 1) nd')"
proof -
  have "fst (onJoin default_config plain_id 1500 ''s1'' (Js_text ''C0000000-0000-4000-8000-000000000001'') alice_node)
      = Ack_ok" by code_simp
  then obtain nd' where j: "onJoin default_config plain_id 1500 ''s1''
      (Js_text ''C0000000-0000-4000-8000-000000000001'') alice_node = (Ack_ok, nd')" by (metis prod.collapse)
  have s: "map_option so_rooms (sock ''s1'' alice_node) = Some [roomForUser u_alice]"
    "distinct (map so_id (nd_socks alice_node))" by code_simp+
  then obtain s where s1: "sock ''s1'' alice_node = Some s" "so_rooms s = [roomForUser u_alice]" by blast
  have "roomForConversation c_one \<notin> set (so_rooms s)" by (simp add: s1)
  from join_other_spelling_deaf [OF j _ s(2) s1(1) this] j show ?thesis by (auto simp: c_one_def)
qed

definition heartbeats :: "string \<Rightarrow> int list \<Rightarrow> node \<Rightarrow> node" where
  "heartbeats sid ts nd = fold (\<lambda>t. heartbeat_tick t sid) ts nd"

fun gaps_below :: "int \<Rightarrow> int \<Rightarrow> int list \<Rightarrow> bool" where
  "gaps_below d t [] = True"
| "gaps_below d t (x # xs) = (t \<le> x \<and> x < t + d \<and> gaps_below d x xs)"

lemma heartbeat_online:
  assumes "sock sid nd = Some s" "so_user s = Some u" "so_timer s" "presence_set t (au_sub u) (nd_world nd) = ss"
    and "ss \<noteq> []" "\<forall>q. t \<le> q \<and> q < t + presence_ttl * 1000 \<longrightarrow> presence_set q (au_sub u) (nd_world nd) = ss"
    and "gaps_below (presence_ttl * 1000) t ts" "last (t # ts) \<le> t'" "t' < last (t # ts) + presence_ttl * 1000"
  shows "presence_set t' (au_sub u) (nd_world (heartbeats sid ts nd)) = ss"
  using assms
proof (induction ts arbitrary: t nd)
  case (Cons x ts)
  let ?nd = "nd\<lparr>nd_world := presence_heartbeat x (au_sub u) (nd_world nd)\<rparr>"
  have step: "heartbeats sid (x # ts) nd = heartbeats sid ts ?nd"
    using Cons.prems(1-3) by (simp add: heartbeats_def heartbeat_tick_def)
  have x: "presence_set x (au_sub u) (nd_world nd) = ss" using Cons.prems(6,7) by simp
  have all: "\<forall>q. x \<le> q \<and> q < x + presence_ttl * 1000 \<longrightarrow> presence_set q (au_sub u) (nd_world ?nd) = ss"
    using x Cons.prems(5) by (simp add: presence_set_heartbeat)
  show ?case unfolding step
    by (rule Cons.IH [of ?nd x]) (use Cons.prems all in \<open>simp_all add: presence_ttl_def\<close>)
qed (simp add: heartbeats_def)



end
