(* ===== verification/Ws_Gateway.thy ===== *)
theory Ws_Gateway
  imports Gateway
begin

text \<open>
  The dedicated socket gateway (ws-gateway/src: server.ts, auth.ts, nats-consumer.ts,
  rate-limit.ts): a separate process that authenticates sockets by the same tokens, keeps the
  rooms and pushes what it consumes from NATS. It has no database.

  \<open>ws_node\<close> holds the counters in Redis, the sockets (as \<open>socket\<close> of \<open>Gateway\<close>, always with a
  user) and the frames sent. A consumed message is a \<open>wire_msg\<close>, whose data is \<open>None\<close> when it
  is not JSON; the fields that a handler reads are taken from the server's payloads, absent
  ones being \<open>None\<close>. Parameters: \<open>check_jwt\<close> (the JWT library) and the sequence of messages
  that JetStream delivers. Processes has the start and the end of the process; the logs are not
  modelled.
\<close>

section \<open>HTTP server and origins\<close>

definition ws_origins :: "string option \<Rightarrow> string list" where
  "ws_origins env = filter (\<lambda>s. s \<noteq> []) (map js_trim (js_split '','' (coalesce env [])))"

definition ws_cors :: "string list \<Rightarrow> string option \<Rightarrow> exn + bool" where
  "ws_cors allowed origin =
     (if \<not> truthy origin \<or> coalesce origin [] \<in> set allowed then Inr True
      else Inl (JsError ''Origin not allowed''))"

definition ws_http :: "string \<Rightarrow> nat" where
  "ws_http url = (if url = ''/healthz'' then 200 else 404)"

section \<open>Authentication\<close>

definition ws_extractToken :: "js_value \<Rightarrow> string option \<Rightarrow> string option" where
  "ws_extractToken handshakeAuth cookieHeader =
     (let from_cookie = (if truthy cookieHeader
             then (case cookie_match (coalesce cookieHeader []) of None \<Rightarrow> None | Some m \<Rightarrow> Some m)
             else None)
      in if js_true handshakeAuth
         then (case handshakeAuth of Js_text s \<Rightarrow> Some s | _ \<Rightarrow> from_cookie)
         else from_cookie)"

section \<open>Sockets\<close>

datatype ws_frame =
    W_created "uuid option" uuid "uuid option" "int option" "string option" "int option" "string list option"
  | W_deleted "uuid option" uuid "int option"
  | W_read payload
  | W_typing string uuid bool

record ws_node =
  ws_rates :: rates
  ws_socks :: "socket list"
  ws_sent :: "(string \<times> ws_frame) list"

definition ws_user :: "string \<Rightarrow> ws_node \<Rightarrow> auth_user option" where
  "ws_user sid nd = (case find (\<lambda>s. so_id s = sid) (ws_socks nd) of None \<Rightarrow> None | Some s \<Rightarrow> so_user s)"

definition ws_set :: "string \<Rightarrow> (socket \<Rightarrow> socket) \<Rightarrow> ws_node \<Rightarrow> ws_node" where
  "ws_set sid f nd = nd\<lparr>ws_socks := update_rows (\<lambda>s. so_id s = sid) f (ws_socks nd)\<rparr>"

definition ws_room :: "string \<Rightarrow> ws_node \<Rightarrow> socket list" where
  "ws_room r nd = filter (\<lambda>s. so_open s \<and> r \<in> set (so_rooms s)) (ws_socks nd)"

text \<open>The middleware and the \<open>connection\<close> handler; a rejected handshake opens no socket.\<close>

definition ws_connect ::
  "(string \<Rightarrow> auth_user option) \<Rightarrow> js_value \<Rightarrow> string option \<Rightarrow> string \<Rightarrow> ws_node \<Rightarrow> exn + ws_node" where
  "ws_connect check_jwt handshakeAuth cookieHeader sid nd =
     (case ws_extractToken handshakeAuth cookieHeader of
        None \<Rightarrow> Inl (JsError ''unauthorized'')
      | Some token \<Rightarrow>
          (case check_jwt token of
             None \<Rightarrow> Inl (JsError ''unauthorized'')
           | Some u \<Rightarrow> Inr (nd\<lparr>ws_socks := ws_socks nd @
               [\<lparr>so_id = sid, so_user = Some u, so_rooms = [roomForUser (au_sub u)], so_timer = False,
                 so_open = True\<rparr>]\<rparr>)))"

definition ws_disconnect :: "string \<Rightarrow> ws_node \<Rightarrow> ws_node" where
  "ws_disconnect sid nd = ws_set sid (\<lambda>s. s\<lparr>so_rooms := [], so_open := False\<rparr>) nd"

definition ws_limit :: nat where "ws_limit = 120"

definition ws_join :: "int \<Rightarrow> string \<Rightarrow> auth_user \<Rightarrow> js_value \<Rightarrow> ws_node \<Rightarrow> ack \<times> ws_node" where
  "ws_join t sid u conversationId nd =
     (let (ok, rates) = limiter_check ws_limit t (au_sub u) (ws_rates nd);
          nd1 = nd\<lparr>ws_rates := rates\<rparr>
      in if \<not> ok then (Ack_refused ''rate_limited'', nd1)
         else (case conversationId of
                 Js_text c \<Rightarrow>
                   if length c > 64 then (Ack_refused ''bad_request'', nd1)
                   else (Ack_ok, ws_set sid (\<lambda>s. s\<lparr>so_rooms := List.insert (roomForConversation c) (so_rooms s)\<rparr>) nd1)
               | _ \<Rightarrow> (Ack_refused ''bad_request'', nd1)))"

definition ws_leave :: "string \<Rightarrow> js_value \<Rightarrow> ws_node \<Rightarrow> ack \<times> ws_node" where
  "ws_leave sid conversationId nd =
     (Ack_ok, if js_true conversationId
        then ws_set sid (\<lambda>s. s\<lparr>so_rooms := removeAll (roomForConversation (js_string conversationId)) (so_rooms s)\<rparr>) nd
        else nd)"

definition ws_typing :: "int \<Rightarrow> string \<Rightarrow> auth_user \<Rightarrow> js_value \<Rightarrow> js_value \<Rightarrow> ws_node \<Rightarrow> ws_node" where
  "ws_typing t sid u conversationId isTyping nd =
     (let (ok, rates) = limiter_check ws_limit t (au_sub u) (ws_rates nd);
          nd1 = nd\<lparr>ws_rates := rates\<rparr>
      in if \<not> ok then nd1
         else (case conversationId of
                 Js_text c \<Rightarrow> nd1\<lparr>ws_sent := ws_sent nd1 @
                     map (\<lambda>s. (so_id s, W_typing c (au_sub u) (js_true isTyping)))
                       (filter (\<lambda>s. so_id s \<noteq> sid) (ws_room (roomForConversation c) nd1))\<rparr>
               | _ \<Rightarrow> nd1))"

section \<open>The consumer\<close>

definition ws_emit :: "uuid \<Rightarrow> ws_frame \<Rightarrow> ws_node \<Rightarrow> ws_node" where
  "ws_emit c f nd = nd\<lparr>ws_sent := ws_sent nd @
     map (\<lambda>s. (so_id s, f)) (ws_room (roomForConversation c) nd)\<rparr>"

text \<open>\<open>data.conversationId\<close> and the other fields of an event.\<close>

fun ev_conversation :: "payload \<Rightarrow> uuid" where
  "ev_conversation (Created p) = cp_conversationId p"
| "ev_conversation (ReadUpto c u s) = c"

fun ev_created :: "payload \<Rightarrow> created_payload option" where
  "ev_created (Created p) = Some p"
| "ev_created (ReadUpto c u s) = None"

definition onEvent :: "string \<Rightarrow> payload \<Rightarrow> ws_node \<Rightarrow> ws_node" where
  "onEvent eventType data nd =
     (let c = ev_conversation data; p = ev_created data
      in if eventType = ''message.created'' then
           ws_emit c (W_created (map_option cp_messageId p) c (map_option cp_senderId p)
             (map_option cp_sequence p) (map_option cp_body p) (map_option cp_createdAt p)
             (Option.bind p cp_moderationFlags)) nd
         else if eventType = ''message.deleted'' then
           ws_emit c (W_deleted (map_option cp_messageId p) c (map_option cp_sequence p)) nd
         else if eventType = ''message.read'' then ws_emit c (W_read data) nd
         else nd)"

record wire_msg =
  wm_subject :: string
  wm_data :: "payload option"

datatype js_ack = Acked | Naked nat

definition event_type :: "string \<Rightarrow> string" where
  "event_type subject = (case strip_prefix ''messaging.events.'' subject of None \<Rightarrow> subject | Some s \<Rightarrow> s)"

definition consume_msg :: "wire_msg \<Rightarrow> ws_node \<Rightarrow> js_ack \<times> ws_node" where
  "consume_msg m nd =
     (case wm_data m of
        None \<Rightarrow> (Naked 2000, nd)
      | Some data \<Rightarrow> (Acked, onEvent (event_type (wm_subject m)) data nd))"

fun consume_all :: "wire_msg list \<Rightarrow> ws_node \<Rightarrow> js_ack list \<times> ws_node" where
  "consume_all [] nd = ([], nd)"
| "consume_all (m # ms) nd =
     (let (a, nd1) = consume_msg m nd; (as, nd2) = consume_all ms nd1 in (a # as, nd2))"

text \<open>What NATS hands over of a message that the server published.\<close>

definition wire :: "nats_msg \<Rightarrow> wire_msg" where
  "wire m = \<lparr>wm_subject = na_subject m, wm_data = Some (na_data m)\<rparr>"

section \<open>Properties\<close>

text \<open>
  both gateways take the same token from the same handshake: the text of the handshake's
  \<open>auth\<close> when there is one, else the value that follows the first \<open>access_token=\<close> in the
  cookies, as the direct scan of the header finds it.
\<close>

theorem token_extraction_agrees:
  "ws_extractToken a cookie = extractToken a cookie
   \<and> ws_extractToken a cookie = (case a of Js_text (x # s) \<Rightarrow> Some (x # s) | _ \<Rightarrow> cookie_token (coalesce cookie []))"
proof -
  have c: "(if truthy cookie then (case cookie_match (coalesce cookie []) of None \<Rightarrow> None | Some m \<Rightarrow> Some m) else None)
      = cookie_token (coalesce cookie [])"
    by (cases "truthy cookie"; cases cookie) (auto simp: cookie_match_eq split: option.split)
  show ?thesis
    by (cases a) (auto simp: ws_extractToken_def extractToken_def c cookie_match_eq Let_def split: list.split)
qed

lemma ws_room_emit: "ws_room r (nd\<lparr>ws_sent := l\<rparr>) = ws_room r nd" "ws_room r (nd\<lparr>ws_rates := x\<rparr>) = ws_room r nd"
  by (simp_all add: ws_room_def)

text \<open>
  From the outbox to the sockets: what the worker publishes of a created message is pushed,
  with its text, to exactly the sockets open in the conversation's room.
\<close>

lemma published_event_pushed:
  assumes "outbox_handle dv cfg t r w = (Inr (), w')" "nats_isEnabled cfg w" "ob_payload r = Created p"
    and "ob_eventType r = ''message.created''"
  shows "\<exists>m \<in> set (w_nats w'). na_msgId m = ob_id r \<and> (\<forall>nd. consume_msg (wire m) nd = (Acked, nd\<lparr>ws_sent := ws_sent nd @
      map (\<lambda>s. (so_id s, W_created (Some (cp_messageId p)) (cp_conversationId p) (Some (cp_senderId p))
            (Some (cp_sequence p)) (Some (cp_body p)) (Some (cp_createdAt p)) (cp_moderationFlags p)))
        (ws_room (roomForConversation (cp_conversationId p)) nd)\<rparr>))"
proof -
  let ?m = "\<lparr>na_subject = ''messaging.events.'' @ ''message.created'', na_msgId = ob_id r, na_data = Created p\<rparr>"
  let ?w1 = "w\<lparr>w_nats := w_nats w @ [?m]\<rparr>"
  from assms have c: "consume_event dv cfg t r (metrics_count cfg t ''NatsPublished'' 1
        (Some [(''event_type'', ob_eventType r)]) ?w1) = (Inr (), w')"
    by (auto simp: outbox_handle_def nats_publish_def nats_isEnabled_def Let_def split: if_splits)
  let ?w = "metrics_count cfg t ''NatsPublished'' 1 (Some [(''event_type'', ob_eventType r)]) ?w1"
  have "set (w_nats ?w1) \<subseteq> set (w_nats ?w)" using delivers_metrics [of ?w1] unfolding delivers_def by blast
  also have "set (w_nats ?w) \<subseteq> set (w_nats w')"
    using consume_event_delivers [of ?w dv cfg t r] c by (simp add: delivers_def)
  finally have "?m \<in> set (w_nats w')" by simp
  moreover have "strip_prefix ''messaging.events.'' (''messaging.events.'' @ ''message.created'') = Some ''message.created''"
    by (simp only: strip_prefix_Some)
  then have "event_type (''messaging.events.'' @ ''message.created'') = ''message.created''"
    by (simp only: event_type_def option.case)
  then have "consume_msg (wire ?m) nd = (Acked, onEvent ''message.created'' (Created p) nd)" for nd
    by (simp only: consume_msg_def wire_def wire_msg.simps nats_msg.simps option.case)
  ultimately show ?thesis by (intro bexI [of _ ?m]) (simp_all add: onEvent_def ws_emit_def Let_def)
qed

text \<open>
  C40: the dedicated gateway checks no access: a socket of any authenticated user joins any
  conversation's room and then receives every message of the conversation with its text,
  whether or not its user is among the recipients that the event names.
\<close>

theorem dedicated_join_unchecked:
  assumes "find (\<lambda>s. so_id s = sid) (ws_socks nd) = Some s" "so_open s" "length c \<le> 64"
    and "fst (limiter_check ws_limit t (au_sub u) (ws_rates nd))"
  shows "\<exists>nd1. ws_join t sid u (Js_text c) nd = (Ack_ok, nd1) \<and> (\<forall>p. cp_conversationId p = c \<longrightarrow>
      (sid, W_created (Some (cp_messageId p)) c (Some (cp_senderId p)) (Some (cp_sequence p)) (Some (cp_body p))
         (Some (cp_createdAt p)) (cp_moderationFlags p)) \<in> set (ws_sent (onEvent ''message.created'' (Created p) nd1)))"
proof -
  obtain rates where l: "limiter_check ws_limit t (au_sub u) (ws_rates nd) = (True, rates)"
    using assms(4) by (cases "limiter_check ws_limit t (au_sub u) (ws_rates nd)") auto
  let ?f = "\<lambda>s. s\<lparr>so_rooms := List.insert (roomForConversation c) (so_rooms s)\<rparr>"
  let ?nd1 = "ws_set sid ?f (nd\<lparr>ws_rates := rates\<rparr>)"
  have j: "ws_join t sid u (Js_text c) nd = (Ack_ok, ?nd1)" using l assms(3) by (simp add: ws_join_def)
  note s = find_SomeD [OF assms(1)]
  have "?f s \<in> set (ws_socks ?nd1)"
    using in_update_rowsI [of s "ws_socks nd" "\<lambda>s. so_id s = sid" ?f] s by (simp add: ws_set_def)
  then have "?f s \<in> set (ws_room (roomForConversation c) ?nd1)"
    using assms(2) by (simp add: ws_room_def)
  then have "(so_id (?f s), x) \<in> (\<lambda>s. (so_id s, x)) ` set (ws_room (roomForConversation c) ?nd1)" for x :: ws_frame
    by (rule imageI)
  then have "(sid, x) \<in> set (ws_sent (ws_emit c x ?nd1))" for x using s by (simp add: ws_emit_def)
  with j show ?thesis by (auto simp: onEvent_def)
qed

definition eve_claims :: auth_user where
  "eve_claims = \<lparr>au_sub = u_eve, au_role = Customer, au_email = ''eve@x.fr''\<rparr>"

theorem dedicated_join_unchecked_witness:
  "\<exists>nd nd1. ws_connect (\<lambda>_. Some eve_claims) (Js_text ''t'') None ''s9''
       \<lparr>ws_rates = Map.empty, ws_socks = [], ws_sent = []\<rparr> = Inr nd
     \<and> ws_join 7 ''s9'' eve_claims (Js_text c_one) nd = (Ack_ok, nd1)"
proof -
  let ?s = "\<lparr>so_id = ''s9'', so_user = Some eve_claims, so_rooms = [roomForUser u_eve], so_timer = False, so_open = True\<rparr>"
  let ?nd = "\<lparr>ws_rates = Map.empty, ws_socks = [?s], ws_sent = []\<rparr>"
  have "ws_connect (\<lambda>_. Some eve_claims) (Js_text ''t'') None ''s9''
       \<lparr>ws_rates = Map.empty, ws_socks = [], ws_sent = []\<rparr> = Inr ?nd"
    by (simp add: ws_connect_def ws_extractToken_def eve_claims_def Let_def)
  moreover have "fst (limiter_check ws_limit 7 (au_sub eve_claims) (ws_rates ?nd))"
    by (simp add: limiter_check_def redis_incr_def ws_limit_def Let_def)
  with dedicated_join_unchecked [of "''s9''" ?nd ?s c_one 7 eve_claims]
  have "\<exists>nd1. ws_join 7 ''s9'' eve_claims (Js_text c_one) ?nd = (Ack_ok, nd1)" by (auto simp: c_one_def)
  ultimately show ?thesis by blast
qed

text \<open>
  in the dedicated mode a deletion reaches no socket: it writes no event to the outbox,
  publishes nothing to NATS and emits nothing, though the dedicated gateway has a case for it.
\<close>

theorem dedicated_deletion_silent:
  assumes "messages_delete pg_uuid cfg t user rawc rawm w = (Inr (), w')" "cf_wsGatewayDedicated cfg"
  shows "w_outbox w' = w_outbox w \<and> w_nats w' = w_nats w \<and> w_emits w' = w_emits w"
proof -
  from assms(1) obtain g w1 mid where g: "conversation_access_guard pg_uuid t (Some user) (Some rawc) None None w
      = (Inr g, w1)" "softDelete cfg t mid (au_sub user) w1 = (Inr (), w')"
    by (auto simp: messages_delete_def guarded_def split: prod.splits sum.splits)
  have "w_outbox w1 = w_outbox w \<and> w_nats w1 = w_nats w \<and> w_emits w1 = w_emits w"
    using g(1) by (auto simp: conversation_access_guard_def assertCanAccess_def audit_log_def Let_def
        split: option.splits if_splits sum.splits)
  moreover have "w_outbox w' = w_outbox w1 \<and> w_nats w' = w_nats w1 \<and> w_emits w' = w_emits w1"
    using g(2) assms(2) by (auto simp: softDelete_def publishMessageDeleted_def audit_log_def
        split: option.splits if_splits)
  ultimately show ?thesis by simp
qed

theorem dedicated_deletion_silent_witness:
  "\<exists>w'. messages_delete Some (default_config\<lparr>cf_wsGatewayDedicated := True\<rparr>) 9 user_alice c_one m_one
       (sample_world\<lparr>w_msgs := [sample_msg None]\<rparr>) = (Inr (), w') \<and> w_outbox w' = [] \<and> w_emits w' = []"
proof -
  have "\<exists>u w'. messages_delete Some (default_config\<lparr>cf_wsGatewayDedicated := True\<rparr>) 9 user_alice c_one m_one
       (sample_world\<lparr>w_msgs := [sample_msg None]\<rparr>) = (Inr u, w')" by (rule run_Inr) code_simp
  then obtain w' where d: "messages_delete Some (default_config\<lparr>cf_wsGatewayDedicated := True\<rparr>) 9 user_alice c_one m_one
       (sample_world\<lparr>w_msgs := [sample_msg None]\<rparr>) = (Inr (), w')" by auto
  from dedicated_deletion_silent [OF this] d show ?thesis by (simp add: sample_world_def empty_world_def)
qed

end
