(* ===== verification/Requests.thy ===== *)
theory Requests
  imports Ws_Gateway
begin

text \<open>
  What surrounds every handler of the HTTP server: \<open>JwtStrategy\<close> and \<open>JwtAuthGuard\<close>
  (backend/src/modules/auth), the decorator \<open>CurrentUser\<close>, \<open>HttpExceptionFilter\<close> around the
  handlers of the other theories, \<open>RequestContextMiddleware\<close>, \<open>TracingService\<close>, the probe
  of backend/src/modules/health, and the origin check of \<open>RedisIoAdapter\<close>.

  Passport and the JWT library are third-party: \<open>bearer\<close> is the token of an Authorization
  header, \<open>check_jwt\<close> the payload of a token that is genuine and not expired. \<open>cookie-parser\<close>
  gives the cookies as JavaScript values, since a value that begins with \<open>j:\<close> is parsed as JSON.
\<close>

section \<open>JwtStrategy and JwtAuthGuard\<close>

record http_request =
  rq_method :: string
  rq_url :: string
  rq_cookies :: "(string \<times> js_value) list"
  rq_authorization :: "string option"
  rq_requestId :: "string option"
  rq_ip :: string
  rq_userAgent :: "string option"

definition jwtFromRequest :: "(string \<Rightarrow> string option) \<Rightarrow> http_request \<Rightarrow> js_value" where
  "jwtFromRequest bearer rq =
     (let c = coalesce (map_of (rq_cookies rq) ''access_token'') Js_absent
      in if js_true c then c
         else (case Option.bind (rq_authorization rq) bearer of
                 None \<Rightarrow> Js_absent
               | Some s \<Rightarrow> Js_text s))"

definition jwt_validate :: "auth_user \<Rightarrow> auth_user" where
  "jwt_validate p = \<lparr>au_sub = au_sub p, au_role = au_role p, au_email = au_email p\<rparr>"

text \<open>\<open>None\<close> is the guard's 401.\<close>

definition jwt_auth_guard ::
  "(string \<Rightarrow> auth_user option) \<Rightarrow> (string \<Rightarrow> string option) \<Rightarrow> http_request \<Rightarrow> auth_user option" where
  "jwt_auth_guard check_jwt bearer rq =
     (case jwtFromRequest bearer rq of
        Js_text s \<Rightarrow> if s = [] then None else map_option jwt_validate (check_jwt s)
      | _ \<Rightarrow> None)"

datatype user_field = Sub | Role | Email

datatype current_user = Whole "auth_user option" | Field "string option"

definition CurrentUser :: "user_field option \<Rightarrow> auth_user option \<Rightarrow> current_user" where
  "CurrentUser data user =
     (case data of
        None \<Rightarrow> Whole user
      | Some Sub \<Rightarrow> Field (map_option au_sub user)
      | Some Role \<Rightarrow> Field (map_option (\<lambda>u. role_string (au_role u)) user)
      | Some Email \<Rightarrow> Field (map_option au_email user))"

section \<open>The answer to a request\<close>

datatype 'a reply = Answer 'a | Failure nat error_payload

definition filtered :: "http_request \<Rightarrow> exn + 'a \<Rightarrow> 'a reply" where
  "filtered rq r =
     (case r of
        Inr a \<Rightarrow> Answer a
      | Inl e \<Rightarrow> (let (status, body) = exception_filter e (rq_url rq) in Failure status body))"

text \<open>
  The guard throws \<open>UnauthorizedException\<close> without a message, whose response has a status and
  a message only: the filter's own \<open>error\<close> stays.
\<close>

definition unauthorized_reply :: "http_request \<Rightarrow> 'a reply" where
  "unauthorized_reply rq = Failure 401 \<lparr>ep_statusCode = 401, ep_error = ''Internal Server Error'',
     ep_message = ''Unauthorized'', ep_path = rq_url rq\<rparr>"

definition http_run ::
  "(string \<Rightarrow> auth_user option) \<Rightarrow> (string \<Rightarrow> string option) \<Rightarrow> http_request \<Rightarrow>
   (auth_user \<Rightarrow> world \<Rightarrow> (world, 'a) res) \<Rightarrow> world \<Rightarrow> 'a reply \<times> world" where
  "http_run check_jwt bearer rq handler w =
     (case jwt_auth_guard check_jwt bearer rq of
        None \<Rightarrow> (unauthorized_reply rq, w)
      | Some u \<Rightarrow> (let (r, w1) = handler u w in (filtered rq r, w1)))"

section \<open>RequestContextMiddleware and the probe\<close>

record request_line =
  rl_reqId :: string
  rl_method :: string
  rl_path :: string
  rl_status :: nat
  rl_durationMs :: nat
  rl_ip :: string
  rl_ua :: "string option"

definition request_id :: "string \<Rightarrow> http_request \<Rightarrow> string" where
  "request_id fresh rq = (if truthy (rq_requestId rq) then coalesce (rq_requestId rq) [] else fresh)"

definition request_finished :: "string \<Rightarrow> nat \<Rightarrow> nat \<Rightarrow> string \<Rightarrow> nat \<Rightarrow> http_request \<Rightarrow> request_line" where
  "request_finished reqId startNs endNs path status rq =
     \<lparr>rl_reqId = reqId, rl_method = rq_method rq, rl_path = path, rl_status = status,
      rl_durationMs = (endNs - startNs) div 1000000, rl_ip = rq_ip rq, rl_ua = rq_userAgent rq\<rparr>"

definition health_check :: "exn + unit \<Rightarrow> string \<times> string" where
  "health_check query =
     (let db = (case query of Inr _ \<Rightarrow> ''up'' | Inl _ \<Rightarrow> ''down'')
      in (if db = ''up'' then ''ok'' else ''degraded'', db))"

section \<open>TracingService\<close>

record span =
  sn_name :: string
  sn_attrs :: "(string \<times> string) list"
  sn_exceptions :: "exn list"
  sn_status :: nat
  sn_message :: "exn option"
  sn_ended :: bool

text \<open>The state of the wrapped function is paired with the spans ended so far.\<close>

definition tracing_span ::
  "bool \<Rightarrow> string \<Rightarrow> ('s \<times> span list \<Rightarrow> ('s \<times> span list, 'a) res) \<Rightarrow> (string \<times> string) list option \<Rightarrow>
   's \<times> span list \<Rightarrow> ('s \<times> span list, 'a) res" where
  "tracing_span traced name fn attrs x =
     (if \<not> traced then fn x
      else (let sp = \<lparr>sn_name = name, sn_attrs = coalesce attrs [], sn_exceptions = [], sn_status = 0,
                      sn_message = None, sn_ended = False\<rparr>
            in case fn x of
                 (Inr out, s, spans) \<Rightarrow>
                   (Inr out, s, spans @ [sp\<lparr>sn_status := 1, sn_ended := True\<rparr>])
               | (Inl e, s, spans) \<Rightarrow>
                   (Inl e, s, spans @ [sp\<lparr>sn_exceptions := [e], sn_status := 2, sn_message := Some e,
                                          sn_ended := True\<rparr>])))"

section \<open>The origin check of the socket server\<close>

definition io_origins :: "string option \<Rightarrow> string list" where
  "io_origins env = filter (\<lambda>s. s \<noteq> []) (map js_trim (js_split '','' (coalesce env [])))"

definition io_cors :: "string list \<Rightarrow> string option \<Rightarrow> exn + bool" where
  "io_cors allowed origin =
     (if \<not> truthy origin \<or> coalesce origin [] \<in> set allowed then Inr True
      else Inl (JsError ''Origin not allowed''))"

section \<open>Lemmas\<close>

lemma jwt_validate_id [simp]: "jwt_validate p = p"
  by (simp add: jwt_validate_def)

lemma jwt_auth_guard_Some:
  "jwt_auth_guard check_jwt bearer rq = Some u \<longleftrightarrow>
     (\<exists>s. jwtFromRequest bearer rq = Js_text s \<and> s \<noteq> [] \<and> check_jwt s = Some u)"
  by (auto simp: jwt_auth_guard_def split: js_value.split)

text \<open>An API client without the cookie is known by its bearer token.\<close>

lemma bearer_only:
  assumes "map_of (rq_cookies rq) ''access_token'' = None" "rq_authorization rq = Some h" "bearer h = Some s"
  shows "jwtFromRequest bearer rq = Js_text s"
  using assms by (simp add: jwtFromRequest_def coalesce_def)

text \<open>A stale cookie hides a good bearer token: the second source is read only without the first.\<close>

lemma stale_cookie_wins:
  assumes "map_of (rq_cookies rq) ''access_token'' = Some (Js_text s)" "s \<noteq> []" "check_jwt s = None"
  shows "jwt_auth_guard check_jwt bearer rq = None"
  using assms by (simp add: jwt_auth_guard_def jwtFromRequest_def coalesce_def)

lemma tracing_transparent:
  "(\<And>s spans. \<exists>more. f (s, spans) = (fst (g s), snd (g s), spans @ more) \<and> (\<forall>x \<in> set more. sn_ended x)) \<Longrightarrow>
   \<exists>more. tracing_span traced name f attrs (s, spans) = (fst (g s), snd (g s), spans @ more)
     \<and> (\<forall>x \<in> set more. sn_ended x)"
  by (cases "fst (g s)")
    (auto simp: tracing_span_def Let_def dest!: meta_spec [of _ s] meta_spec [of _ spans])

text \<open>The three origin checks accept the same origins, given the same variable.\<close>

lemma origin_checks_agree:
  "isl (io_cors (io_origins env) o1) = isl (cors_check (parse_origins env) o1)"
  "isl (ws_cors (ws_origins env) o1) = isl (cors_check (parse_origins env) o1)"
  by (simp_all add: io_cors_def io_origins_def cors_check_def parse_origins_def ws_cors_def ws_origins_def)

lemma http_run_Answer:
  assumes "http_run check_jwt bearer rq handler w = (Answer a, w')"
  obtains s u where "jwtFromRequest bearer rq = Js_text s" "check_jwt s = Some u" "handler u w = (Inr a, w')"
proof -
  from assms obtain u where u: "jwt_auth_guard check_jwt bearer rq = Some u"
    by (auto simp: http_run_def unauthorized_reply_def split: option.splits)
  with assms have "handler u w = (Inr a, w')"
    by (cases "handler u w") (auto simp: http_run_def filtered_def split: sum.splits prod.splits)
  with u that show thesis by (auto simp: jwt_auth_guard_Some)
qed

lemma filtered_failure:
  assumes "filtered rq r = Failure s p"
  shows "ep_statusCode p = s \<and> ep_path p = rq_url rq \<and> s \<in> {400, 401, 403, 404, 409, 500}
    \<and> (s = 500 \<longrightarrow> ep_error p = ''Internal Server Error'' \<and> ep_message p = ''Une erreur est survenue'')"
proof (cases r)
  case (Inl e)
  with assms show ?thesis by (cases e) (auto simp: filtered_def exception_filter_def Let_def)
qed (use assms in \<open>simp add: filtered_def\<close>)

section \<open>Properties\<close>

text \<open>
  the answers of a protected route, whatever its handler does. Without a token that
  verifies the answer is 401 and nothing happens; otherwise the handler runs as the token's
  user. Every failure has a body whose code is the status and one of six statuses, and
  an internal error is answered by a fixed text that tells nothing about it.
\<close>

theorem protected_route:
  "case http_run check_jwt bearer rq handler w of
     (Answer a, w') \<Rightarrow> \<exists>s u. jwtFromRequest bearer rq = Js_text s \<and> check_jwt s = Some u
         \<and> handler u w = (Inr a, w')
   | (Failure st body, w') \<Rightarrow> ep_statusCode body = st \<and> ep_path body = rq_url rq
         \<and> st \<in> {400, 401, 403, 404, 409, 500}
         \<and> (st = 500 \<longrightarrow> ep_message body = ''Une erreur est survenue'')
         \<and> ((\<forall>s u. jwtFromRequest bearer rq = Js_text s \<longrightarrow> s \<noteq> [] \<longrightarrow> check_jwt s \<noteq> Some u)
              \<longrightarrow> st = 401 \<and> w' = w)"
proof (cases "jwt_auth_guard check_jwt bearer rq")
  case None
  then show ?thesis by (simp add: http_run_def unauthorized_reply_def)
next
  case (Some u)
  then obtain s where s: "jwtFromRequest bearer rq = Js_text s" "s \<noteq> []" "check_jwt s = Some u"
    by (auto simp: jwt_auth_guard_Some)
  obtain r w1 where h: "handler u w = (r, w1)" by fastforce
  then have run: "http_run check_jwt bearer rq handler w = (filtered rq r, w1)"
    using Some by (simp add: http_run_def)
  show ?thesis
  proof (cases "filtered rq r")
    case (Answer a)
    then have "r = Inr a" by (auto simp: filtered_def split: sum.splits prod.splits)
    with run Answer s h show ?thesis by simp
  next
    case (Failure st body)
    with filtered_failure [OF Failure] run s show ?thesis by auto
  qed
qed

definition anonymous_request :: http_request where
  "anonymous_request = \<lparr>rq_method = ''GET'', rq_url = ''/x'', rq_cookies = [], rq_authorization = None,
     rq_requestId = None, rq_ip = ''::1'', rq_userAgent = None\<rparr>"

theorem protected_route_witness:
  "\<exists>body. http_run (\<lambda>_. None) Some anonymous_request (\<lambda>u w. (Inr (), w)) empty_world
     = (Failure 401 body, empty_world) \<and> ep_statusCode body = 401"
proof -
  let ?run = "http_run (\<lambda>_. None) Some anonymous_request (\<lambda>u w. (Inr (), w)) empty_world"
  have "jwtFromRequest Some anonymous_request = Js_absent"
    by (simp add: jwtFromRequest_def anonymous_request_def coalesce_def)
  with protected_route [where check_jwt = "\<lambda>_. None" and bearer = Some and rq = anonymous_request
      and handler = "\<lambda>u w. (Inr (), w)" and w = empty_world]
  show ?thesis by (cases ?run) (auto split: reply.splits)
qed

lemma messages_send_author:
  assumes "messages_send env k cfg t0 t ry inp w = (Inr d, w')"
  shows "ms_senderId d = si_senderId inp \<and> ms_conversationId d = si_conversationId inp \<and> sendable inp w"
  using assms
proof (cases rule: messages_send_cases)
  case (sent sb w1 m w2)
  have "ms_senderId m = si_senderId inp \<and> ms_conversationId m = si_conversationId inp"
    using sent(3)
  proof (rule send_tx_Inr)
    fix conv part
    assume "cv_id conv = si_conversationId inp"
      "find_replay inp w1 = Some m \<and> w2 = w1
       \<or> find_replay inp w1 = None \<and> store_message t ry inp (scan (js_trim (si_body inp))) sb conv w1 = Inr (m, w2)"
    then show ?thesis
      by (auto dest!: find_replay_SomeD store_message_Inr(1) simp: new_message_def)
  qed
  then show ?thesis
    using sent(4) send_tx_sendable [OF sent(3)] sendable_db [OF sent(1)] by (simp add: strip_cipher_def)
qed simp_all

text \<open>
  C12: who writes, end to end: a message that the server accepts over HTTP bears the identity
  of the verified token and of no one else, is stored in the conversation of the path, and
  that user may access the conversation, which is open and not end-to-end encrypted.
\<close>

theorem posted_as_token_subject:
  assumes "http_run check_jwt bearer rq (\<lambda>u. messages_post env k pg_uuid cfg t0 t ry u raw d key) w = (Answer m, w')"
  shows "\<exists>s u c. jwtFromRequest bearer rq = Js_text s \<and> check_jwt s = Some u
    \<and> ms_senderId m = au_sub u \<and> uuid_pipe raw = Inr (ms_conversationId m)
    \<and> pg_uuid raw = Some c \<and> may_access (au_sub u) (au_role u) c w
    \<and> (\<exists>conv \<in> set (w_convs w). cv_id conv = ms_conversationId m \<and> cv_status conv = Open
         \<and> \<not> cv_e2eeEnabled conv)"
proof -
  from assms obtain s u where tok: "jwtFromRequest bearer rq = Js_text s" "check_jwt s = Some u"
    and post: "messages_post env k pg_uuid cfg t0 t ry u raw d key w = (Inr m, w')"
    by (rule http_run_Answer)
  obtain w1 where may: "guard_may pg_uuid (Some u) (Some raw) None None w" and frame: "access_frame w w1"
    and send: "(case uuid_pipe raw of Inl e \<Rightarrow> (Inl e, w1)
        | Inr c \<Rightarrow>
            if \<not> valid_send d then (Inl (BadRequest ''Bad Request''), w1)
            else messages_send env k cfg t0 t ry
              \<lparr>si_conversationId = c, si_senderId = au_sub u, si_body = sd_body d,
               si_idempotencyKey = (case sd_idempotencyKey d of Some s \<Rightarrow> Some s | None \<Rightarrow> key)\<rparr>
              w1) = (Inr m, w')"
    using guard.guarded_success [of pg_uuid t0 "(Some u, Some raw, None, None)", simplified,
        OF post [unfolded messages_post_def]] by auto
  from send obtain c where c: "uuid_pipe raw = Inr c" and ok: "messages_send env k cfg t0 t ry
      \<lparr>si_conversationId = c, si_senderId = au_sub u, si_body = sd_body d,
       si_idempotencyKey = (case sd_idempotencyKey d of Some s \<Rightarrow> Some s | None \<Rightarrow> key)\<rparr> w1 = (Inr m, w')"
    by (cases "uuid_pipe raw") (auto split: if_splits)
  note author = messages_send_author [OF ok]
  have "w_convs w1 = w_convs w" using frame by (auto simp: access_frame_def)
  moreover obtain c' where "pg_uuid raw = Some c'" "may_access (au_sub u) (au_role u) c' w"
    using may by (auto simp: guard_may_def guard_target_def Let_def split: option.splits if_splits)
  ultimately show ?thesis
    using tok c author by (auto simp: sendable_def)
qed

text \<open>An instance: Alice posts with her token in the cookie.\<close>

definition alice_request :: http_request where
  "alice_request = \<lparr>rq_method = ''POST'', rq_url = ''/api/v1/conversations/x/messages'',
     rq_cookies = [(''access_token'', Js_text ''t'')], rq_authorization = None, rq_requestId = None,
     rq_ip = ''::1'', rq_userAgent = None\<rparr>"

definition alice_post :: "msg_row reply \<times> world" where
  "alice_post = http_run (\<lambda>_. Some user_alice) (\<lambda>_. None) alice_request
     (\<lambda>u. messages_post toy_env (Local_kms toy_kms) Some default_config 10 20 sample_entropy u c_one
        \<lparr>sd_body = ''Bonjour'', sd_idempotencyKey = None\<rparr> None) sample_world"

theorem posted_as_token_subject_witness:
  "\<exists>m w'. alice_post = (Answer m, w') \<and> ms_senderId m = u_alice"
proof -
  have "case fst alice_post of Answer m \<Rightarrow> True | Failure st b \<Rightarrow> False" by code_simp
  then obtain m where "fst alice_post = Answer m" by (auto split: reply.splits)
  then have a: "alice_post = (Answer m, snd alice_post)" by (metis prod.collapse)
  from posted_as_token_subject [OF a [unfolded alice_post_def]] a show ?thesis
    by (auto simp: user_alice_def)
qed

end
