(* ===== verification/Routes.thy ===== *)
theory Routes
  imports Requests
begin

text \<open>
  The routes of the HTTP server as the decorators of the controllers declare them
  (backend/src/modules/*/*.controller.ts), and the guards that a request passes before the handler
  of its route: those of the class first, then those of the method. The path is given by its
  decoded segments after the prefix of the API; a literal segment is compared without case, as
  Express does by default.
\<close>

section \<open>Routes\<close>

datatype guard_class = Jwt_guard | Access_guard | Role_guard

datatype segment = Lit string | Param string

record route =
  ro_method :: string
  ro_path :: "segment list"
  ro_handler :: string
  ro_guards :: "guard_class list"
  ro_roles :: "user_role list option"
  ro_throttle :: "(nat \<times> nat) option"
  ro_status :: nat

definition get_route :: "segment list \<Rightarrow> string \<Rightarrow> route" where
  "get_route p h = \<lparr>ro_method = ''GET'', ro_path = p, ro_handler = h, ro_guards = [], ro_roles = None,
     ro_throttle = None, ro_status = 200\<rparr>"

definition post_route :: "segment list \<Rightarrow> string \<Rightarrow> route" where
  "post_route p h = (get_route p h)\<lparr>ro_method := ''POST'', ro_status := 201\<rparr>"

definition delete_route :: "segment list \<Rightarrow> string \<Rightarrow> route" where
  "delete_route p h = (get_route p h)\<lparr>ro_method := ''DELETE''\<rparr>"

definition use_guards :: "guard_class list \<Rightarrow> route \<Rightarrow> route" where
  "use_guards gs r = r\<lparr>ro_guards := ro_guards r @ gs\<rparr>"

definition with_roles :: "user_role list \<Rightarrow> route \<Rightarrow> route" where
  "with_roles rs r = r\<lparr>ro_roles := Some rs\<rparr>"

definition throttled :: "nat \<Rightarrow> nat \<Rightarrow> route \<Rightarrow> route" where
  "throttled ttl n r = r\<lparr>ro_throttle := Some (ttl, n)\<rparr>"

definition http_code :: "nat \<Rightarrow> route \<Rightarrow> route" where
  "http_code n r = r\<lparr>ro_status := n\<rparr>"

text \<open>\<open>@Controller(prefix)\<close> with the guards of the class.\<close>

definition controller :: "string \<Rightarrow> segment list \<Rightarrow> guard_class list \<Rightarrow> route list \<Rightarrow> route list" where
  "controller name prefix gs rs =
     map (\<lambda>r. r\<lparr>ro_path := prefix @ ro_path r, ro_handler := name @ ''.'' @ ro_handler r,
                ro_guards := gs @ ro_guards r\<rparr>) rs"

definition auth_routes :: "route list" where
  "auth_routes = controller ''AuthController'' [Lit ''auth''] []
     [throttled 60000 5 (post_route [Lit ''register''] ''register''),
      http_code 200 (throttled 60000 10 (post_route [Lit ''login''] ''login'')),
      http_code 200 (throttled 60000 60 (post_route [Lit ''refresh''] ''refresh'')),
      http_code 204 (use_guards [Jwt_guard] (post_route [Lit ''logout''] ''logout''))]"

definition orders_routes :: "route list" where
  "orders_routes = controller ''OrdersController'' [Lit ''orders''] [Jwt_guard, Role_guard]
     [with_roles [Admin] (post_route [] ''upsert'')]"

definition conversations_routes :: "route list" where
  "conversations_routes = controller ''ConversationsController'' [Lit ''conversations''] [Jwt_guard]
     [get_route [] ''list'',
      post_route [Lit ''by-order'', Param ''orderId''] ''openByOrder'',
      use_guards [Access_guard] (get_route [Param ''conversationId''] ''getOne'')]"

definition messages_routes :: "route list" where
  "messages_routes = controller ''MessagesController'' [Lit ''conversations'', Param ''conversationId'', Lit ''messages'']
     [Jwt_guard, Access_guard]
     [throttled 60000 30 (post_route [] ''send''),
      get_route [] ''list'',
      http_code 204 (post_route [Lit ''read''] ''markRead''),
      http_code 204 (delete_route [Param ''messageId''] ''remove'')]"

definition attachments_routes :: "route list" where
  "attachments_routes = controller ''AttachmentsController'' [Lit ''attachments''] [Jwt_guard]
     [post_route [Lit ''presign''] ''presign'',
      post_route [Param ''id'', Lit ''finalize''] ''finalize'',
      get_route [Param ''id'', Lit ''download-url''] ''download'']"

definition moderation_routes :: "route list" where
  "moderation_routes = controller ''ModerationController'' [] [Jwt_guard]
     [post_route [Lit ''messages'', Param ''messageId'', Lit ''report''] ''report'',
      with_roles [Support, Admin] (use_guards [Role_guard] (get_route [Lit ''admin'', Lit ''reports''] ''list'')),
      with_roles [Support, Admin] (use_guards [Role_guard]
        (post_route [Lit ''admin'', Lit ''reports'', Param ''reportId'', Lit ''resolve''] ''resolve''))]"

definition search_routes :: "route list" where
  "search_routes = controller ''SearchController'' [] [Jwt_guard]
     [use_guards [Access_guard]
        (post_route [Lit ''conversations'', Param ''conversationId'', Lit ''search'', Lit ''enable''] ''enable''),
      use_guards [Access_guard]
        (delete_route [Lit ''conversations'', Param ''conversationId'', Lit ''search''] ''disable''),
      throttled 60000 30 (get_route [Lit ''search''] ''query'')]"

definition key_packages_routes :: "route list" where
  "key_packages_routes = controller ''KeyPackagesController'' [Lit ''e2ee'', Lit ''key-packages''] [Jwt_guard]
     [throttled 60000 10 (post_route [] ''publish''),
      get_route [Lit ''count''] ''count'',
      post_route [Lit ''claim'', Param ''targetUserId''] ''claim'']"

definition mls_groups_routes :: "route list" where
  "mls_groups_routes = controller ''MlsGroupsController'' [Lit ''conversations'', Param ''conversationId'', Lit ''e2ee'']
     [Jwt_guard, Access_guard]
     [post_route [Lit ''enable''] ''enable'']"

definition mls_messages_routes :: "route list" where
  "mls_messages_routes =
     controller ''MlsMessagesController'' [Lit ''conversations'', Param ''conversationId'', Lit ''e2ee'', Lit ''messages'']
     [Jwt_guard, Access_guard]
     [post_route [] ''send'',
      get_route [] ''list'']"

definition privacy_routes :: "route list" where
  "privacy_routes = controller ''PrivacyController'' [] [Jwt_guard]
     [throttled 60000 2 (get_route [Lit ''me'', Lit ''data'', Lit ''export''] ''exportMine''),
      throttled 60000 1 (http_code 204 (delete_route [Lit ''me'', Lit ''data''] ''deleteMine'')),
      http_code 204 (with_roles [Admin] (use_guards [Role_guard]
        (delete_route [Lit ''admin'', Lit ''users'', Param ''userId'', Lit ''data''] ''deleteByAdmin'')))]"

definition health_routes :: "route list" where
  "health_routes = controller ''HealthController'' [Lit ''health''] [] [get_route [] ''check'']"

definition app_routes :: "route list" where
  "app_routes = auth_routes @ orders_routes @ conversations_routes @ messages_routes @ attachments_routes
     @ moderation_routes @ search_routes @ key_packages_routes @ mls_groups_routes @ mls_messages_routes
     @ privacy_routes @ health_routes"

section \<open>Matching and guarding\<close>

text \<open>The parameters of a path that matches.\<close>

fun match_path :: "segment list \<Rightarrow> string list \<Rightarrow> (string \<times> string) list option" where
  "match_path [] [] = Some []"
| "match_path (Lit a # ps) (s # ss) = (if to_lower s = to_lower a then match_path ps ss else None)"
| "match_path (Param n # ps) (s # ss) = (if s = [] then None else map_option (Cons (n, s)) (match_path ps ss))"
| "match_path _ _ = None"

text \<open>The guards of a route, one after another; the first refusal ends the request.\<close>

fun run_guards ::
  "(string \<Rightarrow> auth_user option) \<Rightarrow> (string \<Rightarrow> string option) \<Rightarrow> (string \<Rightarrow> uuid option) \<Rightarrow> int \<Rightarrow> http_request \<Rightarrow>
   (string \<times> string) list \<Rightarrow> string option \<Rightarrow> user_role list option \<Rightarrow> guard_class list \<Rightarrow> auth_user option \<Rightarrow>
   world \<Rightarrow> (world, auth_user option) res" where
  "run_guards check_jwt bearer pg_uuid t rq ps body roles [] user w = (Inr user, w)"
| "run_guards check_jwt bearer pg_uuid t rq ps body roles (Jwt_guard # gs) user w =
     (case jwt_auth_guard check_jwt bearer rq of
        None \<Rightarrow> (Inl (Unauthorized ''Unauthorized''), w)
      | Some u \<Rightarrow> run_guards check_jwt bearer pg_uuid t rq ps body roles gs (Some u) w)"
| "run_guards check_jwt bearer pg_uuid t rq ps body roles (Access_guard # gs) user w =
     (case conversation_access_guard pg_uuid t user (map_of ps ''conversationId'') (map_of ps ''id'') body w of
        (Inl e, w1) \<Rightarrow> (Inl e, w1)
      | (Inr _, w1) \<Rightarrow> run_guards check_jwt bearer pg_uuid t rq ps body roles gs user w1)"
| "run_guards check_jwt bearer pg_uuid t rq ps body roles (Role_guard # gs) user w =
     (case roles_guard roles user of
        Inl e \<Rightarrow> (Inl e, w)
      | Inr _ \<Rightarrow> run_guards check_jwt bearer pg_uuid t rq ps body roles gs user w)"

definition public_handlers :: "string list" where
  "public_handlers = [''AuthController.register'', ''AuthController.login'', ''AuthController.refresh'', ''HealthController.check'']"

definition conversation_param :: "route \<Rightarrow> bool" where
  "conversation_param r = (Param ''conversationId'' \<in> set (ro_path r))"

definition admin_route :: "route \<Rightarrow> bool" where
  "admin_route r = (hd (ro_path r) = Lit ''admin'')"

text \<open>The four shapes of a route.\<close>

definition public_shape :: "route \<Rightarrow> bool" where
  "public_shape r = (ro_guards r = [] \<and> ro_handler r \<in> set public_handlers)"

definition user_shape :: "route \<Rightarrow> bool" where
  "user_shape r = (ro_guards r = [Jwt_guard] \<and> \<not> conversation_param r \<and> \<not> admin_route r)"

definition conversation_shape :: "route \<Rightarrow> bool" where
  "conversation_shape r = (ro_guards r =
     [Jwt_guard, Access_guard] \<and> conversation_param r \<and> \<not> admin_route r)"

definition staff_shape :: "route \<Rightarrow> bool" where
  "staff_shape r = (ro_guards r = [Jwt_guard, Role_guard] \<and> \<not> conversation_param r
     \<and> (ro_roles r = Some [Admin] \<or> ro_roles r = Some [Support, Admin]))"

lemmas route_defs = app_routes_def auth_routes_def orders_routes_def conversations_routes_def
  messages_routes_def attachments_routes_def moderation_routes_def search_routes_def
  key_packages_routes_def mls_groups_routes_def mls_messages_routes_def privacy_routes_def
  health_routes_def controller_def get_route_def post_route_def delete_route_def use_guards_def
  with_roles_def throttled_def http_code_def

lemmas shape_defs = public_shape_def user_shape_def conversation_shape_def staff_shape_def
  public_handlers_def conversation_param_def admin_route_def

lemma route_shapes:
  "list_all (\<lambda>r. public_shape r \<or> user_shape r \<or> conversation_shape r \<or> staff_shape r) app_routes"
  by (simp add: route_defs shape_defs)

definition literals :: "string list" where
  "literals =
     [''admin'', ''attachments'', ''auth'', ''by-order'', ''claim'', ''conversations'', ''count'',
      ''data'', ''download-url'', ''e2ee'', ''enable'', ''export'', ''finalize'', ''health'',
      ''key-packages'', ''login'', ''logout'', ''me'', ''messages'', ''orders'', ''presign'', ''read'',
      ''refresh'', ''register'', ''report'', ''reports'', ''resolve'', ''search'', ''users'']"

definition literal :: "segment \<Rightarrow> bool" where
  "literal x = (case x of Lit a \<Rightarrow> a \<in> set literals | Param n \<Rightarrow> True)"

lemma literal_simps [simp]: "literal (Lit a) \<longleftrightarrow> a \<in> set literals" "literal (Param n)"
  by (simp_all add: literal_def)

lemma route_literals:
  "list_all (\<lambda>r. list_all literal (ro_path r) \<and> ro_path r \<noteq> [] \<and> literal (hd (ro_path r))
     \<and> (\<exists>a. hd (ro_path r) = Lit a)) app_routes"
  by (simp add: route_defs literals_def)

lemma lower_literals: "a \<in> set literals \<Longrightarrow> to_lower a = a"
  by (auto simp: literals_def to_lower_def lower_char_def is_upper_def code_def Let_def)

lemma match_path_param:
  "match_path ps path = Some vs \<Longrightarrow> map_of vs n = Some v \<Longrightarrow> Param n \<in> set ps"
  by (induction ps path arbitrary: vs rule: match_path.induct) (auto split: if_splits)

lemma admin_head:
  assumes "r \<in> set app_routes" "match_path (ro_path r) path = Some vs" "to_lower (hd path) = ''admin''"
  shows "admin_route r"
proof -
  from assms(1) route_literals have "ro_path r \<noteq> []" "literal (hd (ro_path r))" "\<exists>a. hd (ro_path r) = Lit a"
    by (simp_all add: list_all_iff)
  then obtain a ps where a: "ro_path r = Lit a # ps" "to_lower a = a"
    by (cases "ro_path r") (auto simp: lower_literals)
  with assms(2,3) show ?thesis by (cases path) (auto simp: admin_route_def split: if_splits)
qed

lemma access_guard_passed:
  assumes "conversation_access_guard pg_uuid t user a b c w = (Inr g, w')"
  shows "guard_may pg_uuid user a b c w"
  using guard.guarded_success [of pg_uuid t "(user, a, b, c)" "\<lambda>g s. (Inr g, s)" w g w'] assms
  by (simp add: guarded_def)

text \<open>
  C13: Every handler is reached only by those it is meant for. When the guards of the route that
  matches a request let it pass, either the handler is one of the four public ones
  (registration, login, refresh, health), or the request bears a verified token, and then: if
  the path names a conversation, the user of the token may access it, and if the path is one
  of the administration, he is of the staff. So no route with \<open>:conversationId\<close> lacks its
  guard, as the guard's comment demands.
\<close>
theorem routes_guarded:
  assumes "r \<in> set app_routes" "match_path (ro_path r) path = Some ps"
    and "run_guards check_jwt bearer pg_uuid t rq ps body (ro_roles r) (ro_guards r) None w = (Inr user, w')"
  shows "ro_handler r \<in> set public_handlers
    \<or> (\<exists>u. jwt_auth_guard check_jwt bearer rq = Some u \<and> user = Some u
         \<and> (\<forall>c. map_of ps ''conversationId'' = Some c \<longrightarrow>
              (\<exists>i. pg_uuid c = Some i \<and> may_access (au_sub u) (au_role u) i w))
         \<and> (to_lower (hd path) = ''admin'' \<longrightarrow> is_staff (au_role u)))"
proof -
  have param: "conversation_param r" if "map_of ps ''conversationId'' = Some c" for c
    using match_path_param [OF assms(2) that] by (simp add: conversation_param_def)
  note admin = admin_head [OF assms(1,2)]
  from assms(1) route_shapes consider "public_shape r" | "user_shape r" | "conversation_shape r" | "staff_shape r"
    by (auto simp: list_all_iff)
  then show ?thesis
  proof cases
    case 1
    then show ?thesis by (simp add: public_shape_def)
  next
    case 2
    then obtain u where "jwt_auth_guard check_jwt bearer rq = Some u" "user = Some u"
      using assms(3) by (cases "jwt_auth_guard check_jwt bearer rq") (auto simp: user_shape_def)
    with 2 param admin show ?thesis by (auto simp: user_shape_def)
  next
    case 3
    from 3 assms(3) obtain u g w1 where u: "jwt_auth_guard check_jwt bearer rq = Some u" "user = Some u"
        "conversation_access_guard pg_uuid t (Some u) (map_of ps ''conversationId'') (map_of ps ''id'') body w = (Inr g, w1)"
      by (cases "jwt_auth_guard check_jwt bearer rq")
        (auto simp: conversation_shape_def split: prod.splits sum.splits)
    from access_guard_passed [OF u(3)] have
      "map_of ps ''conversationId'' = Some c \<Longrightarrow> \<exists>i. pg_uuid c = Some i \<and> may_access (au_sub u) (au_role u) i w" for c
      by (auto simp: guard_may_def guard_target_def coalesce_def split: if_splits option.splits)
    with u 3 admin show ?thesis by (auto simp: conversation_shape_def)
  next
    case 4
    then obtain u where u: "jwt_auth_guard check_jwt bearer rq = Some u" "user = Some u" "is_staff (au_role u)"
      using assms(3) by (cases "jwt_auth_guard check_jwt bearer rq")
        (auto simp: staff_shape_def roles_guard_def is_staff_def split: if_splits)
    with 4 param show ?thesis by (auto simp: staff_shape_def)
  qed
qed

definition alice_get :: http_request where
  "alice_get = anonymous_request\<lparr>rq_authorization := Some ''jwt''\<rparr>"

definition get_one_route :: route where
  "get_one_route = hd (drop 2 conversations_routes)"

theorem routes_guarded_witness:
  "\<exists>w'. run_guards (\<lambda>s. Some user_alice) Some Some 10 alice_get [(''conversationId'', c_one)] None
      (ro_roles get_one_route) (ro_guards get_one_route) None sample_world = (Inr (Some user_alice), w')
    \<and> may_access u_alice Customer c_one sample_world"
proof -
  let ?run = "run_guards (\<lambda>s. Some user_alice) Some Some 10 alice_get [(''conversationId'', c_one)] None
      (ro_roles get_one_route) (ro_guards get_one_route) None sample_world"
  have one: "get_one_route \<in> set app_routes" "ro_handler get_one_route \<notin> set public_handlers"
    "ro_path get_one_route = [Lit ''conversations'', Param ''conversationId'']"
    by (simp_all add: get_one_route_def route_defs public_handlers_def)
  then have path: "match_path (ro_path get_one_route) [''conversations'', c_one] = Some [(''conversationId'', c_one)]"
    by (simp add: sample_ids)
  have "fst ?run = Inr (Some user_alice)" by code_simp
  then have run: "?run = (Inr (Some user_alice), snd ?run)" by (metis prod.collapse)
  from routes_guarded [OF one(1) path run] one(2) run show ?thesis by (auto simp: user_alice_def)
qed

section \<open>One route for a request\<close>

text \<open>Two patterns, with literals in lower case, that a common path may match.\<close>

fun overlap :: "segment list \<Rightarrow> segment list \<Rightarrow> bool" where
  "overlap [] [] = True"
| "overlap (Lit a # ps) (Lit b # qs) = (a = b \<and> overlap ps qs)"
| "overlap (_ # ps) (_ # qs) = overlap ps qs"
| "overlap _ _ = False"

definition overlaps :: "(string \<times> string \<times> segment list) list \<Rightarrow> (string \<times> string) list" where
  "overlaps rs =
     concat (map (\<lambda>(m, h, ps). map (\<lambda>(_, h', _). (h, h'))
       (filter (\<lambda>(m', h', qs). m = m' \<and> h \<noteq> h' \<and> overlap ps qs) rs)) rs)"

lemma match_path_Nil: "match_path ps [] = Some vs \<Longrightarrow> ps = []"
  by (cases ps rule: list.exhaust [case_product segment.exhaust]) (auto elim: match_path.elims)

lemma match_path_Cons:
  assumes "match_path ps (s # ss) = Some vs"
  obtains p ps' vs' where "ps = p # ps'" "match_path ps' ss = Some vs'" "\<forall>a. p = Lit a \<longrightarrow> to_lower s = to_lower a"
proof (cases ps)
  case (Cons p ps')
  then show thesis using assms that by (cases p) (auto split: if_splits)
qed (use assms in simp)

lemma match_overlap:
  "match_path ps path = Some vs \<Longrightarrow> match_path qs path = Some us \<Longrightarrow> list_all literal ps \<Longrightarrow>
   list_all literal qs \<Longrightarrow> overlap ps qs"
proof (induction path arbitrary: ps qs vs us)
  case Nil
  then show ?case using match_path_Nil [of ps vs] match_path_Nil [of qs us] by simp
next
  case (Cons s ss)
  from Cons.prems(1) obtain p ps' vs' where p: "ps = p # ps'" "match_path ps' ss = Some vs'"
    "\<forall>a. p = Lit a \<longrightarrow> to_lower s = to_lower a" by (rule match_path_Cons)
  from Cons.prems(2) obtain q qs' us' where q: "qs = q # qs'" "match_path qs' ss = Some us'"
    "\<forall>a. q = Lit a \<longrightarrow> to_lower s = to_lower a" by (rule match_path_Cons)
  have "overlap ps' qs'" using Cons.IH [OF p(2) q(2)] Cons.prems(3,4) p(1) q(1) by simp
  then show ?case using p(1,3) q(1,3) Cons.prems(3,4) by (cases p; cases q) (auto simp: lower_literals)
qed

lemma route_table:
  "map (\<lambda>r. (ro_method r, ro_handler r, ro_path r, ro_guards r)) app_routes =
    [(''POST'', ''AuthController.register'', [Lit ''auth'', Lit ''register''],
       []),
     (''POST'', ''AuthController.login'', [Lit ''auth'', Lit ''login''],
       []),
     (''POST'', ''AuthController.refresh'', [Lit ''auth'', Lit ''refresh''],
       []),
     (''POST'', ''AuthController.logout'', [Lit ''auth'', Lit ''logout''],
       [Jwt_guard]),
     (''POST'', ''OrdersController.upsert'', [Lit ''orders''],
       [Jwt_guard, Role_guard]),
     (''GET'', ''ConversationsController.list'', [Lit ''conversations''],
       [Jwt_guard]),
     (''POST'', ''ConversationsController.openByOrder'', [Lit ''conversations'', Lit ''by-order'', Param ''orderId''],
       [Jwt_guard]),
     (''GET'', ''ConversationsController.getOne'', [Lit ''conversations'', Param ''conversationId''],
       [Jwt_guard, Access_guard]),
     (''POST'', ''MessagesController.send'', [Lit ''conversations'', Param ''conversationId'', Lit ''messages''],
       [Jwt_guard, Access_guard]),
     (''GET'', ''MessagesController.list'', [Lit ''conversations'', Param ''conversationId'', Lit ''messages''],
       [Jwt_guard, Access_guard]),
     (''POST'', ''MessagesController.markRead'', [Lit ''conversations'', Param ''conversationId'', Lit ''messages'', Lit ''read''],
       [Jwt_guard, Access_guard]),
     (''DELETE'', ''MessagesController.remove'', [Lit ''conversations'', Param ''conversationId'', Lit ''messages'', Param ''messageId''],
       [Jwt_guard, Access_guard]),
     (''POST'', ''AttachmentsController.presign'', [Lit ''attachments'', Lit ''presign''],
       [Jwt_guard]),
     (''POST'', ''AttachmentsController.finalize'', [Lit ''attachments'', Param ''id'', Lit ''finalize''],
       [Jwt_guard]),
     (''GET'', ''AttachmentsController.download'', [Lit ''attachments'', Param ''id'', Lit ''download-url''],
       [Jwt_guard]),
     (''POST'', ''ModerationController.report'', [Lit ''messages'', Param ''messageId'', Lit ''report''],
       [Jwt_guard]),
     (''GET'', ''ModerationController.list'', [Lit ''admin'', Lit ''reports''],
       [Jwt_guard, Role_guard]),
     (''POST'', ''ModerationController.resolve'', [Lit ''admin'', Lit ''reports'', Param ''reportId'', Lit ''resolve''],
       [Jwt_guard, Role_guard]),
     (''POST'', ''SearchController.enable'', [Lit ''conversations'', Param ''conversationId'', Lit ''search'', Lit ''enable''],
       [Jwt_guard, Access_guard]),
     (''DELETE'', ''SearchController.disable'', [Lit ''conversations'', Param ''conversationId'', Lit ''search''],
       [Jwt_guard, Access_guard]),
     (''GET'', ''SearchController.query'', [Lit ''search''],
       [Jwt_guard]),
     (''POST'', ''KeyPackagesController.publish'', [Lit ''e2ee'', Lit ''key-packages''],
       [Jwt_guard]),
     (''GET'', ''KeyPackagesController.count'', [Lit ''e2ee'', Lit ''key-packages'', Lit ''count''],
       [Jwt_guard]),
     (''POST'', ''KeyPackagesController.claim'', [Lit ''e2ee'', Lit ''key-packages'', Lit ''claim'', Param ''targetUserId''],
       [Jwt_guard]),
     (''POST'', ''MlsGroupsController.enable'', [Lit ''conversations'', Param ''conversationId'', Lit ''e2ee'', Lit ''enable''],
       [Jwt_guard, Access_guard]),
     (''POST'', ''MlsMessagesController.send'', [Lit ''conversations'', Param ''conversationId'', Lit ''e2ee'', Lit ''messages''],
       [Jwt_guard, Access_guard]),
     (''GET'', ''MlsMessagesController.list'', [Lit ''conversations'', Param ''conversationId'', Lit ''e2ee'', Lit ''messages''],
       [Jwt_guard, Access_guard]),
     (''GET'', ''PrivacyController.exportMine'', [Lit ''me'', Lit ''data'', Lit ''export''],
       [Jwt_guard]),
     (''DELETE'', ''PrivacyController.deleteMine'', [Lit ''me'', Lit ''data''],
       [Jwt_guard]),
     (''DELETE'', ''PrivacyController.deleteByAdmin'', [Lit ''admin'', Lit ''users'', Param ''userId'', Lit ''data''],
       [Jwt_guard, Role_guard]),
     (''GET'', ''HealthController.check'', [Lit ''health''],
       [])]"
  by (simp add: route_defs)

lemma route_table_image:
  "map (\<lambda>r. f (ro_method r) (ro_handler r) (ro_path r) (ro_guards r)) app_routes
    = map (\<lambda>(m, h, p, g). f m h p g) (map (\<lambda>r. (ro_method r, ro_handler r, ro_path r, ro_guards r)) app_routes)"
  by (simp add: comp_def)

lemma overlapping_routes:
  "overlaps (map (\<lambda>r. (ro_method r, ro_handler r, ro_path r)) app_routes)
    = [(''ConversationsController.openByOrder'', ''MessagesController.send''),
       (''MessagesController.send'', ''ConversationsController.openByOrder'')]"
  unfolding route_table_image [of "\<lambda>m h p g. (m, h, p)"] route_table by code_simp

lemma handlers_distinct: "distinct (map ro_handler app_routes)"
  unfolding route_table_image [of "\<lambda>m h p g. h"] route_table by code_simp

lemma overlapsI:
  assumes "(m, h, ps) \<in> set rs" "(m, h', qs) \<in> set rs" "h \<noteq> h'" "overlap ps qs"
  shows "(h, h') \<in> set (overlaps rs)"
proof -
  have "(m, h', qs) \<in> set (filter (\<lambda>(m', k, qs). m = m' \<and> h \<noteq> k \<and> overlap ps qs) rs)"
    using assms by simp
  from imageI [OF this, of "\<lambda>(_, k, _). (h, k)"]
  have "(h, h') \<in> set (map (\<lambda>(_, k, _). (h, k)) (filter (\<lambda>(m', k, qs). m = m' \<and> h \<noteq> k \<and> overlap ps qs) rs))"
    by simp
  then show ?thesis unfolding overlaps_def set_concat set_map
    by (intro UN_I [OF imageI [OF assms(1)]]) simp
qed

text \<open>
  A request has one route. Two different routes never match the same method and path, but
  for one pair: the path conversations/by-order/messages is both the order \<open>messages\<close>
  of \<open>openByOrder\<close> and the conversation \<open>by-order\<close> of \<open>send\<close>; neither is a UUID.
\<close>
theorem one_route_per_request:
  assumes "r \<in> set app_routes" "q \<in> set app_routes" "ro_method r = ro_method q"
    and "match_path (ro_path r) path = Some ps" "match_path (ro_path q) path = Some qs"
  shows "r = q \<or> {ro_handler r, ro_handler q} = {''ConversationsController.openByOrder'', ''MessagesController.send''}"
proof (cases "ro_handler r = ro_handler q")
  case True
  then show ?thesis using handlers_distinct assms(1,2) by (metis distinct_map inj_onD)
next
  case False
  let ?table = "map (\<lambda>r. (ro_method r, ro_handler r, ro_path r)) app_routes"
  have table: "x \<in> set app_routes \<Longrightarrow> (ro_method x, ro_handler x, ro_path x) \<in> set ?table" for x
    unfolding set_map by (rule image_eqI [OF refl])
  have "overlap (ro_path r) (ro_path q)"
    using match_overlap [OF assms(4,5)] assms(1,2) route_literals by (simp add: list_all_iff)
  then have "(ro_handler r, ro_handler q) \<in> set (overlaps ?table)"
    using table [OF assms(1)] table [OF assms(2)] False unfolding assms(3) by (intro overlapsI)
  then show ?thesis unfolding overlapping_routes by auto
qed

definition by_order_route :: route where
  "by_order_route = hd (tl conversations_routes)"

definition send_route :: route where
  "send_route = hd messages_routes"

theorem one_route_per_request_witness:
  "match_path (ro_path by_order_route) [''conversations'', ''by-order'', ''messages''] \<noteq> None
   \<and> {ro_handler by_order_route, ro_handler send_route}
     = {''ConversationsController.openByOrder'', ''MessagesController.send''}"
proof -
  have routes: "by_order_route \<in> set app_routes" "send_route \<in> set app_routes" "ro_method by_order_route = ro_method send_route"
    "ro_path by_order_route = [Lit ''conversations'', Lit ''by-order'', Param ''orderId'']"
    "ro_path send_route = [Lit ''conversations'', Param ''conversationId'', Lit ''messages'']" "by_order_route \<noteq> send_route"
    by (simp_all add: by_order_route_def send_route_def route_defs)
  then have path:
    "match_path (ro_path by_order_route) [''conversations'', ''by-order'', ''messages''] = Some [(''orderId'', ''messages'')]"
    "match_path (ro_path send_route) [''conversations'', ''by-order'', ''messages''] = Some [(''conversationId'', ''by-order'')]"
    by simp_all
  from one_route_per_request [OF routes(1-3) path] routes(6) path show ?thesis by simp
qed

end
