(* ===== verification/Modules.thy ===== *)
theory Modules
  imports Routes
begin

text \<open>
  The modules of the NestJS application (backend/src/modules/*/*.module.ts, app.module.ts) and what
  the constructors of their classes ask for, as data, and the conditions under which the
  framework can assemble them: each class finds what it needs among the providers of its
  module, the exports of the modules it imports and the global ones; and the classes can be
  constructed one after another. A repository stands for the entity of \<open>TypeOrmModule.forFeature\<close>.
\<close>

record injection =
  ij_token :: string
  ij_optional :: bool

definition needs :: "string \<Rightarrow> injection" where
  "needs t = \<lparr>ij_token = t, ij_optional = False\<rparr>"

definition optional :: "string \<Rightarrow> injection" where
  "optional t = \<lparr>ij_token = t, ij_optional = True\<rparr>"

record nest_module =
  nm_name :: string
  nm_global :: bool
  nm_imports :: "string list"
  nm_repositories :: "string list"
  nm_providers :: "(string \<times> injection list) list"
  nm_controllers :: "(string \<times> injection list) list"
  nm_exports :: "string list"

section \<open>What the constructors ask for\<close>

definition attachments_service_deps :: "injection list" where
  "attachments_service_deps = [needs ''Repository<Attachment>'', needs ''S3Service'',
    needs ''ConversationsService'', needs ''ConfigService'']"

definition s3_service_deps :: "injection list" where
  "s3_service_deps = [needs ''ConfigService'']"

definition attachments_controller_deps :: "injection list" where
  "attachments_controller_deps = [needs ''AttachmentsService'']"

definition audit_service_deps :: "injection list" where
  "audit_service_deps = [needs ''Repository<AuditLog>'']"

definition auth_service_deps :: "injection list" where
  "auth_service_deps = [needs ''UsersService'', needs ''JwtService'', needs ''ConfigService'',
    needs ''RefreshTokensService'']"

definition jwt_strategy_deps :: "injection list" where
  "jwt_strategy_deps = [needs ''ConfigService'']"

definition refresh_tokens_service_deps :: "injection list" where
  "refresh_tokens_service_deps = [needs ''Repository<RefreshToken>'', needs ''ConfigService'',
    optional ''MetricsService'']"

definition auth_controller_deps :: "injection list" where
  "auth_controller_deps = [needs ''AuthService'', needs ''UsersService'', needs ''ConfigService'']"

definition conversations_service_deps :: "injection list" where
  "conversations_service_deps = [needs ''Repository<Conversation>'',
    needs ''Repository<ConversationParticipant>'', needs ''OrdersService'', needs ''AuditService'',
    needs ''DataSource'']"

definition conversation_access_guard_deps :: "injection list" where
  "conversation_access_guard_deps = [needs ''ConversationsService'']"

definition conversations_controller_deps :: "injection list" where
  "conversations_controller_deps = [needs ''ConversationsService'']"

definition envelope_crypto_service_deps :: "injection list" where
  "envelope_crypto_service_deps = [needs ''KMS_PROVIDER'']"

definition e2ee_service_deps :: "injection list" where
  "e2ee_service_deps = [needs ''Repository<MlsKeyPackage>'', needs ''Repository<MlsGroup>'',
    needs ''Repository<MlsMessage>'', needs ''Repository<Conversation>'', needs ''ConversationsService'',
    needs ''AuditService'', needs ''DataSource'']"

definition key_packages_controller_deps :: "injection list" where
  "key_packages_controller_deps = [needs ''E2eeService'']"

definition mls_groups_controller_deps :: "injection list" where
  "mls_groups_controller_deps = [needs ''E2eeService'']"

definition mls_messages_controller_deps :: "injection list" where
  "mls_messages_controller_deps = [needs ''E2eeService'']"

definition health_controller_deps :: "injection list" where
  "health_controller_deps = [needs ''DataSource'']"

definition messages_service_deps :: "injection list" where
  "messages_service_deps = [needs ''Repository<Message>'', needs ''Repository<MessageReceipt>'',
    needs ''Repository<OutboxEvent>'', needs ''DataSource'', needs ''ConversationsService'',
    needs ''RealtimeService'', needs ''AuditService'', needs ''ConfigService'',
    needs ''EnvelopeCryptoService'', needs ''ContentScannerService'', optional ''MetricsService'']"

definition messages_controller_deps :: "injection list" where
  "messages_controller_deps = [needs ''MessagesService'']"

definition moderation_service_deps :: "injection list" where
  "moderation_service_deps = [needs ''Repository<MessageReport>'', needs ''Repository<Message>'',
    needs ''AuditService'']"

definition moderation_controller_deps :: "injection list" where
  "moderation_controller_deps = [needs ''ModerationService'']"

definition nats_service_deps :: "injection list" where
  "nats_service_deps = [needs ''ConfigService'']"

definition notifications_service_deps :: "injection list" where
  "notifications_service_deps = [needs ''Repository<EmailNotification>'', needs ''Repository<User>'',
    needs ''Repository<Conversation>'', needs ''EmailService'', needs ''ConfigService'']"

definition email_service_deps :: "injection list" where
  "email_service_deps = [needs ''ConfigService'']"

definition metrics_service_deps :: "injection list" where
  "metrics_service_deps = [needs ''ConfigService'']"

definition orders_service_deps :: "injection list" where
  "orders_service_deps = [needs ''Repository<Order>'']"

definition orders_controller_deps :: "injection list" where
  "orders_controller_deps = [needs ''OrdersService'']"

definition outbox_worker_deps :: "injection list" where
  "outbox_worker_deps = [needs ''DataSource'', needs ''ConfigService'', needs ''NotificationsService'',
    needs ''PresenceService'', optional ''MetricsService'', optional ''NatsService'',
    optional ''SearchService'']"

definition presence_service_deps :: "injection list" where
  "presence_service_deps = [needs ''ConfigService'']"

definition privacy_service_deps :: "injection list" where
  "privacy_service_deps = [needs ''Repository<User>'', needs ''Repository<Conversation>'',
    needs ''Repository<ConversationParticipant>'', needs ''Repository<Message>'',
    needs ''Repository<Attachment>'', needs ''EnvelopeCryptoService'', needs ''AuditService'',
    needs ''RefreshTokensService'', needs ''DataSource'']"

definition privacy_controller_deps :: "injection list" where
  "privacy_controller_deps = [needs ''PrivacyService'']"

definition realtime_gateway_deps :: "injection list" where
  "realtime_gateway_deps = [needs ''AuthService'', needs ''ConversationsService'', needs ''PresenceService'',
    needs ''ConfigService'']"

definition realtime_service_deps :: "injection list" where
  "realtime_service_deps = [needs ''RealtimeGateway'', needs ''ConfigService'']"

definition open_search_service_deps :: "injection list" where
  "open_search_service_deps = [needs ''ConfigService'']"

definition search_service_deps :: "injection list" where
  "search_service_deps = [needs ''Repository<Conversation>'', needs ''Repository<Message>'',
    needs ''ConversationsService'', needs ''EnvelopeCryptoService'', needs ''OpenSearchService'',
    needs ''AuditService'']"

definition search_controller_deps :: "injection list" where
  "search_controller_deps = [needs ''SearchService'']"

definition users_service_deps :: "injection list" where
  "users_service_deps = [needs ''Repository<User>'']"

section \<open>The modules\<close>

definition attachments_module :: nest_module where
  "attachments_module =
    \<lparr>nm_name = ''AttachmentsModule'', nm_global = False, nm_imports = [''ConversationsModule'',
      ''AuditModule''],
     nm_repositories = [''Attachment''],
     nm_providers = [(''AttachmentsService'', attachments_service_deps), (''S3Service'', s3_service_deps)],
     nm_controllers = [(''AttachmentsController'', attachments_controller_deps)],
     nm_exports = [''AttachmentsService'']\<rparr>"

definition audit_module :: nest_module where
  "audit_module =
    \<lparr>nm_name = ''AuditModule'', nm_global = False, nm_imports = [],
     nm_repositories = [''AuditLog''],
     nm_providers = [(''AuditService'', audit_service_deps)],
     nm_controllers = [],
     nm_exports = [''AuditService'']\<rparr>"

definition auth_module :: nest_module where
  "auth_module =
    \<lparr>nm_name = ''AuthModule'', nm_global = False, nm_imports = [''UsersModule'', ''PassportModule'',
      ''JwtModule''],
     nm_repositories = [''RefreshToken''],
     nm_providers = [(''AuthService'', auth_service_deps), (''JwtStrategy'', jwt_strategy_deps),
       (''JwtAuthGuard'', []), (''RefreshTokensService'', refresh_tokens_service_deps)],
     nm_controllers = [(''AuthController'', auth_controller_deps)],
     nm_exports = [''AuthService'', ''JwtAuthGuard'', ''JwtModule'', ''RefreshTokensService'']\<rparr>"

definition conversations_module :: nest_module where
  "conversations_module =
    \<lparr>nm_name = ''ConversationsModule'', nm_global = False, nm_imports = [''OrdersModule'',
      ''AuditModule''],
     nm_repositories = [''Conversation'', ''ConversationParticipant''],
     nm_providers = [(''ConversationsService'', conversations_service_deps), (''ConversationAccessGuard'',
       conversation_access_guard_deps)],
     nm_controllers = [(''ConversationsController'', conversations_controller_deps)],
     nm_exports = [''ConversationsService'', ''ConversationAccessGuard'']\<rparr>"

definition crypto_module :: nest_module where
  "crypto_module =
    \<lparr>nm_name = ''CryptoModule'', nm_global = False, nm_imports = [''ConfigModule''],
     nm_repositories = [],
     nm_providers = [(''KMS_PROVIDER'', [needs ''ConfigService'']), (''EnvelopeCryptoService'',
       envelope_crypto_service_deps)],
     nm_controllers = [],
     nm_exports = [''EnvelopeCryptoService'']\<rparr>"

definition e2ee_module :: nest_module where
  "e2ee_module =
    \<lparr>nm_name = ''E2eeModule'', nm_global = False, nm_imports = [''ConversationsModule'',
      ''AuditModule'', ''AuthModule''],
     nm_repositories = [''MlsKeyPackage'', ''MlsGroup'', ''MlsMessage'', ''Conversation''],
     nm_providers = [(''E2eeService'', e2ee_service_deps)],
     nm_controllers = [(''KeyPackagesController'', key_packages_controller_deps), (''MlsGroupsController'',
       mls_groups_controller_deps), (''MlsMessagesController'', mls_messages_controller_deps)],
     nm_exports = [''E2eeService'']\<rparr>"

definition health_module :: nest_module where
  "health_module =
    \<lparr>nm_name = ''HealthModule'', nm_global = False, nm_imports = [],
     nm_repositories = [],
     nm_providers = [],
     nm_controllers = [(''HealthController'', health_controller_deps)],
     nm_exports = []\<rparr>"

definition messages_module :: nest_module where
  "messages_module =
    \<lparr>nm_name = ''MessagesModule'', nm_global = False, nm_imports = [''ConversationsModule'',
      ''RealtimeModule'', ''AuditModule'', ''CryptoModule'', ''ModerationModule''],
     nm_repositories = [''Message'', ''MessageReceipt'', ''OutboxEvent''],
     nm_providers = [(''MessagesService'', messages_service_deps)],
     nm_controllers = [(''MessagesController'', messages_controller_deps)],
     nm_exports = [''MessagesService'']\<rparr>"

definition moderation_module :: nest_module where
  "moderation_module =
    \<lparr>nm_name = ''ModerationModule'', nm_global = False, nm_imports = [''AuditModule''],
     nm_repositories = [''MessageReport'', ''Message''],
     nm_providers = [(''ModerationService'', moderation_service_deps), (''ContentScannerService'', [])],
     nm_controllers = [(''ModerationController'', moderation_controller_deps)],
     nm_exports = [''ContentScannerService'', ''ModerationService'']\<rparr>"

definition nats_module :: nest_module where
  "nats_module =
    \<lparr>nm_name = ''NatsModule'', nm_global = True, nm_imports = [''ConfigModule''],
     nm_repositories = [],
     nm_providers = [(''NatsService'', nats_service_deps)],
     nm_controllers = [],
     nm_exports = [''NatsService'']\<rparr>"

definition notifications_module :: nest_module where
  "notifications_module =
    \<lparr>nm_name = ''NotificationsModule'', nm_global = False, nm_imports = [''ConfigModule''],
     nm_repositories = [''EmailNotification'', ''User'', ''Conversation''],
     nm_providers = [(''NotificationsService'', notifications_service_deps), (''EmailService'',
       email_service_deps)],
     nm_controllers = [],
     nm_exports = [''NotificationsService'']\<rparr>"

definition observability_module :: nest_module where
  "observability_module =
    \<lparr>nm_name = ''ObservabilityModule'', nm_global = True, nm_imports = [''ConfigModule''],
     nm_repositories = [],
     nm_providers = [(''MetricsService'', metrics_service_deps), (''TracingService'', [])],
     nm_controllers = [],
     nm_exports = [''MetricsService'', ''TracingService'']\<rparr>"

definition orders_module :: nest_module where
  "orders_module =
    \<lparr>nm_name = ''OrdersModule'', nm_global = False, nm_imports = [],
     nm_repositories = [''Order''],
     nm_providers = [(''OrdersService'', orders_service_deps)],
     nm_controllers = [(''OrdersController'', orders_controller_deps)],
     nm_exports = [''OrdersService'']\<rparr>"

definition outbox_module :: nest_module where
  "outbox_module =
    \<lparr>nm_name = ''OutboxModule'', nm_global = False, nm_imports = [''ConfigModule'',
      ''NotificationsModule'', ''PresenceModule'', ''ObservabilityModule'', ''NatsModule'',
      ''SearchModule''],
     nm_repositories = [''OutboxEvent''],
     nm_providers = [(''OutboxWorker'', outbox_worker_deps)],
     nm_controllers = [],
     nm_exports = [''OutboxWorker'']\<rparr>"

definition presence_module :: nest_module where
  "presence_module =
    \<lparr>nm_name = ''PresenceModule'', nm_global = False, nm_imports = [''ConfigModule''],
     nm_repositories = [],
     nm_providers = [(''PresenceService'', presence_service_deps)],
     nm_controllers = [],
     nm_exports = [''PresenceService'']\<rparr>"

definition privacy_module :: nest_module where
  "privacy_module =
    \<lparr>nm_name = ''PrivacyModule'', nm_global = False, nm_imports = [''AuthModule'', ''AuditModule'',
      ''CryptoModule''],
     nm_repositories = [''User'', ''Conversation'', ''ConversationParticipant'', ''Message'', ''Attachment''],
     nm_providers = [(''PrivacyService'', privacy_service_deps)],
     nm_controllers = [(''PrivacyController'', privacy_controller_deps)],
     nm_exports = [''PrivacyService'']\<rparr>"

definition realtime_module :: nest_module where
  "realtime_module =
    \<lparr>nm_name = ''RealtimeModule'', nm_global = False, nm_imports = [''AuthModule'',
      ''ConversationsModule'', ''PresenceModule''],
     nm_repositories = [],
     nm_providers = [(''RealtimeGateway'', realtime_gateway_deps), (''RealtimeService'',
       realtime_service_deps)],
     nm_controllers = [],
     nm_exports = [''RealtimeService'']\<rparr>"

definition search_module :: nest_module where
  "search_module =
    \<lparr>nm_name = ''SearchModule'', nm_global = False, nm_imports = [''ConfigModule'',
      ''ConversationsModule'', ''CryptoModule'', ''AuditModule''],
     nm_repositories = [''Conversation'', ''Message''],
     nm_providers = [(''OpenSearchService'', open_search_service_deps), (''SearchService'',
       search_service_deps)],
     nm_controllers = [(''SearchController'', search_controller_deps)],
     nm_exports = [''SearchService'']\<rparr>"

definition users_module :: nest_module where
  "users_module =
    \<lparr>nm_name = ''UsersModule'', nm_global = False, nm_imports = [],
     nm_repositories = [''User''],
     nm_providers = [(''UsersService'', users_service_deps)],
     nm_controllers = [],
     nm_exports = [''UsersService'']\<rparr>"

text \<open>In the order of \<open>AppModule\<close>.\<close>

definition app_modules :: "nest_module list" where
  "app_modules =
    [observability_module, nats_module, auth_module, users_module, orders_module, conversations_module,
     messages_module, attachments_module, presence_module, realtime_module, crypto_module,
     moderation_module, notifications_module, search_module, e2ee_module, outbox_module,
     privacy_module, audit_module, health_module]"

text \<open>\<open>ThrottlerModule.forRoot\<close>: name, window in milliseconds, requests in a window.\<close>

definition app_throttlers :: "(string \<times> nat \<times> nat) list" where
  "app_throttlers = [(''short'', 1000, 5), (''medium'', 60000, 100)]"

text \<open>The classes of the data source's entities, in its order.\<close>

definition entity_classes :: "string list" where
  "entity_classes =
    [''User'', ''Order'', ''Conversation'', ''ConversationParticipant'', ''Message'', ''MessageReceipt'',
     ''Attachment'', ''OutboxEvent'', ''AuditLog'', ''MessageReport'', ''RefreshToken'', ''EmailNotification'',
     ''MlsKeyPackage'', ''MlsGroup'', ''MlsMessage'']"

section \<open>Assembling\<close>

text \<open>
  What the libraries export: \<open>ConfigModule\<close> and the \<open>DataSource\<close> of \<open>TypeOrmModule.forRoot\<close> are global
  (app.module.ts), \<open>Reflector\<close> comes with the framework.
\<close>

definition library_modules :: "(string \<times> string list) list" where
  "library_modules = [(''ConfigModule'', [''ConfigService'']), (''JwtModule'', [''JwtService'']), (''PassportModule'', [])]"

definition global_tokens :: "string list" where
  "global_tokens = [''ConfigService'', ''DataSource'', ''Reflector'']"

definition repository_token :: "string \<Rightarrow> string" where
  "repository_token c = ''Repository<'' @ c @ ''>''"

definition exported :: "nest_module \<Rightarrow> string list" where
  "exported m = concat (map (\<lambda>x. case map_of library_modules x of Some ts \<Rightarrow> ts | None \<Rightarrow> [x]) (nm_exports m))"

definition exports_of :: "nest_module list \<Rightarrow> string \<Rightarrow> string list" where
  "exports_of ms n = (case map_of library_modules n of Some ts \<Rightarrow> ts
     | None \<Rightarrow> (case find (\<lambda>m. nm_name m = n) ms of None \<Rightarrow> [] | Some m \<Rightarrow> exported m))"

definition visible :: "nest_module list \<Rightarrow> nest_module \<Rightarrow> string list" where
  "visible ms m =
     map fst (nm_providers m) @ map repository_token (nm_repositories m)
     @ concat (map (exports_of ms) (nm_imports m)) @ concat (map exported (filter nm_global ms)) @ global_tokens"

definition classes_of :: "nest_module \<Rightarrow> (string \<times> injection list) list" where
  "classes_of m = nm_providers m @ nm_controllers m"

definition unresolved :: "nest_module list \<Rightarrow> (string \<times> string \<times> string) list" where
  "unresolved ms =
     concat (map (\<lambda>m. let vs = visible ms m in
       concat (map (\<lambda>(c, ds). map (\<lambda>d. (nm_name m, c, ij_token d)) (filter (\<lambda>d. ij_token d \<notin> set vs) ds)) (classes_of m))) ms)"

definition unknown_imports :: "nest_module list \<Rightarrow> (string \<times> string) list" where
  "unknown_imports ms =
     concat (map (\<lambda>m. map (Pair (nm_name m)) (filter (\<lambda>n. map_of library_modules n = None
       \<and> n \<notin> set (map nm_name ms)) (nm_imports m))) ms)"

text \<open>Constructing the classes in a given order: each finds what it needs among those built before.\<close>

definition library_tokens :: "nest_module list \<Rightarrow> string list" where
  "library_tokens ms =
     global_tokens @ concat (map snd library_modules) @ map repository_token (concat (map nm_repositories ms))"

fun constructs :: "(string \<times> injection list) list \<Rightarrow> string list \<Rightarrow> string list \<Rightarrow> bool" where
  "constructs classes built [] = True"
| "constructs classes built (c # cs) =
     (case map_of classes c of
        None \<Rightarrow> False
      | Some ds \<Rightarrow> list_all (\<lambda>d. ij_token d \<in> set built) ds \<and> constructs classes (c # built) cs)"

definition construction_order :: "string list" where
  "construction_order =
    [''MetricsService'', ''TracingService'', ''NatsService'', ''JwtStrategy'', ''JwtAuthGuard'',
     ''UsersService'', ''OrdersService'', ''S3Service'', ''PresenceService'', ''KMS_PROVIDER'',
     ''ContentScannerService'', ''EmailService'', ''OpenSearchService'', ''AuditService'',
     ''HealthController'', ''RefreshTokensService'', ''OrdersController'', ''ConversationsService'',
     ''EnvelopeCryptoService'', ''ModerationService'', ''NotificationsService'', ''AuthService'',
     ''ConversationAccessGuard'', ''ConversationsController'', ''AttachmentsService'',
     ''ModerationController'', ''SearchService'', ''E2eeService'', ''PrivacyService'',
     ''AuthController'', ''AttachmentsController'', ''RealtimeGateway'', ''SearchController'',
     ''KeyPackagesController'', ''MlsGroupsController'', ''MlsMessagesController'', ''OutboxWorker'',
     ''PrivacyController'', ''RealtimeService'', ''MessagesService'', ''MessagesController'']"

definition all_classes :: "nest_module list \<Rightarrow> (string \<times> injection list) list" where
  "all_classes ms = concat (map classes_of ms)"

text \<open>The guards of a controller are built in its module: what they need must be visible there.\<close>

definition controller_of :: "string \<Rightarrow> string" where
  "controller_of handler = takeWhile (\<lambda>c. c \<noteq> CHR ''.'') handler"

definition guard_deps :: "guard_class \<Rightarrow> injection list" where
  "guard_deps g = (case g of Jwt_guard \<Rightarrow> [] | Access_guard \<Rightarrow> conversation_access_guard_deps
     | Role_guard \<Rightarrow> [needs ''Reflector''])"

definition guards_built :: "nest_module list \<Rightarrow> string \<Rightarrow> guard_class list \<Rightarrow> bool" where
  "guards_built ms handler gs =
     (case find (\<lambda>m. controller_of handler \<in> set (map fst (nm_controllers m))) ms of
        None \<Rightarrow> False
      | Some m \<Rightarrow> list_all (\<lambda>d. ij_token d \<in> set (visible ms m)) (concat (map guard_deps gs)))"

section \<open>The application\<close>

lemma all_resolved: "unresolved app_modules = []"
  by code_simp

lemma imports_known: "unknown_imports app_modules = []"
  by code_simp

lemma constructed_in_order: "constructs (all_classes app_modules) (library_tokens app_modules) construction_order"
  by code_simp

lemma all_in_order: "set (map fst (all_classes app_modules)) = set construction_order"
  by code_simp

lemma provided_once: "distinct (map fst (all_classes app_modules))"
  by code_simp

lemma repositories_registered:
  "list_all (\<lambda>m. list_all (\<lambda>c. c \<in> set entity_classes) (nm_repositories m)) app_modules"
  by code_simp

lemma routes_guards_built: "list_all (\<lambda>r. guards_built app_modules (ro_handler r) (ro_guards r)) app_routes"
proof -
  have "list_all id (map (\<lambda>r. guards_built app_modules (ro_handler r) (ro_guards r)) app_routes)"
    unfolding route_table_image [of "\<lambda>m h p g. guards_built app_modules h g"] route_table by code_simp
  then show ?thesis by (simp add: list.pred_map)
qed

text \<open>
  The application can be assembled. Every module that is imported exists, every class is
  provided by exactly one module, whatever a constructor asks for, optional or not, is visible in
  its module (provided there, exported by an imported module, or global), every repository
  belongs to an entity of the data source, and there is an order in which all classes can be
  constructed, each after what it needs: no circular dependency; and every route belongs to a
  controller of one of the modules, which sees what its guards need. In particular the optional
  metrics, broker and index are always there, as the model of the services takes them.
\<close>
theorem application_assembles:
  "unknown_imports app_modules = [] \<and> unresolved app_modules = []
   \<and> distinct (map fst (all_classes app_modules))
   \<and> list_all (\<lambda>m. list_all (\<lambda>c. c \<in> set entity_classes) (nm_repositories m)) app_modules
   \<and> (\<exists>order. set order = set (map fst (all_classes app_modules))
        \<and> constructs (all_classes app_modules) (library_tokens app_modules) order)
   \<and> list_all (\<lambda>r. guards_built app_modules (ro_handler r) (ro_guards r)) app_routes"
  using imports_known all_resolved provided_once repositories_registered routes_guards_built
    constructed_in_order all_in_order by metis

end
