(* ===== verification/Startup.thy ===== *)
theory Startup
  imports Api
begin

text \<open>
  Starting the server: the validation of the environment (backend/src/config/env.validation.ts),
  the options that the services read from it, the key provider chosen by crypto.module.ts, and
  the \<open>onModuleInit\<close> of \<open>NatsService\<close> and \<open>OpenSearchService\<close> and the bootstrap of \<open>MetricsService\<close>.

  Joi is third-party: \<open>joi\<close> holds its verdict on the text of a variable. A number is an
  integer. The variables the schema does not name are passed through. The services' options
  are the record \<open>config\<close>; \<open>cfg_flag\<close>, \<open>cfg_num\<close> and \<open>cfg_text\<close> are \<open>cfg.get(key, fallback)\<close>.
\<close>

section \<open>The schema of the environment\<close>

datatype env_value = V_text string | V_num int | V_bool bool

datatype env_kind =
    K_text
  | K_textOrEmpty
  | K_min nat
  | K_uri
  | K_email
  | K_number
  | K_boolean
  | K_oneOf "string list"

datatype env_presence = Required | Optional | Default env_value

record joi =
  jo_text :: "env_kind \<Rightarrow> string \<Rightarrow> bool"
  jo_number :: "string \<Rightarrow> int option"
  jo_boolean :: "string \<Rightarrow> bool option"

definition joi_check :: "joi \<Rightarrow> env_kind \<Rightarrow> string \<Rightarrow> env_value option" where
  "joi_check joi kind s =
     (case kind of
        K_number \<Rightarrow> map_option V_num (jo_number joi s)
      | K_boolean \<Rightarrow> map_option V_bool (jo_boolean joi s)
      | _ \<Rightarrow> if jo_text joi kind s then Some (V_text s) else None)"

definition env_schema :: "(string \<times> env_kind \<times> env_presence) list" where
  "env_schema =
    [(''NODE_ENV'', K_oneOf [''development'', ''staging'', ''production'', ''test''],
       Default (V_text ''development'')),
     (''PORT'', K_number, Default (V_num 3000)),
     (''API_PREFIX'', K_text, Default (V_text ''api/v1'')),
     (''ALLOWED_ORIGINS'', K_text, Required),
     (''APP_URL'', K_uri, Default (V_text ''http://localhost:8080'')),
     (''DB_HOST'', K_text, Required),
     (''DB_PORT'', K_number, Default (V_num 5432)),
     (''DB_USERNAME'', K_text, Required),
     (''DB_PASSWORD'', K_text, Required),
     (''DB_NAME'', K_text, Required),
     (''DB_SSL'', K_boolean, Default (V_bool False)),
     (''DB_POOL_MAX'', K_number, Default (V_num 10)),
     (''REDIS_HOST'', K_text, Required),
     (''REDIS_PORT'', K_number, Default (V_num 6379)),
     (''REDIS_PASSWORD'', K_textOrEmpty, Optional),
     (''REDIS_TLS'', K_boolean, Default (V_bool False)),
     (''JWT_SECRET'', K_min 32, Required),
     (''JWT_ACCESS_TTL'', K_number, Default (V_num 900)),
     (''JWT_REFRESH_TTL'', K_number, Default (V_num 2592000)),
     (''S3_ENDPOINT'', K_uri, Required),
     (''S3_REGION'', K_text, Default (V_text ''us-east-1'')),
     (''S3_BUCKET'', K_text, Required),
     (''S3_ACCESS_KEY'', K_text, Optional),
     (''S3_SECRET_KEY'', K_text, Optional),
     (''S3_FORCE_PATH_STYLE'', K_boolean, Default (V_bool True)),
     (''S3_USE_IAM_ROLE'', K_boolean, Default (V_bool False)),
     (''MAX_MESSAGE_LENGTH'', K_number, Default (V_num 4000)),
     (''MAX_ATTACHMENT_MB'', K_number, Default (V_num 10)),
     (''MAX_ATTACHMENTS_PER_MESSAGE'', K_number, Default (V_num 5)),
     (''RATE_LIMIT_MESSAGES_PER_MINUTE'', K_number, Default (V_num 30)),
     (''RATE_LIMIT_WS_EVENTS_PER_MINUTE'', K_number, Default (V_num 120)),
     (''CLAMAV_ENABLED'', K_boolean, Default (V_bool False)),
     (''CLAMAV_HOST'', K_text, Optional),
     (''CLAMAV_PORT'', K_number, Optional),
     (''ENCRYPT_MESSAGE_BODY'', K_boolean, Default (V_bool True)),
     (''KMS_DRIVER'', K_oneOf [''local'', ''aws''], Default (V_text ''local'')),
     (''KMS_LOCAL_KEYS'', K_text, Optional),
     (''KMS_LOCAL_ACTIVE'', K_text, Optional),
     (''AWS_KMS_KEY_ARN'', K_text, Optional),
     (''OUTBOX_WORKER_ENABLED'', K_boolean, Default (V_bool True)),
     (''EMAIL_DRIVER'', K_oneOf [''log'', ''smtp''], Default (V_text ''log'')),
     (''EMAIL_FROM'', K_email, Default (V_text ''noreply@example.com'')),
     (''EMAIL_THROTTLE_MINUTES'', K_number, Default (V_num 10)),
     (''METRICS_ENABLED'', K_boolean, Default (V_bool False)),
     (''METRICS_NAMESPACE'', K_text, Default (V_text ''Messaging'')),
     (''AWS_REGION'', K_text, Default (V_text ''eu-west-3'')),
     (''TRACING_ENABLED'', K_boolean, Default (V_bool False)),
     (''OTEL_EXPORTER_OTLP_ENDPOINT'', K_uri, Default (V_text ''http://localhost:4318/v1/traces'')),
     (''OTEL_SERVICE_NAME'', K_text, Default (V_text ''messaging-api'')),
     (''LOG_LEVEL'', K_oneOf [''trace'', ''debug'', ''info'', ''warn'', ''error'', ''fatal''],
       Default (V_text ''info'')),
     (''APP_VERSION'', K_text, Default (V_text ''0.5.0'')),
     (''NATS_ENABLED'', K_boolean, Default (V_bool False)),
     (''NATS_URL'', K_text, Default (V_text ''nats://localhost:4222'')),
     (''NATS_TOKEN'', K_textOrEmpty, Optional),
     (''NATS_USER'', K_textOrEmpty, Optional),
     (''NATS_PASSWORD'', K_textOrEmpty, Optional),
     (''NATS_TLS'', K_boolean, Default (V_bool False)),
     (''NATS_STREAM'', K_text, Default (V_text ''MESSAGING_EVENTS'')),
     (''NATS_REPLICAS'', K_number, Default (V_num 1)),
     (''WS_GATEWAY_DEDICATED'', K_boolean, Default (V_bool False)),
     (''SEARCH_ENABLED'', K_boolean, Default (V_bool False)),
     (''OPENSEARCH_ENDPOINT'', K_uri, Optional),
     (''OPENSEARCH_INDEX'', K_text, Default (V_text ''messaging_messages'')),
     (''OPENSEARCH_USERNAME'', K_text, Default (V_text ''admin'')),
     (''OPENSEARCH_PASSWORD'', K_textOrEmpty, Optional),
     (''OPENSEARCH_VERIFY_TLS'', K_boolean, Default (V_bool True))]"

type_synonym env = "string \<rightharpoonup> string"

definition bad_variable :: "joi \<Rightarrow> env \<Rightarrow> string \<times> env_kind \<times> env_presence \<Rightarrow> bool" where
  "bad_variable joi env rule =
     (case rule of (k, kind, pres) \<Rightarrow>
        (case env k of Some s \<Rightarrow> joi_check joi kind s = None | None \<Rightarrow> pres = Required))"

definition validated :: "joi \<Rightarrow> env \<Rightarrow> string \<rightharpoonup> env_value" where
  "validated joi env k =
     (case map_of env_schema k of
        None \<Rightarrow> map_option V_text (env k)
      | Some (kind, pres) \<Rightarrow>
          (case env k of
             Some s \<Rightarrow> joi_check joi kind s
           | None \<Rightarrow> (case pres of Default v \<Rightarrow> Some v | _ \<Rightarrow> None)))"

text \<open>\<open>abortEarly: false\<close>: every offending variable is named.\<close>

definition validate_env :: "joi \<Rightarrow> env \<Rightarrow> string list + (string \<rightharpoonup> env_value)" where
  "validate_env joi env =
     (let bad = filter (bad_variable joi env) env_schema
      in if bad = [] then Inr (validated joi env) else Inl (map fst bad))"

section \<open>The options the services read\<close>

definition cfg_flag :: "(string \<rightharpoonup> env_value) \<Rightarrow> string \<Rightarrow> bool \<Rightarrow> bool" where
  "cfg_flag v k d = (case v k of Some (V_bool b) \<Rightarrow> b | _ \<Rightarrow> d)"

definition cfg_num :: "(string \<rightharpoonup> env_value) \<Rightarrow> string \<Rightarrow> int \<Rightarrow> int" where
  "cfg_num v k d = (case v k of Some (V_num n) \<Rightarrow> n | _ \<Rightarrow> d)"

definition cfg_text :: "(string \<rightharpoonup> env_value) \<Rightarrow> string \<Rightarrow> string option" where
  "cfg_text v k = (case v k of Some (V_text s) \<Rightarrow> Some s | _ \<Rightarrow> None)"

definition config_of :: "(string \<rightharpoonup> env_value) \<Rightarrow> config" where
  "config_of v =
     \<lparr>cf_production = (cfg_text v ''NODE_ENV'' = Some ''production''),
      cf_encryptBody = cfg_flag v ''ENCRYPT_MESSAGE_BODY'' True,
      cf_maxMessageLength = nat (cfg_num v ''MAX_MESSAGE_LENGTH'' 4000),
      cf_maxAttachmentMb = cfg_num v ''MAX_ATTACHMENT_MB'' 10,
      cf_wsEventsPerMinute = nat (cfg_num v ''RATE_LIMIT_WS_EVENTS_PER_MINUTE'' 120),
      cf_clamavEnabled = cfg_flag v ''CLAMAV_ENABLED'' False,
      cf_emailDriverLog = (coalesce (cfg_text v ''EMAIL_DRIVER'') ''log'' = ''log''),
      cf_emailThrottleMinutes = cfg_num v ''EMAIL_THROTTLE_MINUTES'' 10,
      cf_appUrl = coalesce (cfg_text v ''APP_URL'') ''http://localhost:8080'',
      cf_metricsEnabled = cfg_flag v ''METRICS_ENABLED'' False,
      cf_natsEnabled = cfg_flag v ''NATS_ENABLED'' False,
      cf_wsGatewayDedicated = cfg_flag v ''WS_GATEWAY_DEDICATED'' False,
      cf_searchEnabled = cfg_flag v ''SEARCH_ENABLED'' False,
      cf_accessTtl = cfg_num v ''JWT_ACCESS_TTL'' 900,
      cf_refreshTtl = cfg_num v ''JWT_REFRESH_TTL'' 2592000\<rparr>"

section \<open>Connecting\<close>

record nats_stream =
  st_name :: string
  st_maxAgeNs :: int
  st_replicas :: int
  st_duplicateWindowNs :: int

text \<open>What answers during the start: the brokers, the engine and the installed packages.\<close>

record outside =
  ot_nats :: bool
  ot_streams :: "nats_stream list"
  ot_addStream :: "nats_stream \<Rightarrow> bool"
  ot_openSearchSdk :: bool
  ot_indices :: "string list option"
  ot_createIndex :: "string \<Rightarrow> bool"
  ot_cloudWatchSdk :: bool

definition ensureStream :: "(string \<rightharpoonup> env_value) \<Rightarrow> outside \<Rightarrow> (outside, unit) res" where
  "ensureStream v out =
     (let name = coalesce (cfg_text v ''NATS_STREAM'') ''MESSAGING_EVENTS''
      in if find (\<lambda>s. st_name s = name) (ot_streams out) \<noteq> None then (Inr (), out)
         else (let s = \<lparr>st_name = name, st_maxAgeNs = 7 * 24 * 60 * 60 * 1000000000,
                        st_replicas = cfg_num v ''NATS_REPLICAS'' 1,
                        st_duplicateWindowNs = 120 * 1000000000\<rparr>
               in if ot_addStream out s then (Inr (), out\<lparr>ot_streams := ot_streams out @ [s]\<rparr>)
                  else (Inl (JsError ''stream''), out)))"

definition nats_onModuleInit ::
  "config \<Rightarrow> (string \<rightharpoonup> env_value) \<Rightarrow> outside \<Rightarrow> world \<Rightarrow> outside \<times> world" where
  "nats_onModuleInit cfg v out w =
     (if \<not> cf_natsEnabled cfg then (out, w)
      else if \<not> ot_nats out then (out, w)
      else (let w1 = w\<lparr>w_natsReady := True\<rparr>
            in case ensureStream v out of
                 (Inl e, out1) \<Rightarrow> (out1, w1)
               | (Inr _, out1) \<Rightarrow> (out1, w1)))"

definition ensureIndex :: "(string \<rightharpoonup> env_value) \<Rightarrow> outside \<Rightarrow> (outside, unit) res" where
  "ensureIndex v out =
     (let name = coalesce (cfg_text v ''OPENSEARCH_INDEX'') ''messaging_messages''
      in case ot_indices out of
           None \<Rightarrow> (Inl (JsError ''connect''), out)
         | Some names \<Rightarrow>
             if name \<in> set names then (Inr (), out)
             else if ot_createIndex out name then (Inr (), out\<lparr>ot_indices := Some (names @ [name])\<rparr>)
             else (Inl (JsError ''create''), out))"

definition os_onModuleInit ::
  "config \<Rightarrow> (string \<rightharpoonup> env_value) \<Rightarrow> outside \<Rightarrow> world \<Rightarrow> outside \<times> world" where
  "os_onModuleInit cfg v out w =
     (if \<not> cf_searchEnabled cfg then (out, w)
      else if \<not> ot_openSearchSdk out then (out, w)
      else (let w1 = w\<lparr>w_indexReady := True\<rparr>
            in case ensureIndex v out of
                 (Inl e, out1) \<Rightarrow> (out1, w1)
               | (Inr _, out1) \<Rightarrow> (out1, w1)))"

definition metrics_bootstrap :: "config \<Rightarrow> outside \<Rightarrow> world \<Rightarrow> world" where
  "metrics_bootstrap cfg out w =
     (if cf_metricsEnabled cfg then w\<lparr>w_metricsClient := ot_cloudWatchSdk out\<rparr> else w)"

section \<open>The start\<close>

text \<open>
  A new process has empty memory; tables, Redis, brokers, index and buckets are outside it.
  \<open>rand\<close> is what \<open>randomBytes(32)\<close> gives to a provider without keys.
\<close>

definition fresh_process :: "world \<Rightarrow> world" where
  "fresh_process w = w\<lparr>w_dekCache := [], w_metrics := [], w_metricsClient := False,
     w_natsReady := False, w_indexReady := False\<rparr>"

definition bootstrap ::
  "joi \<Rightarrow> env \<Rightarrow> bytes \<Rightarrow> outside \<Rightarrow> world \<Rightarrow> exn + config \<times> kms \<times> outside \<times> world" where
  "bootstrap joi env rand out w =
     (case validate_env joi env of
        Inl bad \<Rightarrow> Inl (JsError ''Config validation error'')
      | Inr v \<Rightarrow>
          (case kms_factory (cfg_text v ''KMS_DRIVER'') (cfg_text v ''KMS_LOCAL_KEYS'')
                  (cfg_text v ''KMS_LOCAL_ACTIVE'') (cfg_text v ''AWS_KMS_KEY_ARN'') rand of
             Inl e \<Rightarrow> Inl e
           | Inr k \<Rightarrow>
               (let cfg = config_of v;
                    w1 = metrics_bootstrap cfg out (fresh_process w);
                    (out2, w2) = nats_onModuleInit cfg v out w1;
                    (out3, w3) = os_onModuleInit cfg v out2 w2
                in Inr (cfg, k, out3, w3))))"

section \<open>The validated environment\<close>

lemma env_schema_distinct: "distinct (map fst env_schema)"
  by (simp add: env_schema_def)

lemma schema_lookup: "(k, kind, pres) \<in> set env_schema \<Longrightarrow> map_of env_schema k = Some (kind, pres)"
  by (rule map_of_is_SomeI [OF env_schema_distinct])

definition has_kind :: "env_kind \<Rightarrow> env_value \<Rightarrow> bool" where
  "has_kind kind x =
     (case kind of
        K_number \<Rightarrow> (case x of V_num n \<Rightarrow> True | _ \<Rightarrow> False)
      | K_boolean \<Rightarrow> (case x of V_bool b \<Rightarrow> True | _ \<Rightarrow> False)
      | _ \<Rightarrow> (case x of V_text s \<Rightarrow> True | _ \<Rightarrow> False))"

lemma joi_check_kind: "joi_check joi kind s = Some x \<Longrightarrow> has_kind kind x"
  by (auto simp: joi_check_def has_kind_def split: env_kind.splits if_splits)

lemma schema_defaults_typed:
  "list_all (\<lambda>(k, kind, pres). case pres of Default x \<Rightarrow> has_kind kind x | _ \<Rightarrow> True) env_schema"
  by (simp add: env_schema_def has_kind_def)

lemma validate_env_Inr:
  "validate_env joi env = Inr v \<longleftrightarrow> v = validated joi env
     \<and> (\<forall>rule \<in> set env_schema. \<not> bad_variable joi env rule)"
  by (auto simp: validate_env_def Let_def filter_empty_conv)

lemma validated_text:
  assumes "validate_env joi env = Inr v" "(k, kind, pres) \<in> set env_schema" "env k = Some s"
    and "kind \<noteq> K_number" "kind \<noteq> K_boolean"
  shows "cfg_text v k = Some s"
proof -
  have "joi_check joi kind s \<noteq> None" "v k = joi_check joi kind s"
    using assms(1-3) by (auto simp: validate_env_Inr validated_def schema_lookup bad_variable_def)
  with assms(4,5) show ?thesis
    by (auto simp: cfg_text_def joi_check_def split: env_kind.splits if_splits)
qed

text \<open>
  a start that passes the validation has every variable of the schema at the schema's
  type, none that is required is missing, and a refused one names exactly the variables that
  are missing or rejected.
\<close>

theorem environment_typed:
  "case validate_env joi env of
     Inr v \<Rightarrow> (\<forall>(k, kind, pres) \<in> set env_schema.
         (case v k of Some x \<Rightarrow> has_kind kind x | None \<Rightarrow> pres = Optional \<and> env k = None))
   | Inl bad \<Rightarrow> bad \<noteq> [] \<and> set bad = {k. \<exists>kind pres. (k, kind, pres) \<in> set env_schema
         \<and> (case env k of Some s \<Rightarrow> joi_check joi kind s = None | None \<Rightarrow> pres = Required)}"
proof (cases "validate_env joi env")
  case (Inl bad)
  then show ?thesis
    by (force simp: validate_env_def Let_def bad_variable_def filter_empty_conv split: if_splits)
next
  case (Inr v)
  have "case v k of Some x \<Rightarrow> has_kind kind x | None \<Rightarrow> pres = Optional \<and> env k = None"
    if rule: "(k, kind, pres) \<in> set env_schema" for k kind pres
  proof -
    have v: "v k = (case env k of Some s \<Rightarrow> joi_check joi kind s
        | None \<Rightarrow> (case pres of Default x \<Rightarrow> Some x | _ \<Rightarrow> None))"
      and ok: "case env k of Some s \<Rightarrow> joi_check joi kind s \<noteq> None | None \<Rightarrow> pres \<noteq> Required"
      using Inr rule by (auto simp: validate_env_Inr validated_def schema_lookup bad_variable_def
          split: option.splits)
    have "case pres of Default x \<Rightarrow> has_kind kind x | _ \<Rightarrow> True"
      using schema_defaults_typed rule unfolding list_all_iff by fast
    with v ok show ?thesis
      by (cases "env k"; cases pres) (auto dest: joi_check_kind split: option.splits)
  qed
  with Inr show ?thesis by auto
qed

definition required_only :: "joi \<Rightarrow> env \<Rightarrow> bool" where
  "required_only joi env \<longleftrightarrow> list_all (\<lambda>(k, kind, pres).
     case env k of Some s \<Rightarrow> pres = Required \<and> joi_check joi kind s \<noteq> None | None \<Rightarrow> pres \<noteq> Required)
     env_schema"

lemma required_only_default:
  assumes "required_only joi env" "(k, kind, pres) \<in> set env_schema" "pres \<noteq> Required"
  shows "validated joi env k = (case pres of Default x \<Rightarrow> Some x | _ \<Rightarrow> None)"
  using assms by (fastforce simp: required_only_def list_all_iff validated_def schema_lookup split: option.splits)

text \<open>
  the fallbacks in the services repeat the defaults of the schema: an environment that
  sets the required variables only is accepted and gives the options that the services would
  choose without any environment.
\<close>

theorem minimal_environment:
  assumes "required_only joi env"
  shows "\<exists>v. validate_env joi env = Inr v \<and> config_of v = config_of Map.empty
    \<and> config_of Map.empty = default_config"
proof -
  have ok: "validate_env joi env = Inr (validated joi env)"
    using assms by (fastforce simp: validate_env_Inr bad_variable_def required_only_def list_all_iff
        split: option.splits)
  have "list_all (\<lambda>(k, kind, pres). case pres of Default x \<Rightarrow> validated joi env k = Some x | _ \<Rightarrow> True)
      env_schema"
    using required_only_default [OF assms] by (fastforce simp: list_all_iff split: env_presence.splits)
  note defaults = this [unfolded env_schema_def, simplified]
  have "config_of (validated joi env) = default_config"
    by (simp add: config_of_def default_config_def cfg_flag_def cfg_num_def cfg_text_def defaults)
  then show ?thesis
    using ok by (simp add: config_of_def default_config_def cfg_flag_def cfg_num_def cfg_text_def)
qed

text \<open>An instance: the usual reading of the rules, and the required variables alone.\<close>

definition sample_joi :: joi where
  "sample_joi = \<lparr>jo_text = (\<lambda>kind s. case kind of K_min n \<Rightarrow> n \<le> length s | K_oneOf xs \<Rightarrow> s \<in> set xs
       | K_textOrEmpty \<Rightarrow> True | _ \<Rightarrow> s \<noteq> []),
     jo_number = parse_int,
     jo_boolean = (\<lambda>s. if s = ''true'' then Some True else if s = ''false'' then Some False else None)\<rparr>"

definition sample_env :: env where
  "sample_env = map_of
    [(''ALLOWED_ORIGINS'', ''http://localhost:8080''), (''DB_HOST'', ''db''), (''DB_USERNAME'', ''app''),
     (''DB_PASSWORD'', ''secret''), (''DB_NAME'', ''messaging''), (''REDIS_HOST'', ''redis''),
     (''JWT_SECRET'', ''0123456789abcdef0123456789abcdef''), (''S3_ENDPOINT'', ''http://s3:9000''),
     (''S3_BUCKET'', ''attachments'')]"

lemma sample_env_required: "required_only sample_joi sample_env"
  by (simp add: required_only_def env_schema_def sample_env_def joi_check_def sample_joi_def)

theorem minimal_environment_witness:
  "\<exists>v. validate_env sample_joi sample_env = Inr v \<and> config_of v = default_config"
  using minimal_environment [OF sample_env_required] by auto

theorem environment_typed_witness:
  "\<exists>v n. validate_env sample_joi sample_env = Inr v \<and> v ''PORT'' = Some (V_num n)"
proof -
  have "\<not> isl (validate_env sample_joi sample_env)" by code_simp
  then obtain v where v: "validate_env sample_joi sample_env = Inr v"
    by (cases "validate_env sample_joi sample_env") auto
  have port: "(''PORT'', K_number, Default (V_num 3000)) \<in> set env_schema" by (simp add: env_schema_def)
  have "case v ''PORT'' of Some x \<Rightarrow> has_kind K_number x | None \<Rightarrow> False"
    using environment_typed [of sample_joi sample_env] v port by (fastforce split: option.splits)
  with v show ?thesis by (auto simp: has_kind_def split: option.splits env_value.splits)
qed

section \<open>The start\<close>

lemma nats_onModuleInit_world:
  "snd (nats_onModuleInit cfg v out w) = w\<lparr>w_natsReady := w_natsReady w \<or> (cf_natsEnabled cfg \<and> ot_nats out)\<rparr>"
  by (auto simp: nats_onModuleInit_def Let_def split: prod.split sum.split)

lemma os_onModuleInit_world:
  "snd (os_onModuleInit cfg v out w) =
     w\<lparr>w_indexReady := w_indexReady w \<or> (cf_searchEnabled cfg \<and> ot_openSearchSdk out)\<rparr>"
  by (auto simp: os_onModuleInit_def Let_def split: prod.split sum.split)

lemma ensureStream_sdk: "ot_openSearchSdk (snd (ensureStream v out)) = ot_openSearchSdk out"
  by (simp add: ensureStream_def Let_def)

lemma nats_onModuleInit_sdk: "ot_openSearchSdk (fst (nats_onModuleInit cfg v out w)) = ot_openSearchSdk out"
  using ensureStream_sdk [of v out]
  by (auto simp: nats_onModuleInit_def Let_def split: prod.split sum.split)

lemma bootstrap_Inr:
  assumes "bootstrap joi env rand out w = Inr (cfg, k, out', w')"
  obtains v where "validate_env joi env = Inr v" "cfg = config_of v"
    "kms_factory (cfg_text v ''KMS_DRIVER'') (cfg_text v ''KMS_LOCAL_KEYS'')
       (cfg_text v ''KMS_LOCAL_ACTIVE'') (cfg_text v ''AWS_KMS_KEY_ARN'') rand = Inr k"
    "w' = (fresh_process w)\<lparr>w_metricsClient := cf_metricsEnabled cfg \<and> ot_cloudWatchSdk out,
       w_natsReady := cf_natsEnabled cfg \<and> ot_nats out,
       w_indexReady := cf_searchEnabled cfg \<and> ot_openSearchSdk out\<rparr>"
proof -
  from assms obtain v where v: "validate_env joi env = Inr v"
    by (auto simp: bootstrap_def split: sum.splits)
  with assms obtain k' where k: "kms_factory (cfg_text v ''KMS_DRIVER'') (cfg_text v ''KMS_LOCAL_KEYS'')
       (cfg_text v ''KMS_LOCAL_ACTIVE'') (cfg_text v ''AWS_KMS_KEY_ARN'') rand = Inr k'"
    by (auto simp: bootstrap_def split: sum.splits)
  define w1 where "w1 = metrics_bootstrap (config_of v) out (fresh_process w)"
  obtain o2 w2 where n: "nats_onModuleInit (config_of v) v out w1 = (o2, w2)" by fastforce
  obtain o3 w3 where q: "os_onModuleInit (config_of v) v o2 w2 = (o3, w3)" by fastforce
  have eqs: "cfg = config_of v" "k = k'" "w' = w3"
    using assms v k n q by (simp_all add: bootstrap_def Let_def w1_def)
  have w2: "w2 = w1\<lparr>w_natsReady := w_natsReady w1 \<or> (cf_natsEnabled cfg \<and> ot_nats out)\<rparr>"
    using nats_onModuleInit_world [of "config_of v" v out w1] n eqs by simp
  have w3: "w3 = w2\<lparr>w_indexReady := w_indexReady w2 \<or> (cf_searchEnabled cfg \<and> ot_openSearchSdk out)\<rparr>"
    using os_onModuleInit_world [of "config_of v" v o2 w2]
      nats_onModuleInit_sdk [of "config_of v" v out w1] n q eqs by simp
  show thesis
    using that [of v] v k eqs w2 w3
    by (auto simp: w1_def metrics_bootstrap_def fresh_process_def)
qed

text \<open>A start leaves the stored data alone, so the server starts in a state it keeps.\<close>

lemma bootstrap_sound:
  assumes "bootstrap joi env rand out w = Inr (cfg, k, out', w')"
  shows "sound w w'" "w_dekCache w' = []" "nats_isEnabled cfg w' \<longleftrightarrow> cf_natsEnabled cfg \<and> ot_nats out"
    "os_isEnabled cfg w' \<longleftrightarrow> cf_searchEnabled cfg \<and> ot_openSearchSdk out"
proof -
  from assms obtain v where w': "w' = (fresh_process w)\<lparr>w_metricsClient := cf_metricsEnabled cfg \<and> ot_cloudWatchSdk out,
       w_natsReady := cf_natsEnabled cfg \<and> ot_nats out,
       w_indexReady := cf_searchEnabled cfg \<and> ot_openSearchSdk out\<rparr>"
    by (rule bootstrap_Inr)
  have "inv w \<Longrightarrow> inv w'" by (subst inv_frame [of w' w]) (simp_all add: w' fresh_process_def)
  moreover have "calm w w'" by (simp add: calm_def w' fresh_process_def)
  ultimately show "sound w w'" by (rule sound_calm)
  show "w_dekCache w' = []" "nats_isEnabled cfg w' \<longleftrightarrow> cf_natsEnabled cfg \<and> ot_nats out"
    "os_isEnabled cfg w' \<longleftrightarrow> cf_searchEnabled cfg \<and> ot_openSearchSdk out"
    by (auto simp: w' fresh_process_def nats_isEnabled_def os_isEnabled_def)
qed

text \<open>
  NATS counts as enabled although its stream could not be created: the failure is logged as a
  failed initialisation, but the publisher is already set.
\<close>

lemma nats_ready_without_stream:
  assumes "cf_natsEnabled cfg" "ot_nats out" "ot_streams out = []" "\<And>s. \<not> ot_addStream out s"
  shows "nats_isEnabled cfg (snd (nats_onModuleInit cfg v out w))"
    "ot_streams (fst (nats_onModuleInit cfg v out w)) = []"
  using assms by (simp_all add: nats_onModuleInit_def ensureStream_def Let_def nats_isEnabled_def)

text \<open>The ring of local keys is what the variable says, whichever key is active.\<close>

lemma local_ring:
  assumes "local_construct (Some raw) active rand = Inr k" "raw \<noteq> []"
    and "local_construct (Some raw) active' rand' = Inr k'"
  shows "lk_keys k' = lk_keys k"
  using assms by (auto simp: local_construct_def truthy_def Let_def split: sum.splits if_splits)

lemma bootstrap_local:
  assumes "bootstrap joi env rand out w = Inr (cfg, k, out', w')"
    and "env ''KMS_DRIVER'' \<in> {None, Some ''local''}" "env ''KMS_LOCAL_KEYS'' = keys"
  obtains lk act where "k = Local_kms lk" "local_construct keys act rand = Inr lk"
proof -
  from assms(1) obtain v where v: "validate_env joi env = Inr v"
    and f: "kms_factory (cfg_text v ''KMS_DRIVER'') (cfg_text v ''KMS_LOCAL_KEYS'')
       (cfg_text v ''KMS_LOCAL_ACTIVE'') (cfg_text v ''AWS_KMS_KEY_ARN'') rand = Inr k"
    by (rule bootstrap_Inr)
  have driver: "(''KMS_DRIVER'', K_oneOf [''local'', ''aws''], Default (V_text ''local'')) \<in> set env_schema"
    and ring: "(''KMS_LOCAL_KEYS'', K_text, Optional) \<in> set env_schema"
    by (simp_all add: env_schema_def)
  have "cfg_text v ''KMS_DRIVER'' = Some ''local''"
    using validated_text [OF v driver] assms(2) v schema_lookup [OF driver]
    by (auto simp: validate_env_Inr validated_def cfg_text_def)
  moreover have "cfg_text v ''KMS_LOCAL_KEYS'' = keys"
    using validated_text [OF v ring] assms(3) v schema_lookup [OF ring]
    by (cases keys) (auto simp: validate_env_Inr validated_def cfg_text_def)
  ultimately show thesis
    using that f by (auto simp: kms_factory_def split: sum.splits)
qed

text \<open>
  C26: a restart loses no message: what one process encrypted under the local keys of its
  environment is read by every later process started with the same KMS_LOCAL_KEYS, whichever
  key either has active and whatever else changed in the environment.
\<close>

theorem restart_keeps_messages:
  assumes "bootstrap joi env rand out w = Inr (cfg, k, o1, w1)"
    and "bootstrap joi env' rand' out' w' = Inr (cfg', k', o2, w2)"
    and "env ''KMS_DRIVER'' \<in> {None, Some ''local''}" "env' ''KMS_DRIVER'' \<in> {None, Some ''local''}"
    and "env ''KMS_LOCAL_KEYS'' = Some raw" "raw \<noteq> []" "env' ''KMS_LOCAL_KEYS'' = Some raw"
    and "aead_ok aenv" "length rand = 32" "length kiv = 12" "encrypt aenv k dek kiv iv text = Inr e"
  shows "fst (decrypt aenv k' t (en_ciphertext e) (en_iv e) (en_tag e) (en_dekId e) (w_dekCache w2)) = Inr text"
proof -
  from assms(1,3,5) obtain lk act where k: "k = Local_kms lk" "local_construct (Some raw) act rand = Inr lk"
    by (rule bootstrap_local)
  from assms(2,4,7) obtain lk' act' where k': "k' = Local_kms lk'" "local_construct (Some raw) act' rand' = Inr lk'"
    by (rule bootstrap_local)
  have "lk_keys lk' = lk_keys lk" by (rule local_ring [OF k(2) assms(6) k'(2)])
  then show ?thesis
    using ring_decrypts [OF assms(8) local_construct_ok [OF k(2) assms(9)] assms(10), of dek iv "text" e lk']
      assms(11) k(1) k'(1) bootstrap_sound(2) [OF assms(2)] by simp
qed

definition sample_ring :: string where
  "sample_ring = ''a:'' @ replicate 43 (CHR ''A'') @ ''=,b:'' @ replicate 42 (CHR ''Q'') @ ''Q=''"

definition sample_outside :: outside where
  "sample_outside = \<lparr>ot_nats = True, ot_streams = [], ot_addStream = (\<lambda>_. True), ot_openSearchSdk = False,
     ot_indices = None, ot_createIndex = (\<lambda>_. False), ot_cloudWatchSdk = False\<rparr>"

definition sample_start :: "string \<Rightarrow> exn + config \<times> kms \<times> outside \<times> world" where
  "sample_start act = bootstrap sample_joi
     (sample_env(''KMS_LOCAL_KEYS'' \<mapsto> sample_ring, ''KMS_LOCAL_ACTIVE'' \<mapsto> act)) (replicate 32 9)
     sample_outside empty_world"

lemma sample_starts: "\<not> isl (sample_start ''a'')" "\<not> isl (sample_start ''b'')"
  by code_simp+

lemma local_encrypts: "local_ok k \<Longrightarrow> \<exists>e. encrypt env (Local_kms k) dek kiv iv s = Inr e"
  by (auto simp: local_ok_def encrypt_def local_generate_def Let_def split: prod.split)

theorem restart_keeps_messages_witness:
  "\<exists>cfg k o1 w1 cfg' k' o2 w2 e. sample_start ''a'' = Inr (cfg, k, o1, w1)
     \<and> sample_start ''b'' = Inr (cfg', k', o2, w2)
     \<and> encrypt toy_env k (replicate 32 7) (replicate 12 3) [5] ''Bonjour'' = Inr e
     \<and> fst (decrypt toy_env k' 0 (en_ciphertext e) (en_iv e) (en_tag e) (en_dekId e) (w_dekCache w2)) = Inr ''Bonjour''"
proof -
  obtain cfg k o1 w1 where a: "sample_start ''a'' = Inr (cfg, k, o1, w1)"
    using sample_starts(1) by (cases "sample_start ''a''") auto
  obtain cfg' k' o2 w2 where b: "sample_start ''b'' = Inr (cfg', k', o2, w2)"
    using sample_starts(2) by (cases "sample_start ''b''") auto
  have env: "sample_env ''KMS_DRIVER'' = None" by (simp add: sample_env_def)
  obtain lk act where k: "k = Local_kms lk" "local_construct (Some sample_ring) act (replicate 32 9) = Inr lk"
    by (rule bootstrap_local [OF a [unfolded sample_start_def], of "Some sample_ring"]) (simp_all add: env)
  have "local_ok lk" by (rule local_construct_ok [OF k(2)]) simp
  then obtain e where e: "encrypt toy_env k (replicate 32 7) (replicate 12 3) [5] ''Bonjour'' = Inr e"
    using local_encrypts k(1) by blast
  have "fst (decrypt toy_env k' 0 (en_ciphertext e) (en_iv e) (en_tag e) (en_dekId e) (w_dekCache w2)) = Inr ''Bonjour''"
    by (rule restart_keeps_messages [OF a [unfolded sample_start_def] b [unfolded sample_start_def] _ _ _ _ _ _ _ _ e,
          of sample_ring]) (simp_all add: env toy_ok sample_ring_def)
  with a b e show ?thesis by blast
qed

text \<open>
  Without KMS_LOCAL_KEYS every start draws a new key under the same name: for a cipher that
  rejects other keys, nothing that an earlier process encrypted is readable any more. The
  schema accepts such an environment, in production too.
\<close>

lemma restart_without_keys_loses:
  assumes "bootstrap joi env rand out w = Inr (cfg, k, o1, w1)"
    and "bootstrap joi env rand' out' w' = Inr (cfg', k', o2, w2)"
    and "env ''KMS_DRIVER'' \<in> {None, Some ''local''}" "env ''KMS_LOCAL_KEYS'' = None"
    and "\<And>key iv pt. ce_dec aenv rand' iv (fst (ce_enc aenv rand iv pt)) (snd (ce_enc aenv rand iv pt)) = None"
    and "aead_ok aenv" "length kiv = 12" "encrypt aenv k dek kiv iv s = Inr e"
  shows "\<exists>x. fst (decrypt aenv k' t (en_ciphertext e) (en_iv e) (en_tag e) (en_dekId e) (w_dekCache w2)) = Inl x"
proof -
  from assms(1,3,4) obtain lk act where k: "k = Local_kms lk" "local_construct None act rand = Inr lk"
    by (rule bootstrap_local)
  from assms(2,3,4) obtain lk' act' where k': "k' = Local_kms lk'" "local_construct None act' rand' = Inr lk'"
    by (rule bootstrap_local)
  have ring: "lk_keys lk = [(''dev-key-1'', rand)]" "lk_active lk = ''dev-key-1''" "lk_keys lk' = [(''dev-key-1'', rand')]"
    using k(2) k'(2) by (auto simp: local_construct_def)
  obtain c tag where enc: "ce_enc aenv rand kiv dek = (c, tag)" by fastforce
  with assms(5) [of kiv dek] assms(6) have no: "ce_dec aenv rand' kiv c tag = None" and len: "length tag = 16"
    unfolding aead_ok_def by (metis fst_conv snd_conv)+
  from assms(8) enc ring obtain wrapped where wr: "en_dekId e = ''dev-key-1'' @ ''::'' @ b64_encode wrapped"
    "wrapped = byte_of 12 # kiv @ byte_of 16 # tag @ c"
    by (auto simp: encrypt_def k(1) local_generate_def Let_def assms(7) len split: prod.splits)
  have "no_sep ''dev-key-1''" by (rule no_colon_no_sep) simp
  from split_dekId [OF this, of wrapped] obtain b64 rest where sp: "js_split ''::'' (en_dekId e) = ''dev-key-1'' # b64 # rest"
    "b64_decode b64 = wrapped"
    by (auto simp: wr(1))
  have "local_decrypt aenv lk' ''dev-key-1'' wrapped = Inl (JsError ''Unsupported state or unable to authenticate data'')"
    using no len assms(7) by (simp add: local_decrypt_def ring wr(2))
  then show ?thesis
    using sp by (simp add: decrypt_def unwrap_dek_def bootstrap_sound(2) [OF assms(2)] k'(1))
qed

end
