(* ===== verification/Processes.thy ===== *)
theory Processes
  imports Startup Ws_Gateway
begin

text \<open>
  The two processes, the API (backend/src/main.ts) and the dedicated socket gateway
  (ws-gateway/src/server.ts), as they start: the options with which each of their clients connects
  to Redis and to NATS, what the API sets on its HTTP server, the JetStream consumer that the
  gateway creates, and its end. \<open>api_*\<close> read the environment that Joi validated, \<open>ws_*\<close>
  the raw one. An \<open>undefined\<close> option is \<open>None\<close>, and \<open>NaN\<close> is \<open>None\<close>.
\<close>

section \<open>Redis\<close>

record redis_options =
  rd_host :: "string option"
  rd_port :: "int option"
  rd_password :: "string option"
  rd_tls :: "string option option"

text \<open>\<open>s || undefined\<close>.\<close>

definition non_empty :: "string option \<Rightarrow> string option" where
  "non_empty s = (if truthy s then s else None)"

definition connectToRedis :: "string \<Rightarrow> int \<Rightarrow> string option \<Rightarrow> bool \<Rightarrow> redis_options" where
  "connectToRedis host port password tls =
     \<lparr>rd_host = Some host, rd_port = Some port, rd_password = password,
      rd_tls = (if tls then Some (Some host) else None)\<rparr>"

definition api_redis :: "(string \<rightharpoonup> env_value) \<Rightarrow> redis_options" where
  "api_redis v = connectToRedis (coalesce (cfg_text v ''REDIS_HOST'') ''localhost'')
     (cfg_num v ''REDIS_PORT'' 6379) (non_empty (cfg_text v ''REDIS_PASSWORD''))
     (cfg_flag v ''REDIS_TLS'' False)"

definition presence_redis :: "(string \<rightharpoonup> env_value) \<Rightarrow> redis_options" where
  "presence_redis v =
     (let host = cfg_text v ''REDIS_HOST''; tls = cfg_flag v ''REDIS_TLS'' False
      in \<lparr>rd_host = host, rd_port = Some (cfg_num v ''REDIS_PORT'' 6379),
          rd_password = non_empty (cfg_text v ''REDIS_PASSWORD''),
          rd_tls = (if tls then Some host else None)\<rparr>)"

text \<open>\<open>cfg.get('REDIS_PORT')\<close> without a fallback.\<close>

definition cfg_num_opt :: "(string \<rightharpoonup> env_value) \<Rightarrow> string \<Rightarrow> int option" where
  "cfg_num_opt v k = (case v k of Some (V_num n) \<Rightarrow> Some n | _ \<Rightarrow> None)"

definition gateway_redis :: "(string \<rightharpoonup> env_value) \<Rightarrow> redis_options" where
  "gateway_redis v =
     \<lparr>rd_host = cfg_text v ''REDIS_HOST'', rd_port = cfg_num_opt v ''REDIS_PORT'',
      rd_password = non_empty (cfg_text v ''REDIS_PASSWORD''), rd_tls = None\<rparr>"

definition ws_redis :: "env \<Rightarrow> redis_options" where
  "ws_redis env =
     \<lparr>rd_host = Some (coalesce (env ''REDIS_HOST'') ''localhost''),
      rd_port = parse_int (coalesce (env ''REDIS_PORT'') ''6379''),
      rd_password = non_empty (env ''REDIS_PASSWORD''),
      rd_tls = (if env ''REDIS_TLS'' = Some ''true'' then Some (env ''REDIS_HOST'') else None)\<rparr>"

section \<open>NATS\<close>

record nats_options =
  no_servers :: "string list"
  no_token :: "string option"
  no_user :: "string option"
  no_pass :: "string option"
  no_tls :: bool
  no_reconnect :: bool
  no_maxReconnectAttempts :: int

definition api_nats :: "(string \<rightharpoonup> env_value) \<Rightarrow> nats_options" where
  "api_nats v =
     \<lparr>no_servers = js_split '','' (coalesce (cfg_text v ''NATS_URL'') ''nats://localhost:4222''),
      no_token = non_empty (cfg_text v ''NATS_TOKEN''),
      no_user = non_empty (cfg_text v ''NATS_USER''),
      no_pass = non_empty (cfg_text v ''NATS_PASSWORD''),
      no_tls = cfg_flag v ''NATS_TLS'' False,
      no_reconnect = True, no_maxReconnectAttempts = - 1\<rparr>"

definition consumer_nats :: "string \<Rightarrow> nats_options" where
  "consumer_nats servers =
     \<lparr>no_servers = js_split '','' servers, no_token = None, no_user = None, no_pass = None,
      no_tls = False, no_reconnect = True, no_maxReconnectAttempts = - 1\<rparr>"

record consumer_opts =
  cn_servers :: string
  cn_stream :: string
  cn_durable :: string

definition ws_consumer_opts :: "env \<Rightarrow> consumer_opts" where
  "ws_consumer_opts env =
     \<lparr>cn_servers = coalesce (env ''NATS_URL'') ''nats://localhost:4222'',
      cn_stream = coalesce (env ''NATS_STREAM'') ''MESSAGING_EVENTS'',
      cn_durable = coalesce (env ''NATS_DURABLE'') ''ws-gateway''\<rparr>"

section \<open>The HTTP server of the API\<close>

record hsts = hs_maxAge :: nat hs_includeSubDomains :: bool hs_preload :: bool

record cors_options = co_credentials :: bool co_methods :: "string list"

record http_setup =
  ht_trustProxy :: nat
  ht_prefix :: string
  ht_hsts :: "hsts option"
  ht_cors :: cors_options
  ht_docs :: "string option"
  ht_port :: int

definition in_production :: "(string \<rightharpoonup> env_value) \<Rightarrow> bool" where
  "in_production v \<longleftrightarrow> cfg_text v ''NODE_ENV'' = Some ''production''"

definition api_prefix :: "(string \<rightharpoonup> env_value) \<Rightarrow> string" where
  "api_prefix v = coalesce (cfg_text v ''API_PREFIX'') ''api/v1''"

definition hsts_of :: "(string \<rightharpoonup> env_value) \<Rightarrow> hsts option" where
  "hsts_of v = (if in_production v
     then Some \<lparr>hs_maxAge = 63072000, hs_includeSubDomains = True, hs_preload = True\<rparr> else None)"

text \<open>Where Swagger's pages are mounted.\<close>

definition docs_of :: "(string \<rightharpoonup> env_value) \<Rightarrow> string option" where
  "docs_of v = (if \<not> in_production v then Some (api_prefix v @ ''/docs'') else None)"

definition http_setup_of :: "(string \<rightharpoonup> env_value) \<Rightarrow> http_setup" where
  "http_setup_of v =
     \<lparr>ht_trustProxy = 1, ht_prefix = api_prefix v, ht_hsts = hsts_of v,
      ht_cors = \<lparr>co_credentials = True, co_methods = [''GET'', ''POST'', ''PATCH'', ''DELETE'', ''OPTIONS'']\<rparr>,
      ht_docs = docs_of v, ht_port = cfg_num v ''PORT'' 3000\<rparr>"

section \<open>The gateway's consumer\<close>

record consumer_config =
  cc_durable_name :: string
  cc_ackExplicit :: bool
  cc_deliverNew :: bool
  cc_filter_subject :: string
  cc_max_deliver :: nat
  cc_ack_wait :: int

text \<open>
  The JetStream server: whether it accepts the connection, its consumers by stream and name, and
  whether it accepts a new one.
\<close>

record jetstream =
  js_accepts :: "nats_options \<Rightarrow> bool"
  js_consumers :: "((string \<times> string) \<times> consumer_config) list"
  js_allows :: "string \<Rightarrow> consumer_config \<Rightarrow> bool"

definition new_consumer :: "consumer_opts \<Rightarrow> consumer_config" where
  "new_consumer opts =
     \<lparr>cc_durable_name = cn_durable opts, cc_ackExplicit = True, cc_deliverNew = True,
      cc_filter_subject = ''messaging.events.>'', cc_max_deliver = 10, cc_ack_wait = 30 * 1000000000\<rparr>"

definition consumer_start :: "consumer_opts \<Rightarrow> jetstream \<Rightarrow> (jetstream, consumer_config) res" where
  "consumer_start opts js =
     (if \<not> js_accepts js (consumer_nats (cn_servers opts)) then (Inl (JsError ''connect''), js)
      else (let key = (cn_stream opts, cn_durable opts)
            in case map_of (js_consumers js) key of
                 Some c \<Rightarrow> (Inr c, js)
               | None \<Rightarrow>
                   if js_allows js (cn_stream opts) (new_consumer opts)
                   then (Inr (new_consumer opts),
                         js\<lparr>js_consumers := js_consumers js @ [(key, new_consumer opts)]\<rparr>)
                   else (Inl (JsError ''consumers.add''), js)))"

text \<open>\<open>main\<close>: what a start ends in, with the port it listens on (\<open>NaN\<close> is \<open>None\<close>).\<close>

datatype ws_process = Listening "int option" consumer_config | Exited nat

definition ws_port :: "env \<Rightarrow> int option" where
  "ws_port env = parse_int (coalesce (env ''PORT'') ''3001'')"

definition ws_main :: "env \<Rightarrow> jetstream \<Rightarrow> ws_process \<times> jetstream" where
  "ws_main env js =
     (case consumer_start (ws_consumer_opts env) js of
        (Inr c, js1) \<Rightarrow> (Listening (ws_port env) c, js1)
      | (Inl e, js1) \<Rightarrow> (Exited 1, js1))"

text \<open>\<open>shutdown\<close>: \<open>io.close\<close> disconnects every socket; the counters stay in Redis.\<close>

definition ws_shutdown :: "ws_node \<Rightarrow> ws_process \<times> ws_node" where
  "ws_shutdown nd =
     (Exited 0, nd\<lparr>ws_socks := map (\<lambda>s. s\<lparr>so_rooms := [], so_open := False\<rparr>) (ws_socks nd)\<rparr>)"

section \<open>Both processes meet\<close>

text \<open>
  The texts of the environment that Joi and the gateway's own reading take alike: a port in
  digits, and \<open>true\<close> or \<open>false\<close> spelt as that.
\<close>

definition plain_broker_env :: "joi \<Rightarrow> env \<Rightarrow> bool" where
  "plain_broker_env joi env \<longleftrightarrow>
     (case env ''REDIS_PORT'' of None \<Rightarrow> True | Some s \<Rightarrow> jo_number joi s = parse_int s)
   \<and> (case env ''REDIS_TLS'' of None \<Rightarrow> True | Some s \<Rightarrow> jo_boolean joi s = Some (s = ''true''))"

lemma validated_variable:
  assumes "validate_env joi env = Inr v" "(k, kind, pres) \<in> set env_schema"
  shows "v k = (case env k of Some s \<Rightarrow> joi_check joi kind s
    | None \<Rightarrow> (case pres of Default x \<Rightarrow> Some x | _ \<Rightarrow> None))"
    "case env k of Some s \<Rightarrow> joi_check joi kind s \<noteq> None | None \<Rightarrow> pres \<noteq> Required"
  using assms by (auto simp: validate_env_Inr validated_def schema_lookup bad_variable_def
      split: option.splits)

lemma text_required:
  assumes "validate_env joi env = Inr v" "(k, K_text, Required) \<in> set env_schema"
  shows "cfg_text v k = env k" "env k \<noteq> None"
  using validated_variable [OF assms]
  by (auto simp: cfg_text_def joi_check_def split: option.splits if_splits)

lemma text_default:
  assumes "validate_env joi env = Inr v" "(k, K_text, Default (V_text d)) \<in> set env_schema"
  shows "cfg_text v k = Some (coalesce (env k) d)"
  using validated_variable [OF assms]
  by (auto simp: cfg_text_def joi_check_def split: option.splits if_splits)

lemma text_optional:
  assumes "validate_env joi env = Inr v" "(k, K_textOrEmpty, Optional) \<in> set env_schema"
  shows "cfg_text v k = env k"
  using validated_variable [OF assms]
  by (auto simp: cfg_text_def joi_check_def split: option.splits if_splits)

lemma flag_default:
  assumes "validate_env joi env = Inr v" "(k, K_boolean, Default (V_bool d)) \<in> set env_schema"
  shows "cfg_flag v k d' = (case env k of None \<Rightarrow> d | Some s \<Rightarrow> the (jo_boolean joi s))"
  using validated_variable [OF assms]
  by (auto simp: cfg_flag_def joi_check_def split: option.splits)

lemma number_default:
  assumes "validate_env joi env = Inr v" "(k, K_number, Default (V_num d)) \<in> set env_schema"
  shows "cfg_num_opt v k = Some (case env k of None \<Rightarrow> d | Some s \<Rightarrow> the (jo_number joi s))"
    "Some (cfg_num v k d') = cfg_num_opt v k"
    "env k = Some s \<Longrightarrow> jo_number joi s \<noteq> None"
  using validated_variable [OF assms]
  by (auto simp: cfg_num_opt_def cfg_num_def joi_check_def split: option.splits)

lemma redis_variables:
  "(''REDIS_HOST'', K_text, Required) \<in> set env_schema"
  "(''REDIS_PORT'', K_number, Default (V_num 6379)) \<in> set env_schema"
  "(''REDIS_PASSWORD'', K_textOrEmpty, Optional) \<in> set env_schema"
  "(''REDIS_TLS'', K_boolean, Default (V_bool False)) \<in> set env_schema"
  by (simp_all add: env_schema_def)

lemma nats_variables:
  "(''NATS_URL'', K_text, Default (V_text ''nats://localhost:4222'')) \<in> set env_schema"
  "(''NATS_STREAM'', K_text, Default (V_text ''MESSAGING_EVENTS'')) \<in> set env_schema"
  "(''NATS_TOKEN'', K_textOrEmpty, Optional) \<in> set env_schema"
  "(''NATS_USER'', K_textOrEmpty, Optional) \<in> set env_schema"
  "(''NATS_PASSWORD'', K_textOrEmpty, Optional) \<in> set env_schema"
  by (simp_all add: env_schema_def)

lemma api_clients_agree:
  assumes "validate_env joi env = Inr v"
  shows "presence_redis v = api_redis v"
    "gateway_redis v = (api_redis v)\<lparr>rd_tls := None\<rparr>"
  using text_required [OF assms redis_variables(1)] number_default(1,2) [OF assms redis_variables(2)]
  by (auto simp: presence_redis_def api_redis_def gateway_redis_def connectToRedis_def Let_def)

lemma ws_redis_agrees:
  assumes "validate_env joi env = Inr v" "plain_broker_env joi env"
  shows "ws_redis env = api_redis v"
proof -
  have port: "parse_int (coalesce (env ''REDIS_PORT'') ''6379'') = Some (cfg_num v ''REDIS_PORT'' 6379)"
  proof (cases "env ''REDIS_PORT''")
    case None
    have "parse_int ''6379'' = Some 6379" by code_simp
    with None show ?thesis
      using number_default(1,2) [OF assms(1) redis_variables(2)] by simp
  next
    case (Some s)
    then have "jo_number joi s = parse_int s" using assms(2) by (simp add: plain_broker_env_def)
    with Some show ?thesis
      using number_default [OF assms(1) redis_variables(2)] by auto
  qed
  have "(env ''REDIS_TLS'' = Some ''true'') = cfg_flag v ''REDIS_TLS'' False"
    using assms(2) flag_default [OF assms(1) redis_variables(4)]
    by (auto simp: plain_broker_env_def split: option.splits)
  with port show ?thesis
    using text_required [OF assms(1) redis_variables(1)] text_optional [OF assms(1) redis_variables(3)]
    by (auto simp: ws_redis_def api_redis_def connectToRedis_def)
qed


definition tls_env :: env where
  "tls_env = sample_env(''REDIS_TLS'' \<mapsto> ''true'', ''REDIS_PORT'' \<mapsto> ''6380'', ''NATS_TOKEN'' \<mapsto> ''t0ken'')"


section \<open>Other facts of the start\<close>

text \<open>
  Joi takes \<open>TRUE\<close> for true, the gateway compares with \<open>true\<close>: the same environment gives one
  process TLS and the other none.
\<close>

lemma tls_spelling_splits:
  assumes "validate_env joi env = Inr v" "env ''REDIS_TLS'' = Some s"
    and "jo_boolean joi s = Some True" "s \<noteq> ''true''"
  shows "rd_tls (api_redis v) \<noteq> None" "rd_tls (ws_redis env) = None"
  using flag_default [OF assms(1) redis_variables(4)] assms(2-4)
  by (simp_all add: api_redis_def connectToRedis_def ws_redis_def)

text \<open>An empty \<open>NATS_URL\<close> stops the API, whether it uses NATS or not, when Joi rejects empty texts.\<close>

lemma empty_nats_url_refused:
  assumes "\<not> jo_text joi K_text []" "env ''NATS_URL'' = Some []"
  shows "\<exists>bad. validate_env joi env = Inl bad \<and> ''NATS_URL'' \<in> set bad"
proof -
  have "bad_variable joi env (''NATS_URL'', K_text, Default (V_text ''nats://localhost:4222''))"
    using assms by (simp add: bad_variable_def joi_check_def)
  with nats_variables(1) show ?thesis by (force simp: validate_env_def Let_def filter_empty_conv)
qed

lemma production_has_no_docs:
  "ht_docs (http_setup_of v) = None \<longleftrightarrow> ht_hsts (http_setup_of v) \<noteq> None"
  by (simp add: http_setup_of_def docs_of_def hsts_of_def)

text \<open>A restart of the gateway finds the consumer of the first start and creates none.\<close>

lemma consumer_start_again:
  assumes "consumer_start opts js = (Inr c, js1)"
  shows "consumer_start opts js1 = (Inr c, js1)"
  using assms by (auto simp: consumer_start_def Let_def split: if_splits option.splits)

lemma ws_main_ends:
  "fst (ws_main env js) = Exited 1 \<longleftrightarrow> isl (fst (consumer_start (ws_consumer_opts env) js))"
  by (simp add: ws_main_def split: prod.split sum.split)

lemma shutdown_silent:
  "ws_sent (onEvent e d (snd (ws_shutdown nd))) = ws_sent nd"
proof -
  have "ws_room r (snd (ws_shutdown nd)) = []" for r
    by (simp add: ws_room_def ws_shutdown_def filter_empty_conv)
  then show ?thesis by (simp add: onEvent_def Let_def ws_emit_def) (simp add: ws_shutdown_def)
qed

end
