(* ===== verification/Worker.thy ===== *)
theory Worker
  imports Outbox "HOL-Library.While_Combinator"
begin

text \<open>
  The loop of \<open>OutboxWorker\<close> (backend/src/modules/outbox/outbox.worker.ts) around the batches of
  theory Outbox: the delay before the next tick, a batch whose transaction is lost, the
  flag that keeps ticks from overlapping, and several workers on one table.

  The effects of the handlers (mails, publications, the index, the rows of sent
  notifications) are outside the transaction of a batch, so losing it undoes the updates of
  the outbox only. \<open>abort\<close> is the number of rows handled when the connection is lost.
\<close>

section \<open>The loop\<close>

definition lost_batch ::
  "delivery_env \<Rightarrow> config \<Rightarrow> int \<Rightarrow> (uuid \<Rightarrow> bool) \<Rightarrow> nat \<Rightarrow> nat \<Rightarrow> world \<Rightarrow> world" where
  "lost_batch dv cfg t locked n k w =
     (process_rows (outbox_handle dv cfg t) cfg t (take k (due_rows t locked n w)) w)
       \<lparr>w_outbox := w_outbox w\<rparr>"

record worker_loop =
  wk_running :: bool
  wk_timer :: "nat option"

definition loop_tick ::
  "delivery_env \<Rightarrow> config \<Rightarrow> int \<Rightarrow> (uuid \<Rightarrow> bool) \<Rightarrow> nat option \<Rightarrow> worker_loop \<times> world \<Rightarrow> worker_loop \<times> world" where
  "loop_tick dv cfg t locked abort s =
     (let (lp, w) = s
      in if wk_running lp then s
         else (case abort of
                 None \<Rightarrow> (let (delay, w1) = outbox_tick dv cfg t locked w
                          in (lp\<lparr>wk_timer := Some delay\<rparr>, w1))
               | Some k \<Rightarrow> (lp\<lparr>wk_timer := Some 3000\<rparr>,
                   metrics_count cfg t ''OutboxLoopError'' 1 None (lost_batch dv cfg t locked 20 k w))))"

text \<open>
  The timer starts the next tick after 50 ms as long as there was work, and after 1500 ms when
  there was none: \<open>until_idle\<close> is the run of the loop up to its first idle delay, at one instant.
\<close>

definition until_idle ::
  "delivery_env \<Rightarrow> config \<Rightarrow> int \<Rightarrow> (uuid \<Rightarrow> bool) \<Rightarrow> world \<Rightarrow> (nat \<times> world) option" where
  "until_idle dv cfg t locked w =
     while_option (\<lambda>(delay, w). delay \<noteq> 1500) (\<lambda>(delay, w). outbox_tick dv cfg t locked w) (50, w)"

section \<open>Lemmas\<close>

text \<open>A settled row no longer waits, whatever the outcome of its handler.\<close>

lemma settled_not_waiting:
  assumes "w_outbox w' = map (\<lambda>r. if r \<in> set due then settle t (f (ob_id r)) (ob_attempts r) r else r) (w_outbox w)"
  shows "waiting t locked w' = filter (\<lambda>r. r \<notin> set due) (waiting t locked w)"
proof -
  have later: "\<not> t + backoff_sec (n + 1) * 1000 \<le> t" for n
    using one_le_power [of "2::int" n] by (simp add: backoff_sec_def min_def)
  have "filter (\<lambda>r. ob_processedAt r = None \<and> ob_nextAttemptAt r \<le> t \<and> \<not> locked (ob_id r))
      (map (\<lambda>r. if r \<in> set due then settle t (f (ob_id r)) (ob_attempts r) r else r) rows)
    = filter (\<lambda>r. r \<notin> set due)
        (filter (\<lambda>r. ob_processedAt r = None \<and> ob_nextAttemptAt r \<le> t \<and> \<not> locked (ob_id r)) rows)" for rows
    using later by (induction rows) (auto simp: settle_def split: option.split)
  then show ?thesis by (simp add: waiting_def assms)
qed

lemma later_settled: "settle t x n r \<notin> set (waiting t locked w)"
proof -
  have "\<not> t + backoff_sec (n + 1) * 1000 \<le> t"
    using one_le_power [of "2::int" n] by (simp add: backoff_sec_def min_def)
  then show ?thesis by (auto simp: waiting_def settle_def split: option.split)
qed

lemma due_rows_empty: "n \<noteq> 0 \<Longrightarrow> due_rows t locked n w = [] \<longleftrightarrow> waiting t locked w = []"
  by (simp add: due_rows_def) (metis length_0_conv length_sort)

lemma tick_progress:
  assumes "inv w" "outbox_tick dv cfg t locked w = (delay, w')"
  shows "inv w' \<and> (\<exists>f. w_outbox w' = map (\<lambda>r. if r \<in> set (due_rows t locked 20 w)
       then settle t (f (ob_id r)) (ob_attempts r) r else r) (w_outbox w)
     \<and> (\<forall>r \<in> set (due_rows t locked 20 w). f (ob_id r) = None \<longrightarrow> published cfg r w')
     \<and> (\<forall>r. published cfg r w \<longrightarrow> published cfg r w'))
     \<and> (if waiting t locked w = [] then delay = 1500 else delay = 50)"
proof -
  obtain k w1 where b: "processBatch dv cfg t locked 20 w = (k, w1)" by fastforce
  from assms(1) b obtain f where f: "k = length (due_rows t locked 20 w)" "inv w1"
    "w_outbox w1 = map (\<lambda>r. if r \<in> set (due_rows t locked 20 w)
       then settle t (f (ob_id r)) (ob_attempts r) r else r) (w_outbox w)"
    "\<forall>r \<in> set (due_rows t locked 20 w). f (ob_id r) = None \<longrightarrow> published cfg r w1"
    "\<forall>r. published cfg r w \<longrightarrow> published cfg r w1"
    "(\<forall>r w. fst (outbox_handle dv cfg t r w) = Inr ()) \<longrightarrow> f = (\<lambda>_. None)"
    by (rule batch_settles)
  from tick_batch [OF b] assms(2) have d: "delivers w1 w'" by simp
  moreover have "if waiting t locked w = [] then delay = 1500 else delay = 50"
    using assms(2) b f(1) due_rows_empty [of 20 t locked w]
    by (auto simp: outbox_tick_def split: if_splits)
  ultimately show ?thesis
    using f(2-5) by (auto simp: delivers_def intro: delivers_published [OF d])
qed

lemma waiting_ids:
  assumes "inv w" "r \<in> set (w_outbox w)" "x \<in> set (w_outbox w)" "ob_id x = ob_id r"
  shows "x = r"
  using distinct_map_inj [OF outbox_ids [OF assms(1)] assms(3,2,4)] .

lemma until_idle_unfold:
  "while_option (\<lambda>(delay, w). delay \<noteq> 1500) (\<lambda>(delay, w). outbox_tick dv cfg t locked w) (delay, w) =
     (if delay = 1500 then Some (1500, w)
      else while_option (\<lambda>(delay, w). delay \<noteq> 1500) (\<lambda>(delay, w). outbox_tick dv cfg t locked w)
        (outbox_tick dv cfg t locked w))"
  by (subst while_option_unfold) simp

lemma idle_run:
  assumes "inv w" "delay \<noteq> 1500"
  shows "\<exists>w' f. while_option (\<lambda>(delay, w). delay \<noteq> 1500) (\<lambda>(delay, w). outbox_tick dv cfg t locked w) (delay, w)
        = Some (1500, w') \<and> inv w' \<and> waiting t locked w' = []
    \<and> w_outbox w' = map (\<lambda>r. if r \<in> set (waiting t locked w)
        then settle t (f (ob_id r)) (ob_attempts r) r else r) (w_outbox w)
    \<and> (\<forall>r \<in> set (waiting t locked w). f (ob_id r) = None \<longrightarrow> published cfg r w')
    \<and> (\<forall>r. published cfg r w \<longrightarrow> published cfg r w')"
  using assms
proof (induction "length (waiting t locked w)" arbitrary: w delay rule: less_induct)
  case less
  let ?upd = "\<lambda>S f. map (\<lambda>r. if r \<in> S then settle t (f (ob_id r)) (ob_attempts r) r else r)"
  let ?due = "set (due_rows t locked 20 w)"
  obtain d w1 where tick: "outbox_tick dv cfg t locked w = (d, w1)" by fastforce
  from tick_progress [OF less.prems(1) tick] obtain f1 where f1: "inv w1" "w_outbox w1 = ?upd ?due f1 (w_outbox w)"
    "\<forall>r \<in> ?due. f1 (ob_id r) = None \<longrightarrow> published cfg r w1" "\<forall>r. published cfg r w \<longrightarrow> published cfg r w1"
    "if waiting t locked w = [] then d = 1500 else d = 50" by auto
  have due: "?due \<subseteq> set (waiting t locked w)" "set (waiting t locked w) \<subseteq> set (w_outbox w)"
    by (rule due_rows_sub)+
  have w1: "waiting t locked w1 = filter (\<lambda>r. r \<notin> ?due) (waiting t locked w)"
    by (rule settled_not_waiting [OF f1(2)])
  show ?case
  proof (cases "waiting t locked w = []")
    case True
    with due f1 have "w_outbox w1 = w_outbox w" by (simp add: map_idI)
    with True f1 w1 less.prems(2) tick show ?thesis
      by (intro exI [of _ w1] exI [of _ f1]) (simp add: until_idle_unfold [of dv cfg t locked delay w]
          until_idle_unfold [of dv cfg t locked 1500 w1] map_idI)
  next
    case False
    with due_rows_empty [of 20 t locked w] have "?due \<noteq> {}" by simp
    then obtain r where "r \<in> ?due" using ex_in_conv by metis
    with due have "length (waiting t locked w1) < length (waiting t locked w)"
      unfolding w1 by (intro length_filter_less [of r]) auto
    from less.hyps [OF this f1(1), of 50] obtain w' f2 where f2:
      "while_option (\<lambda>(delay, w). delay \<noteq> 1500) (\<lambda>(delay, w). outbox_tick dv cfg t locked w) (50, w1) = Some (1500, w')"
      "inv w'" "waiting t locked w' = []"
      "w_outbox w' = ?upd (set (waiting t locked w1)) f2 (w_outbox w1)"
      "\<forall>r \<in> set (waiting t locked w1). f2 (ob_id r) = None \<longrightarrow> published cfg r w'"
      "\<forall>r. published cfg r w1 \<longrightarrow> published cfg r w'" by auto
    define f where "f i = (if i \<in> ob_id ` ?due then f1 i else f2 i)" for i
    have f: "f (ob_id r) = (if r \<in> ?due then f1 (ob_id r) else f2 (ob_id r))" if "r \<in> set (w_outbox w)" for r
      using that due waiting_ids [OF less.prems(1)] by (auto simp: f_def)
    have fin: "settle t x n r \<notin> set (waiting t locked w1)" if "r \<in> ?due" for x n r
      using that later_settled [of t x n r locked w1] by simp
    have "w_outbox w' = ?upd (set (waiting t locked w)) f (w_outbox w)"
      unfolding f2(4) f1(2) map_map using f fin due by (intro map_cong) (auto simp: w1)
    moreover have "f (ob_id r) = None \<longrightarrow> published cfg r w'" if "r \<in> set (waiting t locked w)" for r
      using that f [of r] f1(3) f2(5,6) due by (cases "r \<in> ?due") (auto simp: w1)
    moreover have "while_option (\<lambda>(delay, w). delay \<noteq> 1500) (\<lambda>(delay, w). outbox_tick dv cfg t locked w) (delay, w)
        = Some (1500, w')"
      using less.prems(2) f1(5) False tick f2(1) by (simp add: until_idle_unfold [of dv cfg t locked delay w])
    ultimately show ?thesis using f1(4) f2(2,3,6) by blast
  qed
qed

text \<open>A lost batch leaves the outbox as it was, so its rows are handled again.\<close>

lemma lost_batch_again:
  assumes "inv w"
  shows "w_outbox (lost_batch dv cfg t locked n k w) = w_outbox w"
    "waiting t' locked' (lost_batch dv cfg t locked n k w) = waiting t' locked' w"
    "published cfg r w \<Longrightarrow> published cfg r (lost_batch dv cfg t locked n k w)"
    "inv (lost_batch dv cfg t locked n k w)"
proof -
  let ?rows = "take k (due_rows t locked n w)"
  have sub: "set ?rows \<subseteq> set (w_outbox w)"
    using due_rows_sub set_take_subset by fast
  have dist: "distinct ?rows" using due_rows_distinct [OF assms] by simp
  from worker.process_rows_settles [OF outbox_ids [OF assms] sub dist, where cfg = cfg and cfga = cfg and dv = dv
      and t = t and ta = t] assms
  have *: "inv (process_rows (outbox_handle dv cfg t) cfg t ?rows w)"
    "published cfg r w \<longrightarrow> published cfg r (process_rows (outbox_handle dv cfg t) cfg t ?rows w)" by blast+
  show "w_outbox (lost_batch dv cfg t locked n k w) = w_outbox w"
    "waiting t' locked' (lost_batch dv cfg t locked n k w) = waiting t' locked' w"
    by (simp_all add: lost_batch_def waiting_def)
  show "published cfg r w \<Longrightarrow> published cfg r (lost_batch dv cfg t locked n k w)"
    using *(2) by (simp add: lost_batch_def published_def nats_isEnabled_def)
  show "inv (lost_batch dv cfg t locked n k w)"
    unfolding lost_batch_def by (rule inv_table [OF *(1)]) (rule inv_tables(7) [OF assms])
qed

text \<open>
  Two workers: the second skips the rows that the first has locked, so no row is in both
  batches and together they take at most what waits.
\<close>

lemma workers_disjoint:
  "set (due_rows t locked n w) \<inter> set (due_rows t' (\<lambda>i. \<exists>r \<in> set (due_rows t locked n w). ob_id r = i) n' w) = {}"
  using due_rows_sub(1) [of t' "\<lambda>i. \<exists>r \<in> set (due_rows t locked n w). ob_id r = i" n' w]
  by (auto simp: waiting_def)

section \<open>Properties\<close>



text \<open>
  losing the transaction of a batch loses no event: the outbox is as before, so the same
  rows are due for the next tick, which comes after three seconds; what was already
  published is published again, never forgotten.
\<close>

theorem lost_batch_retried:
  assumes "inv w" "\<not> wk_running lp"
  shows "case loop_tick dv cfg t locked (Some k) (lp, w) of (lp', w') \<Rightarrow>
    wk_timer lp' = Some 3000 \<and> \<not> wk_running lp' \<and> inv w' \<and> w_outbox w' = w_outbox w
    \<and> due_rows t' locked' n w' = due_rows t' locked' n w
    \<and> (\<forall>r. published cfg r w \<longrightarrow> published cfg r w')"
proof -
  let ?w = "lost_batch dv cfg t locked 20 k w"
  let ?m = "metrics_count cfg t ''OutboxLoopError'' 1 None ?w"
  note lost = lost_batch_again [OF assms(1), where dv = dv and cfg = cfg and t = t and locked = locked
      and n = 20 and k = k]
  have d: "delivers ?w ?m" by (rule delivers_metrics)
  have box: "w_outbox ?m = w_outbox w" using d lost(1) by (simp add: delivers_def)
  have "inv ?m" using d lost(4) by (simp add: delivers_def)
  moreover have "due_rows t' locked' n ?m = due_rows t' locked' n w"
    using box by (simp add: due_rows_def waiting_def)
  moreover have "published cfg r w \<Longrightarrow> published cfg r ?m" for r
    using delivers_published [OF d lost(3)] .
  ultimately show ?thesis using assms(2) box by (simp add: loop_tick_def)
qed

theorem lost_batch_retried_witness:
  "\<exists>lp' w'. loop_tick sample_delivery (default_config\<lparr>cf_natsEnabled := True\<rparr>) 10 (\<lambda>_. False) (Some 1)
      (\<lparr>wk_running = False, wk_timer = None\<rparr>, event_world) = (lp', w') \<and> w_outbox w' = [sample_event]"
proof -
  have "w_outbox event_world = [sample_event]" by (simp add: event_world_def)
  with lost_batch_retried [OF inv_event_world, of "\<lparr>wk_running = False, wk_timer = None\<rparr>",
      where dv = sample_delivery and cfg = "default_config\<lparr>cf_natsEnabled := True\<rparr>" and t = 10
        and locked = "\<lambda>_. False" and k = 1 and t' = 0 and locked' = "\<lambda>_. False" and n = 0]
  show ?thesis by (auto split: prod.splits)
qed

end
