(* ===== verification/Concurrency.thy ===== *)
theory Concurrency
  imports Invariants
begin

text \<open>
  Concurrent sends: the transaction of \<open>MessagesService.send\<close>
  (backend/src/modules/messages/messages.service.ts) as the sequence of its statements, and any
  number of such transactions interleaved.

  PostgreSQL runs them in its default isolation (READ COMMITTED): a statement sees what is
  committed when it starts; what a transaction has written itself becomes visible to others
  at its commit. \<open>SELECT ... FOR UPDATE\<close> waits for the transaction that holds the row and then
  reads the committed row; an insertion waits for a transaction whose uncommitted row has
  the same key. A \<open>phase\<close> holds what the transaction has read and written so far.

  The main result is that every interleaving equals the transactions of theory Messages
  run one after another, so what is proved there for \<open>send_tx\<close> holds for concurrent sends.
\<close>

section \<open>A transaction by statements\<close>

record job =
  jb_time :: int
  jb_entropy :: entropy
  jb_input :: send_input
  jb_scan :: scan_result
  jb_body :: stored_body

datatype phase =
    Start
  | Locked conv_row
  | Member conv_row
  | Fresh conv_row
  | Inserted conv_row msg_row
  | Listed conv_row msg_row "part_row list"
  | Received conv_row msg_row "part_row list"
  | Evented conv_row msg_row "part_row list"
  | Bumped conv_row msg_row "part_row list"
  | Finished "exn + msg_row"

definition job_msg :: "job \<Rightarrow> conv_row \<Rightarrow> msg_row" where
  "job_msg j c = new_message (jb_time j) (jb_entropy j) (jb_input j) (jb_scan j) (jb_body j) (cv_lastSequence c + 1)"

definition other_parts :: "job \<Rightarrow> part_row list \<Rightarrow> part_row list" where
  "other_parts j ps = filter (\<lambda>p. pt_userId p \<noteq> si_senderId (jb_input j)) ps"

definition job_event :: "job \<Rightarrow> conv_row \<Rightarrow> msg_row \<Rightarrow> part_row list \<Rightarrow> outbox_row" where
  "job_event j c m ps = new_outbox (jb_time j) (ry_outboxId (jb_entropy j)) ''message.created'' (cv_id c)
     (created_event (jb_input j) (jb_scan j) m (map pt_userId (other_parts j ps)))"

definition commit_send :: "job \<Rightarrow> conv_row \<Rightarrow> msg_row \<Rightarrow> part_row list \<Rightarrow> world \<Rightarrow> world" where
  "commit_send j c m ps w =
     (let receipts = map (\<lambda>p. \<lparr>rc_messageId = ms_id m, rc_userId = pt_userId p,
                               rc_deliveredAt = None, rc_readAt = None\<rparr>)
                       (filter (\<lambda>p. pt_leftAt p = None) (other_parts j ps));
          w1 = bumpLastMessage (jb_time j) (cv_id c) (ms_sequence m)
                 (w\<lparr>w_msgs := w_msgs w @ [m], w_receipts := fold save_receipt receipts (w_receipts w),
                    w_outbox := w_outbox w @ [job_event j c m ps]\<rparr>)
      in if sr_hadSensitive (jb_scan j)
         then audit_log (mk_audit (si_senderId (jb_input j)) ''message.sensitive_redacted'' ''message'' (ms_id m)
                (Some [(''flags'', JArr (sr_flags (jb_scan j))),
                       (''score'', JNum (int (sr_score10 (jb_scan j))))])) w1
         else w1)"

text \<open>One statement with the code up to the next, on the committed tables.\<close>

fun advance :: "job \<Rightarrow> world \<Rightarrow> phase \<Rightarrow> phase \<times> world" where
  "advance j w Start =
     (case find (\<lambda>c. cv_id c = si_conversationId (jb_input j)) (w_convs w) of
        None \<Rightarrow> (Finished (Inl (NotFound ''Conversation introuvable'')), w)
      | Some c \<Rightarrow>
          if cv_e2eeEnabled c then (Finished (Inl e2ee_refusal), w)
          else (case assertCanWrite c of
                  Inl e \<Rightarrow> (Finished (Inl e), w)
                | Inr _ \<Rightarrow> (Locked c, w)))"
| "advance j w (Locked c) =
     (case find (\<lambda>p. pt_conversationId p = cv_id c \<and> pt_userId p = si_senderId (jb_input j)) (w_parts w) of
        None \<Rightarrow> (Finished (Inl (Forbidden (''Vous n'' @ [CHR 0x27] @ [CHR 0xEA] @ ''tes pas participant''))), w)
      | Some p \<Rightarrow>
          if pt_leftAt p \<noteq> None
          then (Finished (Inl (Forbidden (''Vous n'' @ [CHR 0x27] @ [CHR 0xEA] @ ''tes pas participant''))), w)
          else (Member c, w))"
| "advance j w (Member c) =
     (case find_replay (jb_input j) w of
        Some m \<Rightarrow> (Finished (Inr m), w)
      | None \<Rightarrow> (Fresh c, w))"
| "advance j w (Fresh c) =
     (if column_too_long (job_msg j c) then (Finished (Inl (DbError ''22001'')), w)
      else (case insert_row msg_clash (job_msg j c) (w_msgs w) of
              Inl e \<Rightarrow> (Finished (Inl e), w)
            | Inr _ \<Rightarrow> (Inserted c (job_msg j c), w)))"
| "advance j w (Inserted c m) = (Listed c m (listParticipants (cv_id c) w), w)"
| "advance j w (Listed c m ps) = (Received c m ps, w)"
| "advance j w (Received c m ps) =
     (case insert_row outbox_clash (job_event j c m ps) (w_outbox w) of
        Inl e \<Rightarrow> (Finished (Inl e), w)
      | Inr _ \<Rightarrow> (Evented c m ps, w))"
| "advance j w (Evented c m ps) = (Bumped c m ps, w)"
| "advance j w (Bumped c m ps) = (Finished (Inr m), commit_send j c m ps w)"
| "advance j w (Finished r) = (Finished r, w)"

section \<open>Waiting for other transactions\<close>

fun locked_conv :: "phase \<Rightarrow> conv_row option" where
  "locked_conv Start = None"
| "locked_conv (Locked c) = Some c"
| "locked_conv (Member c) = Some c"
| "locked_conv (Fresh c) = Some c"
| "locked_conv (Inserted c m) = Some c"
| "locked_conv (Listed c m ps) = Some c"
| "locked_conv (Received c m ps) = Some c"
| "locked_conv (Evented c m ps) = Some c"
| "locked_conv (Bumped c m ps) = Some c"
| "locked_conv (Finished r) = None"

fun pending_msg :: "phase \<Rightarrow> msg_row option" where
  "pending_msg (Inserted c m) = Some m"
| "pending_msg (Listed c m ps) = Some m"
| "pending_msg (Received c m ps) = Some m"
| "pending_msg (Evented c m ps) = Some m"
| "pending_msg (Bumped c m ps) = Some m"
| "pending_msg _ = None"

fun pending_event :: "job \<Rightarrow> phase \<Rightarrow> outbox_row option" where
  "pending_event j (Evented c m ps) = Some (job_event j c m ps)"
| "pending_event j (Bumped c m ps) = Some (job_event j c m ps)"
| "pending_event j _ = None"

definition waits_for :: "job \<Rightarrow> phase \<Rightarrow> job \<Rightarrow> phase \<Rightarrow> bool" where
  "waits_for j ph j' ph' =
     (case ph of
        Start \<Rightarrow> (case locked_conv ph' of Some c \<Rightarrow> cv_id c = si_conversationId (jb_input j) | None \<Rightarrow> False)
      | Fresh c \<Rightarrow> (case pending_msg ph' of Some m \<Rightarrow> msg_clash m (job_msg j c) | None \<Rightarrow> False)
      | Received c m ps \<Rightarrow>
          (case pending_event j' ph' of Some ev \<Rightarrow> outbox_clash ev (job_event j c m ps) | None \<Rightarrow> False)
      | _ \<Rightarrow> False)"

fun finished :: "phase \<Rightarrow> bool" where
  "finished (Finished r) = True"
| "finished _ = False"

inductive send_step :: "job list \<Rightarrow> world \<times> phase list \<Rightarrow> world \<times> phase list \<Rightarrow> bool" for js where
  Statement: "i < length ps \<Longrightarrow> length ps = length js \<Longrightarrow> \<not> finished (ps ! i) \<Longrightarrow>
    (\<And>k. k < length ps \<Longrightarrow> k \<noteq> i \<Longrightarrow> \<not> waits_for (js ! i) (ps ! i) (js ! k) (ps ! k)) \<Longrightarrow>
    advance (js ! i) w (ps ! i) = (ph, w') \<Longrightarrow>
    send_step js (w, ps) (w', ps[i := ph])"

inductive_cases send_stepE: "send_step js s s'"

definition starts :: "job list \<Rightarrow> phase list" where
  "starts js = replicate (length js) Start"

section \<open>One after another\<close>

definition atomic_send :: "job \<Rightarrow> world \<Rightarrow> (world, msg_row) res" where
  "atomic_send j = transact (send_tx (jb_time j) (jb_entropy j) (jb_input j) (jb_scan j) (jb_body j))"

fun serial :: "job list \<Rightarrow> nat list \<Rightarrow> world \<Rightarrow> (nat \<times> (exn + msg_row)) list \<times> world" where
  "serial js [] w = ([], w)"
| "serial js (i # is) w =
     (let (r, w1) = atomic_send (js ! i) w; (rs, w2) = serial js is w1 in ((i, r) # rs, w2))"

lemma serial_snoc:
  "serial js (is @ [i]) w =
     (case serial js is w of (rs, w1) \<Rightarrow> (case atomic_send (js ! i) w1 of (r, w2) \<Rightarrow> (rs @ [(i, r)], w2)))"
  by (induction "is" arbitrary: w) (auto split: prod.splits)

section \<open>What a transaction knows\<close>

text \<open>What it has read still holds in the committed tables, and what it has written clashes with none.\<close>

definition has_read :: "job \<Rightarrow> world \<Rightarrow> conv_row \<Rightarrow> bool" where
  "has_read j w c \<longleftrightarrow> find (\<lambda>c. cv_id c = si_conversationId (jb_input j)) (w_convs w) = Some c
     \<and> \<not> cv_e2eeEnabled c \<and> assertCanWrite c = Inr ()"

definition is_member :: "job \<Rightarrow> world \<Rightarrow> conv_row \<Rightarrow> bool" where
  "is_member j w c \<longleftrightarrow> has_read j w c
     \<and> (\<exists>p. find (\<lambda>p. pt_conversationId p = cv_id c \<and> pt_userId p = si_senderId (jb_input j)) (w_parts w) = Some p
          \<and> pt_leftAt p = None)"

definition is_fresh :: "job \<Rightarrow> world \<Rightarrow> conv_row \<Rightarrow> bool" where
  "is_fresh j w c \<longleftrightarrow> is_member j w c \<and> find_replay (jb_input j) w = None"

definition has_inserted :: "job \<Rightarrow> world \<Rightarrow> conv_row \<Rightarrow> msg_row \<Rightarrow> bool" where
  "has_inserted j w c m \<longleftrightarrow> is_fresh j w c \<and> m = job_msg j c \<and> \<not> column_too_long m
     \<and> (\<forall>x \<in> set (w_msgs w). \<not> msg_clash x m)"

definition has_event :: "job \<Rightarrow> world \<Rightarrow> conv_row \<Rightarrow> msg_row \<Rightarrow> part_row list \<Rightarrow> bool" where
  "has_event j w c m ps \<longleftrightarrow> has_inserted j w c m \<and> ps = listParticipants (cv_id c) w
     \<and> (\<forall>x \<in> set (w_outbox w). \<not> outbox_clash x (job_event j c m ps))"

fun phase_ok :: "job \<Rightarrow> world \<Rightarrow> phase \<Rightarrow> bool" where
  "phase_ok j w Start = True"
| "phase_ok j w (Locked c) = has_read j w c"
| "phase_ok j w (Member c) = is_member j w c"
| "phase_ok j w (Fresh c) = is_fresh j w c"
| "phase_ok j w (Inserted c m) = has_inserted j w c m"
| "phase_ok j w (Listed c m ps) = (has_inserted j w c m \<and> ps = listParticipants (cv_id c) w)"
| "phase_ok j w (Received c m ps) = (has_inserted j w c m \<and> ps = listParticipants (cv_id c) w)"
| "phase_ok j w (Evented c m ps) = has_event j w c m ps"
| "phase_ok j w (Bumped c m ps) = has_event j w c m ps"
| "phase_ok j w (Finished r) = True"

lemmas knows_defs = has_read_def is_member_def is_fresh_def has_inserted_def has_event_def

lemma advance_keeps:
  assumes "phase_ok j w ph" "advance j w ph = (ph', w')" "\<not> finished ph'"
  shows "w' = w \<and> phase_ok j w ph'"
  using assms
  by (cases ph) (auto simp: knows_defs split: option.splits if_splits sum.splits dest!: insert_row_InrD)

lemma advance_finishes:
  assumes "phase_ok j w ph" "\<not> finished ph" "advance j w ph = (Finished r, w')"
  shows "atomic_send j w = (r, w')"
proof (cases ph)
  case Start
  with assms(3) show ?thesis
    by (auto simp: atomic_send_def transact_def send_tx_def split: option.splits if_splits sum.splits)
next
  case (Locked c)
  with assms show ?thesis
    by (auto simp: atomic_send_def transact_def send_tx_def has_read_def split: option.splits if_splits)
next
  case (Member c)
  with assms show ?thesis
    by (auto simp: atomic_send_def transact_def send_tx_def knows_defs split: option.splits if_splits)
next
  case (Fresh c)
  with assms show ?thesis
    by (auto simp: atomic_send_def transact_def send_tx_def knows_defs store_message_def Let_def job_msg_def
        split: option.splits if_splits sum.splits)
next
  case (Received c m ps)
  with assms show ?thesis
    by (auto simp: atomic_send_def transact_def send_tx_def knows_defs store_message_def Let_def job_msg_def
        job_event_def other_parts_def insert_row_Inr split: option.splits if_splits sum.splits)
next
  case (Bumped c m ps)
  with assms show ?thesis
    by (auto simp: atomic_send_def transact_def send_tx_def knows_defs store_message_def Let_def job_msg_def
        job_event_def other_parts_def commit_send_def insert_row_Inr split: option.splits if_splits sum.splits)
qed (use assms in auto)

lemma commit_send_tables:
  "w_msgs (commit_send j c m ps w) = w_msgs w @ [m]"
  "w_outbox (commit_send j c m ps w) = w_outbox w @ [job_event j c m ps]"
  "w_parts (commit_send j c m ps w) = w_parts w"
  "w_convs (commit_send j c m ps w) = update_rows (\<lambda>x. cv_id x = cv_id c)
     (\<lambda>x. x\<lparr>cv_lastMessageAt := Some (jb_time j), cv_lastSequence := ms_sequence m\<rparr>) (w_convs w)"
  by (simp_all add: commit_send_def Let_def bumpLastMessage_def audit_log_def)

section \<open>Transactions side by side\<close>

definition compat :: "job \<Rightarrow> phase \<Rightarrow> job \<Rightarrow> phase \<Rightarrow> bool" where
  "compat j ph j' ph' \<longleftrightarrow>
     (\<forall>c c'. locked_conv ph = Some c \<longrightarrow> locked_conv ph' = Some c' \<longrightarrow> cv_id c \<noteq> cv_id c')
     \<and> (\<forall>m m'. pending_msg ph = Some m \<longrightarrow> pending_msg ph' = Some m' \<longrightarrow> \<not> msg_clash m m')
     \<and> (\<forall>e e'. pending_event j ph = Some e \<longrightarrow> pending_event j' ph' = Some e' \<longrightarrow> \<not> outbox_clash e e')"

lemma msg_clash_sym: "msg_clash x y \<Longrightarrow> msg_clash y x"
  by (auto simp: msg_clash_def)

lemma outbox_clash_sym: "outbox_clash x y \<Longrightarrow> outbox_clash y x"
  by (auto simp: outbox_clash_def)

lemma compat_sym: "compat j ph j' ph' \<Longrightarrow> compat j' ph' j ph"
  unfolding compat_def using msg_clash_sym outbox_clash_sym by metis

lemma compat_idle: "locked_conv ph = None \<Longrightarrow> compat j ph j' ph'"
  by (cases ph) (auto simp: compat_def)

lemma has_read_id: "has_read j w c \<Longrightarrow> cv_id c = si_conversationId (jb_input j)"
  by (auto simp: has_read_def dest: find_SomeD)

lemma commit_has_read:
  assumes "has_read j' w c'" "cv_id c \<noteq> cv_id c'"
  shows "has_read j' (commit_send j c m ps w) c'"
proof -
  let ?f = "\<lambda>x. x\<lparr>cv_lastMessageAt := Some (jb_time j), cv_lastSequence := ms_sequence m\<rparr>"
  have "find (\<lambda>x. cv_id x = i) (update_rows (\<lambda>x. cv_id x = cv_id c) ?f (w_convs w)) =
      map_option (\<lambda>x. if cv_id x = cv_id c then ?f x else x) (find (\<lambda>x. cv_id x = i) (w_convs w))" for i
    by (rule find_update_rows) simp
  with assms show ?thesis by (auto simp: has_read_def commit_send_tables)
qed

lemma commit_is_fresh:
  assumes "is_fresh j' w c'" "cv_id c \<noteq> cv_id c'" "ms_conversationId m = cv_id c"
  shows "is_fresh j' (commit_send j c m ps w) c'"
proof -
  have r: "has_read j' w c'" using assms(1) by (simp add: is_fresh_def is_member_def)
  have "find_replay (jb_input j') (commit_send j c m ps w) = None"
    using assms has_read_id [OF r]
    by (auto simp: is_fresh_def find_replay_def commit_send_tables find_append split: if_splits)
  with assms commit_has_read [OF r assms(2)] show ?thesis
    by (auto simp: is_fresh_def is_member_def commit_send_tables)
qed

lemma commit_keeps:
  assumes "phase_ok j w (Bumped c m ps)" "phase_ok j' w ph'" "compat j (Bumped c m ps) j' ph'"
  shows "phase_ok j' (commit_send j c m ps w) ph'"
proof -
  have c: "ms_conversationId m = cv_id c"
    using assms(1) has_read_id [of j w c]
    by (simp add: has_event_def has_inserted_def is_fresh_def is_member_def job_msg_def new_message_def)
  have read: "is_member j' (commit_send j c m ps w) c'"
    if "is_member j' w c'" "cv_id c \<noteq> cv_id c'" for c'
    using that commit_has_read [of j' w c' c j m ps] by (auto simp: is_member_def commit_send_tables)
  have parts: "listParticipants i (commit_send j c m ps w) = listParticipants i w" for i
    by (simp add: listParticipants_def commit_send_tables)
  have ins: "has_inserted j' (commit_send j c m ps w) c' m'"
    if "has_inserted j' w c' m'" "cv_id c \<noteq> cv_id c'" "\<not> msg_clash m m'" for c' m'
    using that commit_is_fresh [of j' w c' c m j ps, OF _ _ c]
    by (auto simp: has_inserted_def commit_send_tables)
  have ev: "has_event j' (commit_send j c m ps w) c' m' ps'"
    if "has_event j' w c' m' ps'" "cv_id c \<noteq> cv_id c'" "\<not> msg_clash m m'"
      "\<not> outbox_clash (job_event j c m ps) (job_event j' c' m' ps')" for c' m' ps'
    using that ins [of c' m'] parts by (auto simp: has_event_def commit_send_tables)
  show ?thesis
  proof (cases "locked_conv ph'")
    case None
    then show ?thesis by (cases ph') simp_all
  next
    case (Some c')
    with assms(3) have ne: "cv_id c \<noteq> cv_id c'"
      and msg: "pending_msg ph' = Some m' \<Longrightarrow> \<not> msg_clash m m'"
      and event: "pending_event j' ph' = Some e' \<Longrightarrow> \<not> outbox_clash (job_event j c m ps) e'" for m' e'
      by (simp_all add: compat_def)
    note known = commit_has_read [of j' w c' c j m ps, OF _ ne] read [OF _ ne]
      commit_is_fresh [of j' w c' c m j ps, OF _ ne c] ins [OF _ ne] ev [OF _ ne]
    show ?thesis
      using assms(2) Some known msg event parts by (cases ph') simp_all
  qed
qed

lemma advance_compat:
  assumes "phase_ok j w ph" "advance j w ph = (ph', w')" "compat j ph j' q" "\<not> waits_for j ph j' q"
  shows "compat j ph' j' q"
proof (cases ph)
  case Start
  show ?thesis
  proof (cases "locked_conv ph'")
    case (Some c)
    with Start assms(2) have "ph' = Locked c" "cv_id c = si_conversationId (jb_input j)"
      by (auto split: option.splits if_splits sum.splits dest: find_SomeD)
    with assms(4) Start show ?thesis by (auto simp: compat_def waits_for_def)
  qed (rule compat_idle)
next
  case (Fresh c)
  with assms show ?thesis
    using msg_clash_sym by (fastforce simp: compat_def waits_for_def split: if_splits sum.splits)
next
  case (Received c m ps)
  with assms show ?thesis
    using outbox_clash_sym by (fastforce simp: compat_def waits_for_def split: sum.splits)
qed (use assms in \<open>auto simp: compat_def split: option.splits if_splits\<close>)

section \<open>Runs\<close>

definition pool_ok :: "job list \<Rightarrow> world \<times> phase list \<Rightarrow> bool" where
  "pool_ok js s \<longleftrightarrow> length (snd s) = length js
     \<and> (\<forall>i < length js. phase_ok (js ! i) (fst s) (snd s ! i))
     \<and> (\<forall>i < length js. \<forall>k < length js. i \<noteq> k \<longrightarrow> compat (js ! i) (snd s ! i) (js ! k) (snd s ! k))"

definition explained :: "job list \<Rightarrow> world \<Rightarrow> world \<times> phase list \<Rightarrow> bool" where
  "explained js w0 s \<longleftrightarrow> (\<exists>order rs. distinct order \<and> serial js order w0 = (rs, fst s) \<and> map fst rs = order
     \<and> (\<forall>i r. (i, r) \<in> set rs \<longleftrightarrow> i < length js \<and> snd s ! i = Finished r))"

lemma advance_world:
  assumes "phase_ok j w ph" "advance j w ph = (ph', w')"
  shows "w' = w \<or> (\<exists>c m ps. ph = Bumped c m ps \<and> w' = commit_send j c m ps w)"
  using assms by (cases ph) (auto split: option.splits if_splits sum.splits)

lemma step_pool_ok:
  assumes "send_step js s s'" "pool_ok js s"
  shows "pool_ok js s'"
  using assms(1)
proof cases
  case (Statement i ps w ph w')
  from assms(2) Statement(1) have ok: "length ps = length js" "\<And>k. k < length js \<Longrightarrow> phase_ok (js ! k) w (ps ! k)"
    "\<And>k l. k < length js \<Longrightarrow> l < length js \<Longrightarrow> k \<noteq> l \<Longrightarrow> compat (js ! k) (ps ! k) (js ! l) (ps ! l)"
    by (simp_all add: pool_ok_def)
  have i: "i < length js" using Statement by simp
  have new: "phase_ok (js ! i) w' ph"
    using advance_keeps [OF ok(2) [OF i] Statement(7)] by (cases "finished ph") (auto elim: finished.elims)
  have old: "phase_ok (js ! k) w' (ps ! k)" if "k < length js" "k \<noteq> i" for k
    using advance_world [OF ok(2) [OF i] Statement(7)] commit_keeps [of "js ! i" w] ok(2) [OF i] ok(2) [OF that(1)]
      ok(3) [OF i that(1)] that(2) by metis
  have "compat (js ! i) ph (js ! k) (ps ! k)" if "k < length js" "k \<noteq> i" for k
    using advance_compat [OF ok(2) [OF i] Statement(7) ok(3) [OF i that(1)]] Statement(6) that ok(1) by auto
  then have "compat (js ! k) (ps[i := ph] ! k) (js ! l) (ps[i := ph] ! l)"
    if "k < length js" "l < length js" "k \<noteq> l" for k l
    using that ok compat_sym by (cases "k = i"; cases "l = i") auto
  moreover have "phase_ok (js ! k) w' (ps[i := ph] ! k)" if "k < length js" for k
    using that new old ok(1) by (cases "k = i") auto
  ultimately show ?thesis
    using ok(1) Statement(2) by (simp add: pool_ok_def)
qed

lemma step_explained:
  assumes "send_step js s s'" "pool_ok js s" "explained js w0 s"
  shows "explained js w0 s'"
  using assms(1)
proof cases
  case (Statement i ps w ph w')
  have i: "i < length js" "length ps = length js" and ok: "phase_ok (js ! i) w (ps ! i)"
    using Statement assms(2) by (auto simp: pool_ok_def)
  from assms(3) Statement(1) obtain order rs where o: "distinct order" "serial js order w0 = (rs, w)"
    "map fst rs = order" "\<And>k r. (k, r) \<in> set rs \<longleftrightarrow> k < length js \<and> ps ! k = Finished r"
    by (auto simp: explained_def)
  show ?thesis
  proof (cases "finished ph")
    case False
    with advance_keeps [OF ok Statement(7)] have "w' = w" by simp
    moreover have "k < length js \<and> ps ! k = Finished r \<longleftrightarrow> k < length js \<and> ps[i := ph] ! k = Finished r" for k r
      using False Statement(5) i by (cases "k = i") auto
    ultimately show ?thesis using o Statement(2) by (auto simp: explained_def)
  next
    case True
    then obtain r where r: "ph = Finished r" by (cases ph) auto
    have at: "atomic_send (js ! i) w = (r, w')"
      using advance_finishes [OF ok Statement(5)] Statement(7) r by simp
    have "i \<notin> set order"
    proof
      assume "i \<in> set order"
      then obtain q where "(i, q) \<in> set rs" using o(3) by force
      with o(4) Statement(5) show False by simp
    qed
    moreover have "(k, q) \<in> set (rs @ [(i, r)]) \<longleftrightarrow> k < length js \<and> ps[i := ph] ! k = Finished q" for k q
      using o(4) [of k q] r i Statement(5) by (cases "k = i") auto
    moreover have "serial js (order @ [i]) w0 = (rs @ [(i, r)], w')"
      using o(2) at by (simp add: serial_snoc)
    moreover have "map fst (rs @ [(i, r)]) = order @ [i]" using o(3) by simp
    ultimately have "distinct (order @ [i]) \<and> serial js (order @ [i]) w0 = (rs @ [(i, r)], w')
        \<and> map fst (rs @ [(i, r)]) = order @ [i]
        \<and> (\<forall>k q. (k, q) \<in> set (rs @ [(i, r)]) \<longleftrightarrow> k < length js \<and> ps[i := ph] ! k = Finished q)"
      using o(1) by (simp only: distinct_append) simp
    then show ?thesis unfolding explained_def Statement(2) fst_conv snd_conv by blast
  qed
qed

lemma run_ok:
  assumes "(send_step js)\<^sup>*\<^sup>* (w0, starts js) s"
  shows "pool_ok js s \<and> explained js w0 s"
  using assms
proof induction
  case base
  show ?case by (auto simp: pool_ok_def explained_def starts_def compat_def intro: exI [of _ "[]"])
next
  case (step s s')
  with step_pool_ok step_explained show ?case by blast
qed

lemma serial_inv:
  assumes "schema_ok w" "seq_ok w"
  shows "schema_ok (snd (serial js order w)) \<and> seq_ok (snd (serial js order w))"
  using assms
proof (induction order arbitrary: w)
  case (Cons i order)
  obtain r w1 where at: "atomic_send (js ! i) w = (r, w1)" by fastforce
  have "schema_ok w1 \<and> seq_ok w1"
  proof (cases r)
    case (Inl e)
    with at have "w1 = w" by (auto simp: atomic_send_def dest: transact_InlD)
    with Cons.prems show ?thesis by simp
  next
    case (Inr m)
    with at have "send_tx (jb_time (js ! i)) (jb_entropy (js ! i)) (jb_input (js ! i)) (jb_scan (js ! i))
        (jb_body (js ! i)) w = Inr (m, w1)"
      by (auto simp: atomic_send_def dest: transact_InrD)
    then show ?thesis
    proof (rule send_tx_Inr)
      fix conv part
      assume "conv \<in> set (w_convs w)" "cv_id conv = si_conversationId (jb_input (js ! i))"
        "find_replay (jb_input (js ! i)) w = Some m \<and> w1 = w
         \<or> find_replay (jb_input (js ! i)) w = None \<and> store_message (jb_time (js ! i)) (jb_entropy (js ! i))
             (jb_input (js ! i)) (jb_scan (js ! i)) (jb_body (js ! i)) conv w = Inr (m, w1)"
      with Cons.prems show ?thesis using store_message_inv [OF Cons.prems] by blast
    qed
  qed
  with Cons.IH [of w1] at show ?case by (simp split: prod.splits) (metis snd_conv)
qed simp

section \<open>Progress\<close>

fun statements_left :: "phase \<Rightarrow> nat" where
  "statements_left Start = 9"
| "statements_left (Locked c) = 8"
| "statements_left (Member c) = 7"
| "statements_left (Fresh c) = 6"
| "statements_left (Inserted c m) = 5"
| "statements_left (Listed c m ps) = 4"
| "statements_left (Received c m ps) = 3"
| "statements_left (Evented c m ps) = 2"
| "statements_left (Bumped c m ps) = 1"
| "statements_left (Finished r) = 0"

definition new_ids :: "job list \<Rightarrow> bool" where
  "new_ids js \<longleftrightarrow> distinct (map (\<lambda>j. ry_msgId (jb_entropy j)) js) \<and> distinct (map (\<lambda>j. ry_outboxId (jb_entropy j)) js)"

lemma advance_less: "\<not> finished ph \<Longrightarrow> advance j w ph = (ph', w') \<Longrightarrow> statements_left ph' < statements_left ph"
  by (cases ph) (auto split: option.splits if_splits sum.splits)

lemma step_less:
  assumes "send_step js s s'"
  shows "sum_list (map statements_left (snd s')) < sum_list (map statements_left (snd s))"
  using assms
proof cases
  case (Statement i ps w ph w')
  have "map statements_left (ps[i := ph]) = (map statements_left ps)[i := statements_left ph]"
    by (rule map_update)
  moreover have "statements_left (ps ! i) \<le> sum_list (map statements_left ps)"
    using Statement(3) by (intro member_le_sum_list) auto
  ultimately show ?thesis
    using Statement advance_less [OF Statement(5,7)] by (simp add: sum_list_update)
qed

lemma waits_for_other_only:
  assumes "new_ids js" "pool_ok js (w, ps)" "i < length js" "k < length js" "i \<noteq> k"
    and "waits_for (js ! i) (ps ! i) (js ! k) (ps ! k)"
  shows "ps ! i = Start \<and> locked_conv (ps ! k) \<noteq> None"
proof -
  have ids: "ry_msgId (jb_entropy (js ! i)) \<noteq> ry_msgId (jb_entropy (js ! k))"
    "ry_outboxId (jb_entropy (js ! i)) \<noteq> ry_outboxId (jb_entropy (js ! k))"
    using assms(1,3-5) nth_eq_iff_index_eq [of "map (\<lambda>j. ry_msgId (jb_entropy j)) js" i k]
      nth_eq_iff_index_eq [of "map (\<lambda>j. ry_outboxId (jb_entropy j)) js" i k]
    by (simp_all add: new_ids_def)
  from assms(2-5) have ok: "phase_ok (js ! i) w (ps ! i)" "phase_ok (js ! k) w (ps ! k)"
    "compat (js ! i) (ps ! i) (js ! k) (ps ! k)"
    by (simp_all add: pool_ok_def)
  show ?thesis
  proof (cases "ps ! i")
    case Start
    with assms(6) show ?thesis by (simp add: waits_for_def split: option.splits)
  next
    case (Fresh c)
    with assms(6) obtain m where m: "pending_msg (ps ! k) = Some m" "msg_clash m (job_msg (js ! i) c)"
      by (auto simp: waits_for_def split: option.splits)
    then obtain c' where c': "locked_conv (ps ! k) = Some c'" "has_inserted (js ! k) w c' m"
      using ok(2) by (cases "ps ! k") (auto simp: has_event_def)
    then have "m = job_msg (js ! k) c'" "cv_id c' = si_conversationId (jb_input (js ! k))"
      using has_read_id [of "js ! k" w c'] by (simp_all add: has_inserted_def is_fresh_def is_member_def)
    moreover have "cv_id c = si_conversationId (jb_input (js ! i))"
      using ok(1) Fresh has_read_id [of "js ! i" w c] by (simp add: is_fresh_def is_member_def)
    moreover have "cv_id c \<noteq> cv_id c'" using ok(3) Fresh c'(1) by (simp add: compat_def)
    ultimately have False
      using m(2) ids(1) by (simp add: msg_clash_def job_msg_def new_message_def)
    then show ?thesis ..
  next
    case (Received c m ps')
    with assms(6) ids(2) have False
      by (cases "ps ! k") (auto simp: waits_for_def outbox_clash_def job_event_def new_outbox_def)
    then show ?thesis ..
  qed (use assms(6) in \<open>simp_all add: waits_for_def\<close>)
qed

lemma some_step:
  assumes "new_ids js" "pool_ok js (w, ps)" "k < length js" "\<not> finished (ps ! k)"
  shows "\<exists>s. send_step js (w, ps) s"
proof -
  have go: "\<exists>s. send_step js (w, ps) s"
    if "i < length js" "\<not> finished (ps ! i)" "ps ! i = Start \<Longrightarrow> \<forall>k < length js. locked_conv (ps ! k) = None" for i
  proof -
    obtain ph w' where "advance (js ! i) w (ps ! i) = (ph, w')" by fastforce
    moreover have "\<not> waits_for (js ! i) (ps ! i) (js ! k) (ps ! k)" if "k < length ps" "k \<noteq> i" for k
      using waits_for_other_only [OF assms(1,2) \<open>i < length js\<close>, of k] that assms(2) \<open>ps ! i = Start \<Longrightarrow> _\<close>
      by (auto simp: pool_ok_def)
    ultimately show ?thesis
      using that(1,2) assms(2) Statement [of i ps js w ph w'] by (auto simp: pool_ok_def)
  qed
  show ?thesis
  proof (cases "\<forall>k < length js. locked_conv (ps ! k) = None")
    case True
    with go [OF assms(3,4)] show ?thesis by blast
  next
    case False
    then obtain i where "i < length js" "locked_conv (ps ! i) \<noteq> None" by blast
    with go [of i] show ?thesis by (cases "ps ! i") auto
  qed
qed

lemma steps_bound:
  "(send_step js ^^ n) s s' \<Longrightarrow> sum_list (map statements_left (snd s')) + n \<le> sum_list (map statements_left (snd s))"
proof (induction n arbitrary: s')
  case (Suc n)
  then obtain s1 where "(send_step js ^^ n) s s1" "send_step js s1 s'" by auto
  with Suc.IH [of s1] step_less [of js s1 s'] show ?case by simp
qed simp

lemma complete_run:
  assumes "new_ids js" "pool_ok js s"
  shows "\<exists>s'. (send_step js)\<^sup>*\<^sup>* s s' \<and> (\<forall>i < length js. finished (snd s' ! i))"
  using assms(2)
proof (induction "sum_list (map statements_left (snd s))" arbitrary: s rule: less_induct)
  case less
  show ?case
  proof (cases "\<forall>i < length js. finished (snd s ! i)")
    case False
    then obtain i where "i < length js" "\<not> finished (snd s ! i)" by blast
    with some_step [OF assms(1), of "fst s" "snd s" i] less.prems obtain s1 where s1: "send_step js s s1" by auto
    from less.hyps [OF step_less [OF s1] step_pool_ok [OF s1 less.prems]] s1 show ?thesis
      by (meson converse_rtranclp_into_rtranclp)
  qed blast
qed

section \<open>Properties\<close>


definition sample_job :: "uuid \<Rightarrow> uuid \<Rightarrow> uuid \<Rightarrow> string \<Rightarrow> job" where
  "sample_job u i b s = \<lparr>jb_time = 20, jb_entropy = sample_entropy\<lparr>ry_msgId := i, ry_outboxId := b\<rparr>,
     jb_input = sample_input u s None, jb_scan = scan s,
     jb_body = \<lparr>sb_plain = Some s, sb_ciphertext = None, sb_iv = None, sb_tag = None, sb_dekId = None, sb_alg = None\<rparr>\<rparr>"

definition sample_jobs :: "job list" where
  "sample_jobs = [sample_job u_alice ''m1'' ''b1'' ''salut'', sample_job u_bob ''m2'' ''b2'' ''bonjour'']"

lemma sample_new_ids: "new_ids sample_jobs"
  by (simp add: new_ids_def sample_jobs_def sample_job_def)




end
