(* ===== verification/Migrations.thy ===== *)
theory Migrations
  imports World
begin

text \<open>
  The database schema: the four migrations of backend/src/database/migrations as data, and
  an interpreter of the DDL statements they use.

  A schema is the list of its extensions, tables and indexes. \<open>apply_ddl\<close> is PostgreSQL's
  reading of one statement; it is undefined (\<open>None\<close>) where the statement fails: a table,
  column or index that exists already or does not exist, a reference to a table that does not
  exist, and \<open>SET NOT NULL\<close> on a column that holds a null, which is the one thing a statement
  here needs to know of the stored rows. A migration runs in a transaction, so its failure
  leaves the schema as it was.
\<close>

section \<open>Data definition\<close>

datatype sql_type =
    T_uuid | T_text | T_citext | T_varchar nat | T_boolean | T_timestamptz | T_integer
  | T_bigint | T_real | T_jsonb | T_inet | T_bytea

datatype on_delete = On_restrict | On_cascade | On_set_null

record column =
  cl_name :: string
  cl_type :: sql_type
  cl_notNull :: bool
  cl_unique :: bool
  cl_default :: "string option"
  cl_references :: "(string \<times> on_delete) option"
  cl_check :: "string list option"

definition col :: "string \<Rightarrow> sql_type \<Rightarrow> column" where
  "col n ty = \<lparr>cl_name = n, cl_type = ty, cl_notNull = False, cl_unique = False,
               cl_default = None, cl_references = None, cl_check = None\<rparr>"

definition not_null :: "column \<Rightarrow> column" where
  "not_null c = c\<lparr>cl_notNull := True\<rparr>"

definition uniq :: "column \<Rightarrow> column" where
  "uniq c = c\<lparr>cl_unique := True\<rparr>"

definition dflt :: "string \<Rightarrow> column \<Rightarrow> column" where
  "dflt d c = c\<lparr>cl_default := Some d\<rparr>"

definition refs_to :: "string \<Rightarrow> on_delete \<Rightarrow> column \<Rightarrow> column" where
  "refs_to t od c = c\<lparr>cl_references := Some (t, od)\<rparr>"

definition check_in :: "string list \<Rightarrow> column \<Rightarrow> column" where
  "check_in vs c = c\<lparr>cl_check := Some vs\<rparr>"

definition id_column :: column where
  "id_column = not_null (uniq (dflt ''uuid_generate_v4()'' (col ''id'' T_uuid)))"

definition time_column :: "string \<Rightarrow> column" where
  "time_column n = not_null (dflt ''now()'' (col n T_timestamptz))"

record table =
  tb_name :: string
  tb_columns :: "column list"
  tb_primaryKey :: "string list"

datatype index_cond = Always | Where_null string | Where_not_null string | Where_true string

record index_def =
  in_name :: string
  in_table :: string
  in_columns :: "string list"
  in_unique :: bool
  in_cond :: index_cond

datatype alteration =
    Add_column column
  | Drop_column string
  | Set_not_null string
  | Drop_not_null string

datatype ddl =
    Create_extension string
  | Create_table string "column list" "string list"
  | Create_index string string "string list"
  | Create_index_where string string "string list" index_cond
  | Create_unique_index string string "string list" index_cond
  | Alter_table string "alteration list"
  | Drop_table_cascade string
  | Drop_index string

record migration =
  mg_name :: string
  mg_up :: "ddl list"
  mg_down :: "ddl list"

section \<open>The migrations\<close>

definition initial_up :: "ddl list" where
  "initial_up =
    [Create_extension ''uuid-ossp'',
     Create_extension ''citext'',
     Create_extension ''pgcrypto'',
     Create_table ''users''
       [id_column,
        not_null (uniq (col ''email'' T_citext)),
        not_null (col ''password_hash'' T_text),
        not_null (check_in [''customer'', ''seller'', ''support'', ''admin''] (col ''role'' (T_varchar 32))),
        col ''display_name'' (T_varchar 120),
        col ''mfa_secret'' T_text,
        not_null (dflt ''false'' (col ''is_suspended'' T_boolean)),
        time_column ''created_at'',
        time_column ''updated_at''] [],
     Create_table ''orders''
       [id_column,
        not_null (uniq (col ''external_ref'' (T_varchar 64))),
        not_null (refs_to ''users'' On_restrict (col ''customer_id'' T_uuid)),
        not_null (refs_to ''users'' On_restrict (col ''seller_id'' T_uuid)),
        not_null (dflt ''open'' (col ''status'' (T_varchar 32))),
        not_null (dflt ''0'' (col ''total_cents'' T_integer)),
        not_null (dflt ''EUR'' (col ''currency'' (T_varchar 3))),
        time_column ''created_at''] [],
     Create_index ''idx_orders_customer'' ''orders'' [''customer_id''],
     Create_index ''idx_orders_seller'' ''orders'' [''seller_id''],
     Create_table ''conversations''
       [id_column,
        not_null (uniq (refs_to ''orders'' On_cascade (col ''order_id'' T_uuid))),
        not_null (dflt ''open'' (col ''status'' (T_varchar 32))),
        col ''subject'' (T_varchar 200),
        col ''last_message_at'' T_timestamptz,
        not_null (dflt ''0'' (col ''last_sequence'' T_bigint)),
        time_column ''created_at'',
        time_column ''updated_at''] [],
     Create_table ''conversation_participants''
       [not_null (refs_to ''conversations'' On_cascade (col ''conversation_id'' T_uuid)),
        not_null (refs_to ''users'' On_cascade (col ''user_id'' T_uuid)),
        not_null (col ''role'' (T_varchar 32)),
        time_column ''joined_at'',
        col ''left_at'' T_timestamptz,
        not_null (dflt ''false'' (col ''muted'' T_boolean)),
        not_null (dflt ''0'' (col ''last_read_sequence'' T_bigint))]
       [''conversation_id'', ''user_id''],
     Create_index ''idx_part_user_conv'' ''conversation_participants'' [''user_id'', ''conversation_id''],
     Create_table ''messages''
       [id_column,
        not_null (refs_to ''conversations'' On_cascade (col ''conversation_id'' T_uuid)),
        not_null (refs_to ''users'' On_restrict (col ''sender_id'' T_uuid)),
        not_null (col ''sequence'' T_bigint),
        not_null (col ''body'' T_text),
        not_null (dflt ''plain_text'' (col ''body_format'' (T_varchar 16))),
        not_null (dflt ''sent'' (col ''status'' (T_varchar 16))),
        col ''idempotency_key'' (T_varchar 128),
        time_column ''created_at'',
        col ''edited_at'' T_timestamptz,
        col ''deleted_at'' T_timestamptz] [],
     Create_unique_index ''idx_msg_conv_seq'' ''messages'' [''conversation_id'', ''sequence''] Always,
     Create_unique_index ''idx_msg_idem'' ''messages''
       [''conversation_id'', ''sender_id'', ''idempotency_key''] (Where_not_null ''idempotency_key''),
     Create_index ''idx_msg_sender'' ''messages'' [''sender_id''],
     Create_table ''message_receipts''
       [not_null (refs_to ''messages'' On_cascade (col ''message_id'' T_uuid)),
        not_null (refs_to ''users'' On_cascade (col ''user_id'' T_uuid)),
        col ''delivered_at'' T_timestamptz,
        col ''read_at'' T_timestamptz]
       [''message_id'', ''user_id''],
     Create_index ''idx_receipt_user'' ''message_receipts'' [''user_id'', ''message_id''],
     Create_table ''attachments''
       [id_column,
        refs_to ''messages'' On_cascade (col ''message_id'' T_uuid),
        not_null (refs_to ''conversations'' On_cascade (col ''conversation_id'' T_uuid)),
        not_null (refs_to ''users'' On_restrict (col ''uploader_id'' T_uuid)),
        not_null (col ''object_key'' T_text),
        not_null (col ''original_filename'' (T_varchar 255)),
        not_null (col ''mime_type'' (T_varchar 128)),
        not_null (col ''size_bytes'' T_bigint),
        col ''sha256'' (T_varchar 64),
        not_null (dflt ''pending'' (col ''scan_status'' (T_varchar 16))),
        time_column ''created_at''] [],
     Create_index ''idx_att_msg'' ''attachments'' [''message_id''],
     Create_index ''idx_att_conv'' ''attachments'' [''conversation_id''],
     Create_table ''message_events_outbox''
       [id_column,
        not_null (col ''event_type'' (T_varchar 64)),
        not_null (col ''aggregate_id'' T_uuid),
        not_null (col ''payload'' T_jsonb),
        col ''processed_at'' T_timestamptz,
        time_column ''created_at''] [],
     Create_index ''idx_outbox_aggregate'' ''message_events_outbox'' [''aggregate_id''],
     Create_index_where ''idx_outbox_unprocessed'' ''message_events_outbox'' [''created_at'']
       (Where_null ''processed_at''),
     Create_table ''audit_log''
       [id_column,
        refs_to ''users'' On_set_null (col ''actor_id'' T_uuid),
        not_null (col ''action'' (T_varchar 64)),
        not_null (col ''target_type'' (T_varchar 32)),
        col ''target_id'' T_uuid,
        col ''ip'' T_inet,
        col ''user_agent'' T_text,
        col ''metadata'' T_jsonb,
        time_column ''created_at''] [],
     Create_index ''idx_audit_actor_time'' ''audit_log'' [''actor_id'', ''created_at''],
     Create_index ''idx_audit_action_time'' ''audit_log'' [''action'', ''created_at'']]"

definition initial_down :: "ddl list" where
  "initial_down =
    [Drop_table_cascade ''audit_log'',
     Drop_table_cascade ''message_events_outbox'',
     Drop_table_cascade ''attachments'',
     Drop_table_cascade ''message_receipts'',
     Drop_table_cascade ''messages'',
     Drop_table_cascade ''conversation_participants'',
     Drop_table_cascade ''conversations'',
     Drop_table_cascade ''orders'',
     Drop_table_cascade ''users'']"

definition phase2_up :: "ddl list" where
  "phase2_up =
    [Alter_table ''messages''
       [Add_column (col ''body_ciphertext'' T_bytea),
        Add_column (col ''body_dek_id'' (T_varchar 128)),
        Add_column (col ''body_alg'' (T_varchar 32)),
        Add_column (col ''body_iv'' T_bytea),
        Add_column (col ''body_tag'' T_bytea),
        Drop_not_null ''body''],
     Create_table ''message_reports''
       [id_column,
        not_null (refs_to ''messages'' On_cascade (col ''message_id'' T_uuid)),
        not_null (refs_to ''users'' On_set_null (col ''reporter_id'' T_uuid)),
        not_null (col ''reason'' (T_varchar 64)),
        col ''details'' T_text,
        not_null (dflt ''open'' (col ''status'' (T_varchar 16))),
        refs_to ''users'' On_set_null (col ''resolved_by'' T_uuid),
        col ''resolved_at'' T_timestamptz,
        time_column ''created_at''] [],
     Create_index ''idx_reports_msg'' ''message_reports'' [''message_id''],
     Create_index ''idx_reports_status'' ''message_reports'' [''status'', ''created_at''],
     Alter_table ''messages''
       [Add_column (col ''moderation_flags'' T_jsonb),
        Add_column (dflt ''0'' (col ''moderation_score'' T_real)),
        Add_column (refs_to ''users'' On_set_null (col ''moderated_by'' T_uuid)),
        Add_column (col ''moderated_at'' T_timestamptz)],
     Create_table ''refresh_tokens''
       [id_column,
        not_null (refs_to ''users'' On_cascade (col ''user_id'' T_uuid)),
        not_null (uniq (col ''token_hash'' (T_varchar 128))),
        refs_to ''refresh_tokens'' On_set_null (col ''parent_id'' T_uuid),
        col ''user_agent'' T_text,
        col ''ip'' T_inet,
        not_null (col ''expires_at'' T_timestamptz),
        col ''revoked_at'' T_timestamptz,
        col ''revoked_reason'' (T_varchar 64),
        time_column ''created_at''] [],
     Create_index_where ''idx_rt_user'' ''refresh_tokens'' [''user_id''] (Where_null ''revoked_at''),
     Alter_table ''message_events_outbox''
       [Add_column (not_null (dflt ''0'' (col ''attempts'' T_integer))),
        Add_column (time_column ''next_attempt_at''),
        Add_column (col ''last_error'' T_text),
        Add_column (col ''locked_by'' (T_varchar 64)),
        Add_column (col ''locked_until'' T_timestamptz)],
     Create_index_where ''idx_outbox_due'' ''message_events_outbox'' [''next_attempt_at'']
       (Where_null ''processed_at''),
     Create_table ''email_notifications''
       [id_column,
        not_null (refs_to ''users'' On_cascade (col ''user_id'' T_uuid)),
        refs_to ''conversations'' On_cascade (col ''conversation_id'' T_uuid),
        not_null (col ''kind'' (T_varchar 48)),
        time_column ''sent_at'',
        not_null (uniq (col ''dedup_key'' (T_varchar 128)))] [],
     Create_index ''idx_email_user_kind'' ''email_notifications'' [''user_id'', ''kind'', ''sent_at''],
     Alter_table ''users''
       [Add_column (col ''anonymized_at'' T_timestamptz),
        Add_column (col ''data_export_requested_at'' T_timestamptz)]]"

definition phase2_down :: "ddl list" where
  "phase2_down =
    [Alter_table ''users'' [Drop_column ''data_export_requested_at'', Drop_column ''anonymized_at''],
     Drop_table_cascade ''email_notifications'',
     Drop_index ''idx_outbox_due'',
     Alter_table ''message_events_outbox''
       [Drop_column ''locked_until'', Drop_column ''locked_by'', Drop_column ''last_error'',
        Drop_column ''next_attempt_at'', Drop_column ''attempts''],
     Drop_table_cascade ''refresh_tokens'',
     Alter_table ''messages''
       [Drop_column ''moderated_at'', Drop_column ''moderated_by'',
        Drop_column ''moderation_score'', Drop_column ''moderation_flags''],
     Drop_table_cascade ''message_reports'',
     Alter_table ''messages''
       [Set_not_null ''body'',
        Drop_column ''body_tag'', Drop_column ''body_iv'', Drop_column ''body_alg'',
        Drop_column ''body_dek_id'', Drop_column ''body_ciphertext'']]"

definition phase6_up :: "ddl list" where
  "phase6_up =
    [Alter_table ''conversations''
       [Add_column (not_null (dflt ''false'' (col ''search_indexed'' T_boolean))),
        Add_column (col ''search_indexed_at'' T_timestamptz)],
     Create_index_where ''idx_conv_searchable'' ''conversations'' [''search_indexed'']
       (Where_true ''search_indexed'')]"

definition phase6_down :: "ddl list" where
  "phase6_down =
    [Drop_index ''idx_conv_searchable'',
     Alter_table ''conversations'' [Drop_column ''search_indexed_at'', Drop_column ''search_indexed'']]"

definition phase8_up :: "ddl list" where
  "phase8_up =
    [Create_table ''mls_key_packages''
       [id_column,
        not_null (refs_to ''users'' On_cascade (col ''user_id'' T_uuid)),
        not_null (col ''device_id'' (T_varchar 64)),
        not_null (col ''cipher_suite'' (T_varchar 64)),
        not_null (col ''key_package'' T_bytea),
        col ''consumed_at'' T_timestamptz,
        refs_to ''users'' On_set_null (col ''consumed_by'' T_uuid),
        not_null (col ''expires_at'' T_timestamptz),
        time_column ''created_at''] [],
     Create_index_where ''idx_kp_user_avail'' ''mls_key_packages'' [''user_id'', ''expires_at'']
       (Where_null ''consumed_at''),
     Create_table ''mls_groups''
       [id_column,
        not_null (uniq (refs_to ''conversations'' On_cascade (col ''conversation_id'' T_uuid))),
        not_null (col ''group_id_mls'' T_bytea),
        not_null (col ''cipher_suite'' (T_varchar 64)),
        not_null (dflt ''0'' (col ''epoch'' T_bigint)),
        not_null (refs_to ''users'' On_restrict (col ''created_by'' T_uuid)),
        time_column ''created_at''] [],
     Create_table ''mls_messages''
       [id_column,
        not_null (refs_to ''mls_groups'' On_cascade (col ''group_id'' T_uuid)),
        refs_to ''users'' On_set_null (col ''sender_user_id'' T_uuid),
        col ''sender_device_id'' (T_varchar 64),
        not_null (check_in [''welcome'', ''commit'', ''application'', ''proposal'', ''group_info'']
          (col ''kind'' (T_varchar 24))),
        not_null (col ''epoch'' T_bigint),
        not_null (col ''sequence'' T_bigint),
        refs_to ''users'' On_set_null (col ''target_user_id'' T_uuid),
        not_null (col ''ciphertext'' T_bytea),
        time_column ''created_at''] [],
     Create_unique_index ''idx_mls_msg_seq'' ''mls_messages'' [''group_id'', ''sequence''] Always,
     Create_index ''idx_mls_msg_target'' ''mls_messages'' [''target_user_id'', ''created_at''],
     Alter_table ''conversations''
       [Add_column (not_null (dflt ''false'' (col ''e2ee_enabled'' T_boolean))),
        Add_column (col ''e2ee_enabled_at'' T_timestamptz)]]"

definition phase8_down :: "ddl list" where
  "phase8_down =
    [Alter_table ''conversations'' [Drop_column ''e2ee_enabled_at'', Drop_column ''e2ee_enabled''],
     Drop_table_cascade ''mls_messages'',
     Drop_table_cascade ''mls_groups'',
     Drop_table_cascade ''mls_key_packages'']"

text \<open>In the order of their time stamps, which is the order in which TypeORM runs them.\<close>

definition migrations :: "migration list" where
  "migrations =
    [\<lparr>mg_name = ''InitialSchema1716900000000'', mg_up = initial_up, mg_down = initial_down\<rparr>,
     \<lparr>mg_name = ''Phase21717000000000'', mg_up = phase2_up, mg_down = phase2_down\<rparr>,
     \<lparr>mg_name = ''Phase61717100000000'', mg_up = phase6_up, mg_down = phase6_down\<rparr>,
     \<lparr>mg_name = ''Phase81717200000000'', mg_up = phase8_up, mg_down = phase8_down\<rparr>]"

section \<open>The statements\<close>

record schema =
  sc_extensions :: "string list"
  sc_tables :: "table list"
  sc_indexes :: "index_def list"

definition empty_schema :: schema where
  "empty_schema = \<lparr>sc_extensions = [], sc_tables = [], sc_indexes = []\<rparr>"

definition table_named :: "schema \<Rightarrow> string \<Rightarrow> table option" where
  "table_named s t = List.find (\<lambda>x. tb_name x = t) (sc_tables s)"

definition column_named :: "table \<Rightarrow> string \<Rightarrow> column option" where
  "column_named tb c = List.find (\<lambda>x. cl_name x = c) (tb_columns tb)"

text \<open>A \<open>REFERENCES\<close> clause names an existing table, or the table being created.\<close>

definition refs_ok :: "schema \<Rightarrow> string \<Rightarrow> column \<Rightarrow> bool" where
  "refs_ok s t c =
     (case cl_references c of None \<Rightarrow> True
      | Some (u, od) \<Rightarrow> u = t \<or> table_named s u \<noteq> None)"

definition referenced :: "schema \<Rightarrow> string \<Rightarrow> bool" where
  "referenced s t =
     list_ex (\<lambda>tb. list_ex (\<lambda>c. case cl_references c of None \<Rightarrow> False | Some (u, od) \<Rightarrow> u = t)
       (tb_columns tb)) (sc_tables s)"

fun cond_mentions :: "index_cond \<Rightarrow> string \<Rightarrow> bool" where
  "cond_mentions Always c = False"
| "cond_mentions (Where_null d) c = (d = c)"
| "cond_mentions (Where_not_null d) c = (d = c)"
| "cond_mentions (Where_true d) c = (d = c)"

text \<open>
  Dropping a column drops the indexes that use it. It fails where a foreign key of another
  column refers to it, and every foreign key here refers to \<open>id\<close>.
\<close>

fun alter :: "(string \<Rightarrow> bool) \<Rightarrow> string \<Rightarrow> alteration \<Rightarrow> schema \<Rightarrow> schema option" where
  "alter holds_null t (Add_column c) s =
     (case table_named s t of None \<Rightarrow> None
      | Some tb \<Rightarrow>
          if column_named tb (cl_name c) \<noteq> None \<or> \<not> refs_ok s t c then None
          else Some (s\<lparr>sc_tables := update_rows (\<lambda>x. tb_name x = t)
                        (\<lambda>x. x\<lparr>tb_columns := tb_columns x @ [c]\<rparr>) (sc_tables s)\<rparr>))"
| "alter holds_null t (Drop_column c) s =
     (case table_named s t of None \<Rightarrow> None
      | Some tb \<Rightarrow>
          if column_named tb c = None \<or> (c = ''id'' \<and> referenced s t) then None
          else Some (s\<lparr>sc_tables := update_rows (\<lambda>x. tb_name x = t)
                        (\<lambda>x. x\<lparr>tb_columns := filter (\<lambda>y. cl_name y \<noteq> c) (tb_columns x),
                              tb_primaryKey := (if c \<in> set (tb_primaryKey x) then [] else tb_primaryKey x)\<rparr>)
                        (sc_tables s),
                      sc_indexes := filter (\<lambda>i. \<not> (in_table i = t
                        \<and> (c \<in> set (in_columns i) \<or> cond_mentions (in_cond i) c))) (sc_indexes s)\<rparr>))"
| "alter holds_null t (Set_not_null c) s =
     (case table_named s t of None \<Rightarrow> None
      | Some tb \<Rightarrow>
          if column_named tb c = None \<or> holds_null c then None
          else Some (s\<lparr>sc_tables := update_rows (\<lambda>x. tb_name x = t)
                        (\<lambda>x. x\<lparr>tb_columns := update_rows (\<lambda>y. cl_name y = c) not_null (tb_columns x)\<rparr>)
                        (sc_tables s)\<rparr>))"
| "alter holds_null t (Drop_not_null c) s =
     (case table_named s t of None \<Rightarrow> None
      | Some tb \<Rightarrow>
          if column_named tb c = None then None
          else Some (s\<lparr>sc_tables := update_rows (\<lambda>x. tb_name x = t)
                        (\<lambda>x. x\<lparr>tb_columns := update_rows (\<lambda>y. cl_name y = c)
                              (\<lambda>y. y\<lparr>cl_notNull := False\<rparr>) (tb_columns x)\<rparr>)
                        (sc_tables s)\<rparr>))"

fun alter_all :: "(string \<Rightarrow> bool) \<Rightarrow> string \<Rightarrow> alteration list \<Rightarrow> schema \<Rightarrow> schema option" where
  "alter_all holds_null t [] s = Some s"
| "alter_all holds_null t (a # as) s =
     (case alter holds_null t a s of None \<Rightarrow> None | Some s' \<Rightarrow> alter_all holds_null t as s')"

definition add_index :: "index_def \<Rightarrow> schema \<Rightarrow> schema option" where
  "add_index i s =
     (case table_named s (in_table i) of None \<Rightarrow> None
      | Some tb \<Rightarrow>
          if list_ex (\<lambda>j. in_name j = in_name i) (sc_indexes s)
             \<or> \<not> list_all (\<lambda>c. column_named tb c \<noteq> None) (in_columns i) then None
          else Some (s\<lparr>sc_indexes := sc_indexes s @ [i]\<rparr>))"

text \<open>\<open>DROP TABLE \<dots> CASCADE\<close> drops the indexes of the table and the foreign keys to it.\<close>

definition forget_ref :: "string \<Rightarrow> column \<Rightarrow> column" where
  "forget_ref t c =
     (case cl_references c of None \<Rightarrow> c
      | Some (u, od) \<Rightarrow> if u = t then c\<lparr>cl_references := None\<rparr> else c)"

definition drop_table :: "string \<Rightarrow> schema \<Rightarrow> schema" where
  "drop_table t s =
     (if table_named s t = None then s
      else s\<lparr>sc_tables := map (\<lambda>x. x\<lparr>tb_columns := map (forget_ref t) (tb_columns x)\<rparr>)
               (filter (\<lambda>x. tb_name x \<noteq> t) (sc_tables s)),
             sc_indexes := filter (\<lambda>i. in_table i \<noteq> t) (sc_indexes s)\<rparr>)"

fun apply_ddl :: "(string \<Rightarrow> string \<Rightarrow> bool) \<Rightarrow> ddl \<Rightarrow> schema \<Rightarrow> schema option" where
  "apply_ddl nulls (Create_extension e) s =
     Some (if e \<in> set (sc_extensions s) then s else s\<lparr>sc_extensions := sc_extensions s @ [e]\<rparr>)"
| "apply_ddl nulls (Create_table t cs pk) s =
     (if table_named s t \<noteq> None \<or> \<not> list_all (refs_ok s t) cs \<or> \<not> distinct (map cl_name cs)
         \<or> \<not> set pk \<subseteq> set (map cl_name cs) then None
      else Some (s\<lparr>sc_tables := sc_tables s @ [\<lparr>tb_name = t, tb_columns = cs, tb_primaryKey = pk\<rparr>]\<rparr>))"
| "apply_ddl nulls (Create_index i t cs) s = add_index \<lparr>in_name = i, in_table = t, in_columns = cs, in_unique = False, in_cond = Always\<rparr> s"
| "apply_ddl nulls (Create_index_where i t cs p) s = add_index \<lparr>in_name = i, in_table = t, in_columns = cs, in_unique = False, in_cond = p\<rparr> s"
| "apply_ddl nulls (Create_unique_index i t cs p) s = add_index \<lparr>in_name = i, in_table = t, in_columns = cs, in_unique = True, in_cond = p\<rparr> s"
| "apply_ddl nulls (Alter_table t as) s = alter_all (nulls t) t as s"
| "apply_ddl nulls (Drop_table_cascade t) s = Some (drop_table t s)"
| "apply_ddl nulls (Drop_index i) s = Some (s\<lparr>sc_indexes := filter (\<lambda>j. in_name j \<noteq> i) (sc_indexes s)\<rparr>)"

fun apply_all :: "(string \<Rightarrow> string \<Rightarrow> bool) \<Rightarrow> ddl list \<Rightarrow> schema \<Rightarrow> schema option" where
  "apply_all nulls [] s = Some s"
| "apply_all nulls (d # ds) s =
     (case apply_ddl nulls d s of None \<Rightarrow> None | Some s' \<Rightarrow> apply_all nulls ds s')"

fun migrate :: "(string \<Rightarrow> string \<Rightarrow> bool) \<Rightarrow> migration list \<Rightarrow> schema \<Rightarrow> schema option" where
  "migrate nulls [] s = Some s"
| "migrate nulls (m # ms) s =
     (case apply_all nulls (mg_up m) s of None \<Rightarrow> None | Some s' \<Rightarrow> migrate nulls ms s')"

fun revert :: "(string \<Rightarrow> string \<Rightarrow> bool) \<Rightarrow> migration list \<Rightarrow> schema \<Rightarrow> schema option" where
  "revert nulls [] s = Some s"
| "revert nulls (m # ms) s =
     (case apply_all nulls (mg_down m) s of None \<Rightarrow> None | Some s' \<Rightarrow> revert nulls ms s')"

definition no_nulls :: "string \<Rightarrow> string \<Rightarrow> bool" where
  "no_nulls t c = False"

definition schema_after :: "nat \<Rightarrow> schema" where
  "schema_after k = (case migrate no_nulls (take k migrations) empty_schema of None \<Rightarrow> empty_schema | Some s \<Rightarrow> s)"

abbreviation migrated :: schema where
  "migrated \<equiv> schema_after 4"


section \<open>The schema after all migrations\<close>

text \<open>The tables as they are after the four migrations, written out.\<close>

definition final_tables :: "table list" where
  "final_tables =
    [\<lparr>tb_name = ''users'', tb_columns =
       [id_column,
        not_null (uniq (col ''email'' T_citext)),
        not_null (col ''password_hash'' T_text),
        not_null (check_in [''customer'', ''seller'', ''support'', ''admin''] (col ''role'' (T_varchar 32))),
        col ''display_name'' (T_varchar 120),
        col ''mfa_secret'' T_text,
        not_null (dflt ''false'' (col ''is_suspended'' T_boolean)),
        time_column ''created_at'',
        time_column ''updated_at'',
        col ''anonymized_at'' T_timestamptz,
        col ''data_export_requested_at'' T_timestamptz],
      tb_primaryKey = []\<rparr>,
     \<lparr>tb_name = ''orders'', tb_columns =
       [id_column,
        not_null (uniq (col ''external_ref'' (T_varchar 64))),
        not_null (refs_to ''users'' On_restrict (col ''customer_id'' T_uuid)),
        not_null (refs_to ''users'' On_restrict (col ''seller_id'' T_uuid)),
        not_null (dflt ''open'' (col ''status'' (T_varchar 32))),
        not_null (dflt ''0'' (col ''total_cents'' T_integer)),
        not_null (dflt ''EUR'' (col ''currency'' (T_varchar 3))),
        time_column ''created_at''],
      tb_primaryKey = []\<rparr>,
     \<lparr>tb_name = ''conversations'', tb_columns =
       [id_column,
        not_null (uniq (refs_to ''orders'' On_cascade (col ''order_id'' T_uuid))),
        not_null (dflt ''open'' (col ''status'' (T_varchar 32))),
        col ''subject'' (T_varchar 200),
        col ''last_message_at'' T_timestamptz,
        not_null (dflt ''0'' (col ''last_sequence'' T_bigint)),
        time_column ''created_at'',
        time_column ''updated_at'',
        not_null (dflt ''false'' (col ''search_indexed'' T_boolean)),
        col ''search_indexed_at'' T_timestamptz,
        not_null (dflt ''false'' (col ''e2ee_enabled'' T_boolean)),
        col ''e2ee_enabled_at'' T_timestamptz],
      tb_primaryKey = []\<rparr>,
     \<lparr>tb_name = ''conversation_participants'', tb_columns =
       [not_null (refs_to ''conversations'' On_cascade (col ''conversation_id'' T_uuid)),
        not_null (refs_to ''users'' On_cascade (col ''user_id'' T_uuid)),
        not_null (col ''role'' (T_varchar 32)),
        time_column ''joined_at'',
        col ''left_at'' T_timestamptz,
        not_null (dflt ''false'' (col ''muted'' T_boolean)),
        not_null (dflt ''0'' (col ''last_read_sequence'' T_bigint))],
      tb_primaryKey = [''conversation_id'', ''user_id'']\<rparr>,
     \<lparr>tb_name = ''messages'', tb_columns =
       [id_column,
        not_null (refs_to ''conversations'' On_cascade (col ''conversation_id'' T_uuid)),
        not_null (refs_to ''users'' On_restrict (col ''sender_id'' T_uuid)),
        not_null (col ''sequence'' T_bigint),
        col ''body'' T_text,
        not_null (dflt ''plain_text'' (col ''body_format'' (T_varchar 16))),
        not_null (dflt ''sent'' (col ''status'' (T_varchar 16))),
        col ''idempotency_key'' (T_varchar 128),
        time_column ''created_at'',
        col ''edited_at'' T_timestamptz,
        col ''deleted_at'' T_timestamptz,
        col ''body_ciphertext'' T_bytea,
        col ''body_dek_id'' (T_varchar 128),
        col ''body_alg'' (T_varchar 32),
        col ''body_iv'' T_bytea,
        col ''body_tag'' T_bytea,
        col ''moderation_flags'' T_jsonb,
        dflt ''0'' (col ''moderation_score'' T_real),
        refs_to ''users'' On_set_null (col ''moderated_by'' T_uuid),
        col ''moderated_at'' T_timestamptz],
      tb_primaryKey = []\<rparr>,
     \<lparr>tb_name = ''message_receipts'', tb_columns =
       [not_null (refs_to ''messages'' On_cascade (col ''message_id'' T_uuid)),
        not_null (refs_to ''users'' On_cascade (col ''user_id'' T_uuid)),
        col ''delivered_at'' T_timestamptz,
        col ''read_at'' T_timestamptz],
      tb_primaryKey = [''message_id'', ''user_id'']\<rparr>,
     \<lparr>tb_name = ''attachments'', tb_columns =
       [id_column,
        refs_to ''messages'' On_cascade (col ''message_id'' T_uuid),
        not_null (refs_to ''conversations'' On_cascade (col ''conversation_id'' T_uuid)),
        not_null (refs_to ''users'' On_restrict (col ''uploader_id'' T_uuid)),
        not_null (col ''object_key'' T_text),
        not_null (col ''original_filename'' (T_varchar 255)),
        not_null (col ''mime_type'' (T_varchar 128)),
        not_null (col ''size_bytes'' T_bigint),
        col ''sha256'' (T_varchar 64),
        not_null (dflt ''pending'' (col ''scan_status'' (T_varchar 16))),
        time_column ''created_at''],
      tb_primaryKey = []\<rparr>,
     \<lparr>tb_name = ''message_events_outbox'', tb_columns =
       [id_column,
        not_null (col ''event_type'' (T_varchar 64)),
        not_null (col ''aggregate_id'' T_uuid),
        not_null (col ''payload'' T_jsonb),
        col ''processed_at'' T_timestamptz,
        time_column ''created_at'',
        not_null (dflt ''0'' (col ''attempts'' T_integer)),
        time_column ''next_attempt_at'',
        col ''last_error'' T_text,
        col ''locked_by'' (T_varchar 64),
        col ''locked_until'' T_timestamptz],
      tb_primaryKey = []\<rparr>,
     \<lparr>tb_name = ''audit_log'', tb_columns =
       [id_column,
        refs_to ''users'' On_set_null (col ''actor_id'' T_uuid),
        not_null (col ''action'' (T_varchar 64)),
        not_null (col ''target_type'' (T_varchar 32)),
        col ''target_id'' T_uuid,
        col ''ip'' T_inet,
        col ''user_agent'' T_text,
        col ''metadata'' T_jsonb,
        time_column ''created_at''],
      tb_primaryKey = []\<rparr>,
     \<lparr>tb_name = ''message_reports'', tb_columns =
       [id_column,
        not_null (refs_to ''messages'' On_cascade (col ''message_id'' T_uuid)),
        not_null (refs_to ''users'' On_set_null (col ''reporter_id'' T_uuid)),
        not_null (col ''reason'' (T_varchar 64)),
        col ''details'' T_text,
        not_null (dflt ''open'' (col ''status'' (T_varchar 16))),
        refs_to ''users'' On_set_null (col ''resolved_by'' T_uuid),
        col ''resolved_at'' T_timestamptz,
        time_column ''created_at''],
      tb_primaryKey = []\<rparr>,
     \<lparr>tb_name = ''refresh_tokens'', tb_columns =
       [id_column,
        not_null (refs_to ''users'' On_cascade (col ''user_id'' T_uuid)),
        not_null (uniq (col ''token_hash'' (T_varchar 128))),
        refs_to ''refresh_tokens'' On_set_null (col ''parent_id'' T_uuid),
        col ''user_agent'' T_text,
        col ''ip'' T_inet,
        not_null (col ''expires_at'' T_timestamptz),
        col ''revoked_at'' T_timestamptz,
        col ''revoked_reason'' (T_varchar 64),
        time_column ''created_at''],
      tb_primaryKey = []\<rparr>,
     \<lparr>tb_name = ''email_notifications'', tb_columns =
       [id_column,
        not_null (refs_to ''users'' On_cascade (col ''user_id'' T_uuid)),
        refs_to ''conversations'' On_cascade (col ''conversation_id'' T_uuid),
        not_null (col ''kind'' (T_varchar 48)),
        time_column ''sent_at'',
        not_null (uniq (col ''dedup_key'' (T_varchar 128)))],
      tb_primaryKey = []\<rparr>,
     \<lparr>tb_name = ''mls_key_packages'', tb_columns =
       [id_column,
        not_null (refs_to ''users'' On_cascade (col ''user_id'' T_uuid)),
        not_null (col ''device_id'' (T_varchar 64)),
        not_null (col ''cipher_suite'' (T_varchar 64)),
        not_null (col ''key_package'' T_bytea),
        col ''consumed_at'' T_timestamptz,
        refs_to ''users'' On_set_null (col ''consumed_by'' T_uuid),
        not_null (col ''expires_at'' T_timestamptz),
        time_column ''created_at''],
      tb_primaryKey = []\<rparr>,
     \<lparr>tb_name = ''mls_groups'', tb_columns =
       [id_column,
        not_null (uniq (refs_to ''conversations'' On_cascade (col ''conversation_id'' T_uuid))),
        not_null (col ''group_id_mls'' T_bytea),
        not_null (col ''cipher_suite'' (T_varchar 64)),
        not_null (dflt ''0'' (col ''epoch'' T_bigint)),
        not_null (refs_to ''users'' On_restrict (col ''created_by'' T_uuid)),
        time_column ''created_at''],
      tb_primaryKey = []\<rparr>,
     \<lparr>tb_name = ''mls_messages'', tb_columns =
       [id_column,
        not_null (refs_to ''mls_groups'' On_cascade (col ''group_id'' T_uuid)),
        refs_to ''users'' On_set_null (col ''sender_user_id'' T_uuid),
        col ''sender_device_id'' (T_varchar 64),
        not_null (check_in [''welcome'', ''commit'', ''application'', ''proposal'', ''group_info''] (col ''kind'' (T_varchar 24))),
        not_null (col ''epoch'' T_bigint),
        not_null (col ''sequence'' T_bigint),
        refs_to ''users'' On_set_null (col ''target_user_id'' T_uuid),
        not_null (col ''ciphertext'' T_bytea),
        time_column ''created_at''],
      tb_primaryKey = []\<rparr>]"

lemma migrated_tables: "sc_tables migrated = final_tables"
  by code_simp

lemma migrated_unique_indexes:
  "filter in_unique (sc_indexes migrated) =
    [\<lparr>in_name = ''idx_msg_conv_seq'', in_table = ''messages'',
      in_columns = [''conversation_id'', ''sequence''], in_unique = True, in_cond = Always\<rparr>,
     \<lparr>in_name = ''idx_msg_idem'', in_table = ''messages'',
      in_columns = [''conversation_id'', ''sender_id'', ''idempotency_key''], in_unique = True,
      in_cond = Where_not_null ''idempotency_key''\<rparr>,
     \<lparr>in_name = ''idx_mls_msg_seq'', in_table = ''mls_messages'',
      in_columns = [''group_id'', ''sequence''], in_unique = True, in_cond = Always\<rparr>]"
  by code_simp

section \<open>Running and reverting\<close>

text \<open>The extensions stay when the first migration is reverted, so a reverted database has them.\<close>

definition extensions_only :: schema where
  "extensions_only = \<lparr>sc_extensions = [''uuid-ossp'', ''citext'', ''pgcrypto''], sc_tables = [], sc_indexes = []\<rparr>"

text \<open>The columns that a statement tests for nulls.\<close>

fun tested_columns :: "ddl \<Rightarrow> (string \<times> string) list" where
  "tested_columns (Alter_table t as) =
     concat (map (\<lambda>a. case a of Set_not_null c \<Rightarrow> [(t, c)] | _ \<Rightarrow> []) as)"
| "tested_columns d = []"

lemma alter_all_cong:
  assumes "list_all (\<lambda>(t', c). t' = t \<and> f c = g c) (tested_columns (Alter_table t as))"
  shows "alter_all f t as s = alter_all g t as s"
  using assms
proof (induction as arbitrary: s)
  case Nil
  then show ?case by simp
next
  case (Cons a as)
  then have "alter f t a s = alter g t a s"
    by (cases a) (auto split: option.splits)
  with Cons show ?case by (auto split: option.splits)
qed

lemma tested_columns_table: "list_all (\<lambda>(t', c). t' = t) (tested_columns (Alter_table t as))"
  by (auto simp: list_all_iff split: alteration.splits)

lemma apply_ddl_cong:
  "list_all (\<lambda>(t, c). f t c = g t c) (tested_columns d) \<Longrightarrow> apply_ddl f d s = apply_ddl g d s"
proof (cases d)
  case (Alter_table t as)
  assume "list_all (\<lambda>(t, c). f t c = g t c) (tested_columns d)"
  with tested_columns_table [of t as] Alter_table
  have "list_all (\<lambda>(t', c). t' = t \<and> f t c = g t c) (tested_columns (Alter_table t as))"
    by (auto simp: list_all_iff split: alteration.splits)
  from alter_all_cong [OF this] Alter_table show ?thesis by simp
qed simp_all

lemma apply_all_cong:
  "list_all (\<lambda>(t, c). f t c = g t c) (concat (map tested_columns ds)) \<Longrightarrow>
   apply_all f ds s = apply_all g ds s"
proof (induction ds arbitrary: s)
  case (Cons d ds)
  then have "apply_ddl f d s = apply_ddl g d s" by (intro apply_ddl_cong) simp
  with Cons show ?case by (auto split: option.splits)
qed simp

lemma revert_append:
  "revert f (xs @ ys) s = (case revert f xs s of None \<Rightarrow> None | Some s' \<Rightarrow> revert f ys s')"
  by (induction xs arbitrary: s) (auto split: option.splits)

lemma revert_cong:
  "list_all (\<lambda>(t, c). f t c = g t c) (concat (map (\<lambda>m. concat (map tested_columns (mg_down m))) ms)) \<Longrightarrow>
   revert f ms s = revert g ms s"
proof (induction ms arbitrary: s)
  case (Cons m ms)
  then have "apply_all f (mg_down m) s = apply_all g (mg_down m) s" by (intro apply_all_cong) simp
  with Cons show ?case by (auto split: option.splits)
qed simp

lemma migrate_cong:
  "list_all (\<lambda>(t, c). f t c = g t c) (concat (map (\<lambda>m. concat (map tested_columns (mg_up m))) ms)) \<Longrightarrow>
   migrate f ms s = migrate g ms s"
proof (induction ms arbitrary: s)
  case (Cons m ms)
  then have "apply_all f (mg_up m) s = apply_all g (mg_up m) s" by (intro apply_all_cong) simp
  with Cons show ?case by (auto split: option.splits)
qed simp

text \<open>Every migration of the list succeeds in its turn, and is undone by its \<open>down\<close>.\<close>

fun reversible :: "(string \<Rightarrow> string \<Rightarrow> bool) \<Rightarrow> migration list \<Rightarrow> schema \<Rightarrow> bool" where
  "reversible f [] s = True"
| "reversible f (m # ms) s =
     (case apply_all f (mg_up m) s of None \<Rightarrow> False
      | Some s' \<Rightarrow> apply_all f (mg_down m) s' = Some s \<and> reversible f ms s')"

lemma reversible_take: "reversible f ms s \<Longrightarrow> reversible f (take k ms) s"
  by (induction ms arbitrary: s k) (auto simp: take_Cons split: option.splits nat.splits)

lemma reversible_round_trip:
  "reversible f ms s \<Longrightarrow> \<exists>s'. migrate f ms s = Some s' \<and> revert f (rev ms) s' = Some s"
  by (induction ms arbitrary: s) (fastforce simp: revert_append split: option.splits)+

lemma migrations_reversible: "reversible no_nulls migrations extensions_only"
  by code_simp

text \<open>The first three statements create the extensions; later runs find them.\<close>

lemma apply_all_append:
  "apply_all f (xs @ ys) s = (case apply_all f xs s of None \<Rightarrow> None | Some s' \<Rightarrow> apply_all f ys s')"
  by (induction xs arbitrary: s) (auto split: option.splits)

lemma initial_from_empty: "apply_all f initial_up empty_schema = apply_all f initial_up extensions_only"
proof -
  have parts: "initial_up = take 3 initial_up @ drop 3 initial_up" by simp
  have take: "take 3 initial_up = map Create_extension (sc_extensions extensions_only)"
    by (simp add: initial_up_def extensions_only_def numeral_eq_Suc)
  have "apply_all f (take 3 initial_up) empty_schema = Some extensions_only"
    "apply_all f (take 3 initial_up) extensions_only = Some extensions_only"
    unfolding take by (simp_all add: empty_schema_def extensions_only_def)
  then show ?thesis by (subst (1 2) parts) (simp only: apply_all_append)
qed

lemma migrate_from_empty: "migrate f (take (Suc k) migrations) empty_schema = migrate f (take (Suc k) migrations) extensions_only"
  by (simp add: migrations_def initial_from_empty)

lemma tested_in_up: "concat (map (\<lambda>m. concat (map tested_columns (mg_up m))) migrations) = []"
  by code_simp

lemma tested_in_down:
  "concat (map (\<lambda>m. concat (map tested_columns (mg_down m))) (rev migrations)) = [(''messages'', ''body'')]"
  by code_simp

lemma schema_after_Suc: "migrate f (take (Suc k) migrations) empty_schema = Some (schema_after (Suc k))"
proof -
  from reversible_round_trip [OF reversible_take [OF migrations_reversible]]
  obtain s where "migrate no_nulls (take (Suc k) migrations) extensions_only = Some s" by blast
  moreover have "migrate f ms s = migrate no_nulls ms s" if "set ms \<subseteq> set migrations" for ms s
    using that tested_in_up by (intro migrate_cong) (auto simp: list_all_iff)
  ultimately show ?thesis
    by (simp add: schema_after_def migrate_from_empty set_take_subset)
qed

lemma revert_no_nulls:
  assumes "\<not> f ''messages'' ''body''"
  shows "revert f (rev (take (Suc k) migrations)) (schema_after (Suc k)) = Some extensions_only"
proof -
  have "set (concat (map (\<lambda>m. concat (map tested_columns (mg_down m))) (rev (take (Suc k) migrations))))
      \<subseteq> set (concat (map (\<lambda>m. concat (map tested_columns (mg_down m))) (rev migrations)))"
    using set_take_subset [of "Suc k" migrations] by fastforce
  then have "revert f (rev (take (Suc k) migrations)) = revert no_nulls (rev (take (Suc k) migrations))"
    using assms unfolding tested_in_down by (intro ext revert_cong) (force simp: list_all_iff no_nulls_def)
  moreover have "migrate no_nulls (take (Suc k) migrations) extensions_only = Some (schema_after (Suc k))"
    using schema_after_Suc [of no_nulls k] by (simp add: migrate_from_empty)
  ultimately show ?thesis
    using reversible_round_trip [OF reversible_take [OF migrations_reversible], of "Suc k"] by auto
qed

text \<open>A statement that would leave a null in a \<open>NOT NULL\<close> column fails, whatever the schema.\<close>

lemma alter_all_null: "Set_not_null c \<in> set as \<Longrightarrow> f c \<Longrightarrow> alter_all f t as s = None"
  by (induction as arbitrary: s) (auto split: option.splits)

lemma apply_all_null:
  "Alter_table t as \<in> set ds \<Longrightarrow> Set_not_null c \<in> set as \<Longrightarrow> f t c \<Longrightarrow> apply_all f ds s = None"
  by (induction ds arbitrary: s) (auto simp: alter_all_null split: option.splits)

lemma phase2_down_null: "f ''messages'' ''body'' \<Longrightarrow> apply_all f phase2_down s = None"
  by (rule apply_all_null [where c = "''body''" and t = "''messages''" and as = "[Set_not_null ''body'',
        Drop_column ''body_tag'', Drop_column ''body_iv'', Drop_column ''body_alg'',
        Drop_column ''body_dek_id'', Drop_column ''body_ciphertext'']"])
    (simp_all add: phase2_down_def)

lemma revert_null:
  assumes "f ''messages'' ''body''"
  shows "revert f (rev migrations) s = None"
  using phase2_down_null [of f, OF assms] by (simp add: migrations_def split: option.split)



end
