(* ===== verification/Schema.thy ===== *)
theory Schema
  imports Migrations Attachments
begin

text \<open>
  The rows of the model read as rows of the tables that the migrations create, and the
  constraints of the migrated schema (types, nulls, checks, keys) compared with those the model
  respects.

  A cell is a value of one column. Columns that the model leaves out take their default
  (\<open>updated_at\<close>, \<open>locked_by\<close>, \<open>sha256\<close>, \<open>ip\<close> and \<open>user_agent\<close> of the audit log, and identifiers
  nothing refers to). The display name of an account stands in the column that the migration
  creates, \<open>display_name\<close>; theory Entities shows that the entity asks for another one.
\<close>

section \<open>The rows of the model as rows of the tables\<close>

datatype cell =
    Null
  | C_uuid uuid
  | C_text string
  | C_bool bool
  | C_int int
  | C_time int
  | C_real nat
  | C_bytes bytes
  | C_json

definition opt_cell :: "('a \<Rightarrow> cell) \<Rightarrow> 'a option \<Rightarrow> cell" where
  "opt_cell f x = (case x of None \<Rightarrow> Null | Some y \<Rightarrow> f y)"

fun conv_status_string :: "conv_status \<Rightarrow> string" where
  "conv_status_string Open = ''open''"
| "conv_status_string Closed = ''closed''"
| "conv_status_string Archived = ''archived''"

fun msg_status_string :: "msg_status \<Rightarrow> string" where
  "msg_status_string Sent = ''sent''"
| "msg_status_string Deleted = ''deleted''"
| "msg_status_string Hidden = ''hidden''"
| "msg_status_string Flagged = ''flagged''"

fun body_format_string :: "body_format \<Rightarrow> string" where
  "body_format_string Plain_text = ''plain_text''"
| "body_format_string Markdown = ''markdown''"

fun order_status_string :: "order_status \<Rightarrow> string" where
  "order_status_string OOpen = ''open''"
| "order_status_string Shipped = ''shipped''"
| "order_status_string Delivered = ''delivered''"
| "order_status_string Cancelled = ''cancelled''"
| "order_status_string Refunded = ''refunded''"
| "order_status_string OClosed = ''closed''"

fun report_status_string :: "report_status \<Rightarrow> string" where
  "report_status_string ROpen = ''open''"
| "report_status_string Reviewed = ''reviewed''"
| "report_status_string Dismissed = ''dismissed''"
| "report_status_string Actioned = ''actioned''"

fun mls_kind_string :: "mls_kind \<Rightarrow> string" where
  "mls_kind_string Welcome = ''welcome''"
| "mls_kind_string Commit = ''commit''"
| "mls_kind_string Application = ''application''"
| "mls_kind_string Proposal = ''proposal''"
| "mls_kind_string Group_info = ''group_info''"

type_synonym cells = "(string \<times> cell) list"

definition user_cells :: "user_row \<Rightarrow> cells" where
  "user_cells u =
    [(''id'', C_uuid (us_id u)), (''email'', C_text (us_email u)),
     (''password_hash'', C_text (us_passwordHash u)), (''role'', C_text (role_string (us_role u))),
     (''display_name'', opt_cell C_text (us_displayName u)),
     (''mfa_secret'', opt_cell C_text (us_mfaSecret u)),
     (''is_suspended'', C_bool (us_isSuspended u)),
     (''anonymized_at'', opt_cell C_time (us_anonymizedAt u)),
     (''data_export_requested_at'', opt_cell C_time (us_dataExportRequestedAt u)),
     (''created_at'', C_time (us_createdAt u))]"

definition order_cells :: "order_row \<Rightarrow> cells" where
  "order_cells r =
    [(''id'', C_uuid (or_id r)), (''external_ref'', C_text (or_externalRef r)),
     (''customer_id'', C_uuid (or_customerId r)), (''seller_id'', C_uuid (or_sellerId r)),
     (''status'', C_text (order_status_string (or_status r))),
     (''total_cents'', C_int (or_totalCents r)), (''currency'', C_text (or_currency r)),
     (''created_at'', C_time (or_createdAt r))]"

definition conv_cells :: "conv_row \<Rightarrow> cells" where
  "conv_cells c =
    [(''id'', C_uuid (cv_id c)), (''order_id'', C_uuid (cv_orderId c)),
     (''status'', C_text (conv_status_string (cv_status c))),
     (''subject'', opt_cell C_text (cv_subject c)),
     (''last_message_at'', opt_cell C_time (cv_lastMessageAt c)),
     (''last_sequence'', C_int (cv_lastSequence c)), (''created_at'', C_time (cv_createdAt c)),
     (''search_indexed'', C_bool (cv_searchIndexed c)),
     (''search_indexed_at'', opt_cell C_time (cv_searchIndexedAt c)),
     (''e2ee_enabled'', C_bool (cv_e2eeEnabled c)),
     (''e2ee_enabled_at'', opt_cell C_time (cv_e2eeEnabledAt c))]"

definition part_cells :: "part_row \<Rightarrow> cells" where
  "part_cells p =
    [(''conversation_id'', C_uuid (pt_conversationId p)), (''user_id'', C_uuid (pt_userId p)),
     (''role'', C_text (role_string (pt_role p))), (''joined_at'', C_time (pt_joinedAt p)),
     (''left_at'', opt_cell C_time (pt_leftAt p)), (''muted'', C_bool (pt_muted p)),
     (''last_read_sequence'', C_int (pt_lastReadSequence p))]"

definition msg_cells :: "msg_row \<Rightarrow> cells" where
  "msg_cells m =
    [(''id'', C_uuid (ms_id m)), (''conversation_id'', C_uuid (ms_conversationId m)),
     (''sender_id'', C_uuid (ms_senderId m)), (''sequence'', C_int (ms_sequence m)),
     (''body'', opt_cell C_text (ms_body m)),
     (''body_ciphertext'', opt_cell C_bytes (ms_bodyCiphertext m)),
     (''body_dek_id'', opt_cell C_text (ms_bodyDekId m)),
     (''body_alg'', opt_cell C_text (ms_bodyAlg m)),
     (''body_iv'', opt_cell C_bytes (ms_bodyIv m)), (''body_tag'', opt_cell C_bytes (ms_bodyTag m)),
     (''body_format'', C_text (body_format_string (ms_bodyFormat m))),
     (''status'', C_text (msg_status_string (ms_status m))),
     (''idempotency_key'', opt_cell C_text (ms_idempotencyKey m)),
     (''moderation_flags'', opt_cell (\<lambda>_. C_json) (ms_moderationFlags m)),
     (''moderation_score'', C_real (ms_moderationScore10 m)),
     (''moderated_by'', opt_cell C_uuid (ms_moderatedBy m)),
     (''moderated_at'', opt_cell C_time (ms_moderatedAt m)),
     (''created_at'', C_time (ms_createdAt m)), (''edited_at'', opt_cell C_time (ms_editedAt m)),
     (''deleted_at'', opt_cell C_time (ms_deletedAt m))]"

definition receipt_cells :: "receipt_row \<Rightarrow> cells" where
  "receipt_cells r =
    [(''message_id'', C_uuid (rc_messageId r)), (''user_id'', C_uuid (rc_userId r)),
     (''delivered_at'', opt_cell C_time (rc_deliveredAt r)),
     (''read_at'', opt_cell C_time (rc_readAt r))]"

definition outbox_cells :: "outbox_row \<Rightarrow> cells" where
  "outbox_cells e =
    [(''id'', C_uuid (ob_id e)), (''event_type'', C_text (ob_eventType e)),
     (''aggregate_id'', C_uuid (ob_aggregateId e)), (''payload'', C_json),
     (''processed_at'', opt_cell C_time (ob_processedAt e)), (''created_at'', C_time (ob_createdAt e)),
     (''attempts'', C_int (int (ob_attempts e))), (''next_attempt_at'', C_time (ob_nextAttemptAt e)),
     (''last_error'', opt_cell C_text (ob_lastError e))]"

definition audit_cells :: "audit_row \<Rightarrow> cells" where
  "audit_cells a =
    [(''actor_id'', opt_cell C_uuid (au_actorId a)), (''action'', C_text (au_action a)),
     (''target_type'', C_text (au_targetType a)), (''target_id'', opt_cell C_uuid (au_targetId a)),
     (''metadata'', opt_cell (\<lambda>_. C_json) (au_metadata a))]"

definition report_cells :: "report_row \<Rightarrow> cells" where
  "report_cells r =
    [(''id'', C_uuid (rp_id r)), (''message_id'', C_uuid (rp_messageId r)),
     (''reporter_id'', C_uuid (rp_reporterId r)), (''reason'', C_text (rp_reason r)),
     (''details'', opt_cell C_text (rp_details r)),
     (''status'', C_text (report_status_string (rp_status r))),
     (''resolved_by'', opt_cell C_uuid (rp_resolvedBy r)),
     (''resolved_at'', opt_cell C_time (rp_resolvedAt r)), (''created_at'', C_time (rp_createdAt r))]"

definition token_cells :: "token_row \<Rightarrow> cells" where
  "token_cells r =
    [(''id'', C_uuid (rt_id r)), (''user_id'', C_uuid (rt_userId r)),
     (''token_hash'', C_text (rt_tokenHash r)), (''parent_id'', opt_cell C_uuid (rt_parentId r)),
     (''user_agent'', opt_cell C_text (rt_userAgent r)), (''ip'', opt_cell C_text (rt_ip r)),
     (''expires_at'', C_time (rt_expiresAt r)), (''revoked_at'', opt_cell C_time (rt_revokedAt r)),
     (''revoked_reason'', opt_cell C_text (rt_revokedReason r))]"

definition email_cells :: "email_row \<Rightarrow> cells" where
  "email_cells e =
    [(''user_id'', C_uuid (em_userId e)), (''conversation_id'', opt_cell C_uuid (em_conversationId e)),
     (''kind'', C_text (em_kind e)), (''sent_at'', C_time (em_sentAt e)),
     (''dedup_key'', C_text (em_dedupKey e))]"

definition kp_cells :: "kp_row \<Rightarrow> cells" where
  "kp_cells k =
    [(''id'', C_uuid (kp_id k)), (''user_id'', C_uuid (kp_userId k)),
     (''device_id'', C_text (kp_deviceId k)), (''cipher_suite'', C_text (kp_cipherSuite k)),
     (''key_package'', C_bytes (kp_keyPackage k)), (''consumed_at'', opt_cell C_time (kp_consumedAt k)),
     (''consumed_by'', opt_cell C_uuid (kp_consumedBy k)), (''expires_at'', C_time (kp_expiresAt k)),
     (''created_at'', C_time (kp_createdAt k))]"

definition group_cells :: "group_row \<Rightarrow> cells" where
  "group_cells g =
    [(''id'', C_uuid (gr_id g)), (''conversation_id'', C_uuid (gr_conversationId g)),
     (''group_id_mls'', C_bytes (gr_groupIdMls g)), (''cipher_suite'', C_text (gr_cipherSuite g)),
     (''epoch'', C_int (gr_epoch g)), (''created_by'', C_uuid (gr_createdBy g))]"

definition mls_cells :: "mls_row \<Rightarrow> cells" where
  "mls_cells m =
    [(''id'', C_uuid (ml_id m)), (''group_id'', C_uuid (ml_groupId m)),
     (''sender_user_id'', opt_cell C_uuid (ml_senderUserId m)),
     (''sender_device_id'', opt_cell C_text (ml_senderDeviceId m)),
     (''kind'', C_text (mls_kind_string (ml_kind m))), (''epoch'', C_int (ml_epoch m)),
     (''sequence'', C_int (ml_sequence m)), (''target_user_id'', opt_cell C_uuid (ml_targetUserId m)),
     (''ciphertext'', C_bytes (ml_ciphertext m)), (''created_at'', C_time (ml_createdAt m))]"

definition att_cells :: "att_row \<Rightarrow> cells" where
  "att_cells a =
    [(''id'', C_uuid (at_id a)), (''message_id'', opt_cell C_uuid (at_messageId a)),
     (''conversation_id'', C_uuid (at_conversationId a)), (''uploader_id'', C_uuid (at_uploaderId a)),
     (''object_key'', C_text (at_objectKey a)), (''original_filename'', C_text (at_originalFilename a)),
     (''mime_type'', C_text (at_mimeType a)), (''size_bytes'', C_int (at_sizeBytes a)),
     (''scan_status'', C_text (scan_string (at_scanStatus a))),
     (''created_at'', C_time (at_createdAt a))]"

text \<open>The tables of a world, under their names in the schema.\<close>

definition database :: "world \<Rightarrow> (string \<times> cells list) list" where
  "database w =
    [(''users'', map user_cells (w_users w)), (''orders'', map order_cells (w_orders w)),
     (''conversations'', map conv_cells (w_convs w)),
     (''conversation_participants'', map part_cells (w_parts w)),
     (''messages'', map msg_cells (w_msgs w)), (''message_receipts'', map receipt_cells (w_receipts w)),
     (''message_events_outbox'', map outbox_cells (w_outbox w)),
     (''audit_log'', map audit_cells (w_audit w)), (''message_reports'', map report_cells (w_reports w)),
     (''refresh_tokens'', map token_cells (w_tokens w)),
     (''email_notifications'', map email_cells (w_emails w)),
     (''mls_key_packages'', map kp_cells (w_kps w)), (''mls_groups'', map group_cells (w_groups w)),
     (''mls_messages'', map mls_cells (w_mls w)), (''attachments'', map att_cells (w_atts w))]"

definition rows_of :: "world \<Rightarrow> string \<Rightarrow> cells list" where
  "rows_of w t = (case map_of (database w) t of None \<Rightarrow> [] | Some rows \<Rightarrow> rows)"

text \<open>A column that the row does not give is left to its default.\<close>

definition cell_at :: "cells \<Rightarrow> string \<Rightarrow> cell" where
  "cell_at r c = (case map_of r c of None \<Rightarrow> Null | Some v \<Rightarrow> v)"

definition holds_null :: "world \<Rightarrow> string \<Rightarrow> string \<Rightarrow> bool" where
  "holds_null w t c = list_ex (\<lambda>r. cell_at r c = Null) (rows_of w t)"

section \<open>Constraints\<close>

fun type_fits :: "sql_type \<Rightarrow> cell \<Rightarrow> bool" where
  "type_fits ty Null = True"
| "type_fits ty (C_uuid u) = (ty = T_uuid)"
| "type_fits ty (C_text s) =
     (case ty of T_text \<Rightarrow> True | T_citext \<Rightarrow> True | T_varchar n \<Rightarrow> True | T_inet \<Rightarrow> True | _ \<Rightarrow> False)"
| "type_fits ty (C_bool b) = (ty = T_boolean)"
| "type_fits ty (C_int i) = (ty = T_integer \<or> ty = T_bigint)"
| "type_fits ty (C_time i) = (ty = T_timestamptz)"
| "type_fits ty (C_real n) = (ty = T_real)"
| "type_fits ty (C_bytes b) = (ty = T_bytea)"
| "type_fits ty C_json = (ty = T_jsonb)"

definition check_holds :: "column \<Rightarrow> cell \<Rightarrow> bool" where
  "check_holds c v =
     (case cl_check c of None \<Rightarrow> True
      | Some vs \<Rightarrow> (case v of C_text s \<Rightarrow> s \<in> set vs | _ \<Rightarrow> v = Null))"

text \<open>
  What an \<open>INSERT\<close> of the row meets, besides keys: every cell belongs to a column of the
  table, has its type and passes its check, and a column without a value may be null or has a
  default.
\<close>

definition insertable :: "schema \<Rightarrow> string \<Rightarrow> cells \<Rightarrow> bool" where
  "insertable s t r =
     (case table_named s t of None \<Rightarrow> False
      | Some tb \<Rightarrow>
          list_all (\<lambda>(n, v). case column_named tb n of None \<Rightarrow> False
             | Some c \<Rightarrow> type_fits (cl_type c) v \<and> check_holds c v \<and> (cl_notNull c \<longrightarrow> v \<noteq> Null)) r
          \<and> list_all (\<lambda>c. cl_notNull c \<longrightarrow> cl_default c \<noteq> None \<or> map_of r (cl_name c) \<noteq> None)
             (tb_columns tb))"

definition same_value :: "sql_type \<Rightarrow> cell \<Rightarrow> cell \<Rightarrow> bool" where
  "same_value ty v v' =
     (v \<noteq> Null \<and>
      (case (ty, v, v') of (T_citext, C_text a, C_text b) \<Rightarrow> to_lower a = to_lower b | _ \<Rightarrow> v = v'))"

fun cond_holds :: "index_cond \<Rightarrow> cells \<Rightarrow> bool" where
  "cond_holds Always r = True"
| "cond_holds (Where_null c) r = (cell_at r c = Null)"
| "cond_holds (Where_not_null c) r = (cell_at r c \<noteq> Null)"
| "cond_holds (Where_true c) r = (cell_at r c = C_bool True)"

text \<open>The keys of a table: its unique columns, its primary key, its unique indexes.\<close>

definition keys_of :: "schema \<Rightarrow> string \<Rightarrow> ((string \<times> sql_type) list \<times> index_cond) list" where
  "keys_of s t =
     (case table_named s t of None \<Rightarrow> []
      | Some tb \<Rightarrow>
          (let typed = \<lambda>n. (n, case column_named tb n of None \<Rightarrow> T_text | Some c \<Rightarrow> cl_type c)
           in map (\<lambda>c. ([typed (cl_name c)], Always)) (filter cl_unique (tb_columns tb))
              @ (if tb_primaryKey tb = [] then [] else [(map typed (tb_primaryKey tb), Always)])
              @ map (\<lambda>i. (map typed (in_columns i), in_cond i))
                  (filter (\<lambda>i. in_table i = t \<and> in_unique i) (sc_indexes s))))"

definition same_key :: "(string \<times> sql_type) list \<times> index_cond \<Rightarrow> cells \<Rightarrow> cells \<Rightarrow> bool" where
  "same_key k x y =
     (cond_holds (snd k) x \<and> cond_holds (snd k) y
      \<and> list_all (\<lambda>(n, ty). same_value ty (cell_at x n) (cell_at y n)) (fst k))"

definition key_clash :: "schema \<Rightarrow> string \<Rightarrow> cells \<Rightarrow> cells \<Rightarrow> bool" where
  "key_clash s t x y = list_ex (\<lambda>k. same_key k x y) (keys_of s t)"

section \<open>The migrated tables, one by one\<close>

lemmas column_defs = col_def not_null_def uniq_def dflt_def refs_to_def check_in_def id_column_def
  time_column_def

lemma opt_cell_null [simp]: "opt_cell f x = Null \<longleftrightarrow> (case x of None \<Rightarrow> True | Some y \<Rightarrow> f y = Null)"
  by (simp add: opt_cell_def split: option.split)

lemma type_fits_opt [simp]: "(\<And>y. type_fits ty (f y)) \<Longrightarrow> type_fits ty (opt_cell f x)"
  by (simp add: opt_cell_def split: option.split)

lemma check_free [simp]: "cl_check c = None \<Longrightarrow> check_holds c v"
  by (simp add: check_holds_def)

lemmas insertable_defs = insertable_def table_named_def migrated_tables final_tables_def
  column_named_def column_defs check_holds_def

lemma insertable_user: "insertable migrated ''users'' (user_cells x)"
  by (simp add: insertable_defs user_cells_def, cases "us_role x") simp_all

lemma insertable_order: "insertable migrated ''orders'' (order_cells x)"
  by (simp add: insertable_defs order_cells_def)

lemma insertable_conv: "insertable migrated ''conversations'' (conv_cells x)"
  by (simp add: insertable_defs conv_cells_def)

lemma insertable_part: "insertable migrated ''conversation_participants'' (part_cells x)"
  by (simp add: insertable_defs part_cells_def)

lemma insertable_msg: "insertable migrated ''messages'' (msg_cells x)"
  by (simp add: insertable_defs msg_cells_def)

lemma insertable_receipt: "insertable migrated ''message_receipts'' (receipt_cells x)"
  by (simp add: insertable_defs receipt_cells_def)

lemma insertable_outbox: "insertable migrated ''message_events_outbox'' (outbox_cells x)"
  by (simp add: insertable_defs outbox_cells_def)

lemma insertable_audit: "insertable migrated ''audit_log'' (audit_cells x)"
  by (simp add: insertable_defs audit_cells_def)

lemma insertable_report: "insertable migrated ''message_reports'' (report_cells x)"
  by (simp add: insertable_defs report_cells_def)

lemma insertable_token: "insertable migrated ''refresh_tokens'' (token_cells x)"
  by (simp add: insertable_defs token_cells_def)

lemma insertable_email: "insertable migrated ''email_notifications'' (email_cells x)"
  by (simp add: insertable_defs email_cells_def)

lemma insertable_kp: "insertable migrated ''mls_key_packages'' (kp_cells x)"
  by (simp add: insertable_defs kp_cells_def)

lemma insertable_group: "insertable migrated ''mls_groups'' (group_cells x)"
  by (simp add: insertable_defs group_cells_def)

lemma insertable_mls: "insertable migrated ''mls_messages'' (mls_cells x)"
  by (simp add: insertable_defs mls_cells_def, cases "ml_kind x") simp_all

lemma insertable_att: "insertable migrated ''attachments'' (att_cells x)"
  by (simp add: insertable_defs att_cells_def)

lemmas insertable_rows = insertable_user insertable_order insertable_conv insertable_part
  insertable_msg insertable_receipt insertable_outbox insertable_audit insertable_report
  insertable_token insertable_email insertable_kp insertable_group insertable_mls insertable_att


text \<open>The keys of the tables whose uniqueness the operations can meet.\<close>

definition keyed_tables :: "string list" where
  "keyed_tables =
    [''users'', ''orders'', ''conversations'', ''conversation_participants'', ''messages'',
     ''message_receipts'', ''message_events_outbox'', ''refresh_tokens'', ''email_notifications'',
     ''mls_groups'', ''mls_messages'']"

definition unique_in :: "schema \<Rightarrow> string \<Rightarrow> cells list \<Rightarrow> bool" where
  "unique_in s t rows = sorted_wrt (\<lambda>x y. \<not> key_clash s t x y) rows"

lemma unique_index_filter:
  "filter (\<lambda>i. in_table i = t \<and> in_unique i) is = filter (\<lambda>i. in_table i = t) (filter in_unique is)"
  by (simp add: conj_commute)

lemmas keys_defs = keys_of_def table_named_def migrated_tables final_tables_def column_named_def
  column_defs unique_index_filter migrated_unique_indexes

lemma same_opt [simp]: "opt_cell C_text x = opt_cell C_text y \<longleftrightarrow> x = y"
  by (simp add: opt_cell_def split: option.split)

lemmas clash_defs = key_clash_def same_key_def same_value_def cell_at_def

lemma key_clash_user: "key_clash migrated ''users'' (user_cells x) (user_cells y) = user_clash x y"
  by (auto simp: keys_defs clash_defs user_cells_def user_clash_def opt_cell_def split: option.splits)

lemma key_clash_order: "key_clash migrated ''orders'' (order_cells x) (order_cells y) = order_clash x y"
  by (auto simp: keys_defs clash_defs order_cells_def order_clash_def opt_cell_def split: option.splits)

lemma key_clash_conv: "key_clash migrated ''conversations'' (conv_cells x) (conv_cells y) = conv_clash x y"
  by (auto simp: keys_defs clash_defs conv_cells_def conv_clash_def opt_cell_def split: option.splits)

lemma key_clash_part: "key_clash migrated ''conversation_participants'' (part_cells x) (part_cells y) = part_clash x y"
  by (auto simp: keys_defs clash_defs part_cells_def part_clash_def opt_cell_def split: option.splits)

lemma key_clash_msg: "key_clash migrated ''messages'' (msg_cells x) (msg_cells y) = msg_clash x y"
  by (auto simp: keys_defs clash_defs msg_cells_def msg_clash_def opt_cell_def split: option.splits)

lemma key_clash_receipt: "key_clash migrated ''message_receipts'' (receipt_cells x) (receipt_cells y) = receipt_clash x y"
  by (auto simp: keys_defs clash_defs receipt_cells_def receipt_clash_def opt_cell_def split: option.splits)

lemma key_clash_outbox: "key_clash migrated ''message_events_outbox'' (outbox_cells x) (outbox_cells y) = outbox_clash x y"
  by (auto simp: keys_defs clash_defs outbox_cells_def outbox_clash_def opt_cell_def split: option.splits)

lemma key_clash_token: "key_clash migrated ''refresh_tokens'' (token_cells x) (token_cells y) = token_clash x y"
  by (auto simp: keys_defs clash_defs token_cells_def token_clash_def opt_cell_def split: option.splits)

lemma key_clash_email: "key_clash migrated ''email_notifications'' (email_cells x) (email_cells y) = email_clash x y"
  by (auto simp: keys_defs clash_defs email_cells_def email_clash_def opt_cell_def split: option.splits)

lemma key_clash_group: "key_clash migrated ''mls_groups'' (group_cells x) (group_cells y) = group_clash x y"
  by (auto simp: keys_defs clash_defs group_cells_def group_clash_def opt_cell_def split: option.splits)

lemma key_clash_mls: "key_clash migrated ''mls_messages'' (mls_cells x) (mls_cells y) = mls_clash x y"
  by (auto simp: keys_defs clash_defs mls_cells_def mls_clash_def opt_cell_def split: option.splits)

lemmas key_clash_rows = key_clash_user key_clash_order key_clash_conv key_clash_part key_clash_msg key_clash_receipt key_clash_outbox key_clash_token key_clash_email key_clash_group key_clash_mls

lemma unique_in_map:
  "(\<And>x y. key_clash s t (f x) (f y) = clash x y) \<Longrightarrow> unique_in s t (map f rows) = clash_free clash rows"
  by (simp add: unique_in_def clash_free_def sorted_wrt_map)


section \<open>Rolling back\<close>

definition has_null_body :: "world \<Rightarrow> bool" where
  "has_null_body w = list_ex (\<lambda>m. ms_body m = None) (w_msgs w)"

lemma holds_null_body: "holds_null w ''messages'' ''body'' = has_null_body w"
proof -
  have rows: "rows_of w ''messages'' = map msg_cells (w_msgs w)"
    by (simp add: rows_of_def database_def)
  have "cell_at (msg_cells m) ''body'' = opt_cell C_text (ms_body m)" for m
    by (simp add: msg_cells_def cell_at_def)
  then have "cell_at (msg_cells m) ''body'' = Null \<longleftrightarrow> ms_body m = None" for m
    by (cases "ms_body m") (simp_all add: opt_cell_def)
  then show ?thesis
    unfolding holds_null_def rows has_null_body_def list_ex_iff by auto
qed

text \<open>
  Exactly when the database can be rolled back. Reverting the four migrations on a
  database with the rows of the world succeeds, and leaves only the extensions, when every
  stored message has a plain body; as soon as one has none, the revert fails at
  \<open>ALTER COLUMN body SET NOT NULL\<close> of the second migration, whatever else is stored.
\<close>
theorem rollback_needs_plain_bodies:
  "revert (holds_null w) (rev migrations) migrated
     = (if has_null_body w then None else Some extensions_only)"
proof (cases "has_null_body w")
  case True
  then have "holds_null w ''messages'' ''body''" by (simp add: holds_null_body)
  from revert_null [of "holds_null w", OF this] True show ?thesis by simp
next
  case False
  then have "\<not> holds_null w ''messages'' ''body''" by (simp add: holds_null_body)
  from revert_no_nulls [of "holds_null w", OF this, of 3] False show ?thesis
    by (simp add: migrations_def)
qed

lemma encrypted_send_null_body:
  assumes "cf_encryptBody cfg" "find_replay inp w = None"
    and "messages_send env k cfg t0 t ry inp w = (Inr r, w')"
  shows "has_null_body w'"
  using assms(3)
proof (cases rule: messages_send_cases)
  case (sent sb w1 m w2)
  from sent(3) obtain conv where "store_message t ry inp (scan (js_trim (si_body inp))) sb conv w1 = Inr (m, w2)"
    using assms(2) find_replay_db [OF sent(1), of inp] by (elim send_tx_Inr) auto
  note st = store_message_Inr [OF this]
  have "ms_body m = None"
    using assms(1) sent(2) by (auto simp: st(1) new_message_def body_stored_as_def)
  then show ?thesis
    using st(2) db_eqD [OF sent(5)] by (auto simp: has_null_body_def)
qed simp_all

text \<open>
  After one message has been sent with encryption on (the default), the database cannot
  be rolled back past the second migration: the body was stored as ciphertext only, so the
  revert fails for the new state of the database.
\<close>
theorem encrypted_send_blocks_rollback:
  assumes "cf_encryptBody cfg" "find_replay inp w = None"
    and "messages_send env k cfg t0 t ry inp w = (Inr r, w')"
  shows "revert (holds_null w') (rev migrations) migrated = None"
proof -
  have "holds_null w' ''messages'' ''body''"
    using encrypted_send_null_body [OF assms] by (simp add: holds_null_body)
  from revert_null [of "holds_null w'", OF this] show ?thesis .
qed

theorem encrypted_send_blocks_rollback_witness:
  "\<exists>r w'. sample_send (sample_input u_alice ''Bonjour'' None) sample_world = (Inr r, w')
    \<and> revert (holds_null w') (rev migrations) migrated = None"
proof -
  have "\<exists>r w'. sample_send (sample_input u_alice ''Bonjour'' None) sample_world = (Inr r, w')"
    by (rule run_Inr) code_simp
  then obtain r w' where sent: "sample_send (sample_input u_alice ''Bonjour'' None) sample_world = (Inr r, w')"
    by blast
  have "find_replay (sample_input u_alice ''Bonjour'' None) sample_world = None"
    by (simp add: find_replay_def sample_input_def)
  from encrypted_send_blocks_rollback [OF _ this sent [unfolded sample_send_def]] sent
  show ?thesis by (auto simp: default_config_def)
qed

section \<open>Foreign keys\<close>

text \<open>Each reference of the schema: table, column, referenced table, action on deletion.\<close>

definition foreign_keys :: "schema \<Rightarrow> (string \<times> string \<times> string \<times> on_delete) list" where
  "foreign_keys s =
     concat (map (\<lambda>tb. concat (map (\<lambda>c. case cl_references c of None \<Rightarrow> []
         | Some (u, od) \<Rightarrow> [(tb_name tb, cl_name c, u, od)]) (tb_columns tb))) (sc_tables s))"

lemma migrated_foreign_keys:
  "foreign_keys migrated =
    [(''orders'', ''customer_id'', ''users'', On_restrict),
     (''orders'', ''seller_id'', ''users'', On_restrict),
     (''conversations'', ''order_id'', ''orders'', On_cascade),
     (''conversation_participants'', ''conversation_id'', ''conversations'', On_cascade),
     (''conversation_participants'', ''user_id'', ''users'', On_cascade),
     (''messages'', ''conversation_id'', ''conversations'', On_cascade),
     (''messages'', ''sender_id'', ''users'', On_restrict),
     (''messages'', ''moderated_by'', ''users'', On_set_null),
     (''message_receipts'', ''message_id'', ''messages'', On_cascade),
     (''message_receipts'', ''user_id'', ''users'', On_cascade),
     (''attachments'', ''message_id'', ''messages'', On_cascade),
     (''attachments'', ''conversation_id'', ''conversations'', On_cascade),
     (''attachments'', ''uploader_id'', ''users'', On_restrict),
     (''audit_log'', ''actor_id'', ''users'', On_set_null),
     (''message_reports'', ''message_id'', ''messages'', On_cascade),
     (''message_reports'', ''reporter_id'', ''users'', On_set_null),
     (''message_reports'', ''resolved_by'', ''users'', On_set_null),
     (''refresh_tokens'', ''user_id'', ''users'', On_cascade),
     (''refresh_tokens'', ''parent_id'', ''refresh_tokens'', On_set_null),
     (''email_notifications'', ''user_id'', ''users'', On_cascade),
     (''email_notifications'', ''conversation_id'', ''conversations'', On_cascade),
     (''mls_key_packages'', ''user_id'', ''users'', On_cascade),
     (''mls_key_packages'', ''consumed_by'', ''users'', On_set_null),
     (''mls_groups'', ''conversation_id'', ''conversations'', On_cascade),
     (''mls_groups'', ''created_by'', ''users'', On_restrict),
     (''mls_messages'', ''group_id'', ''mls_groups'', On_cascade),
     (''mls_messages'', ''sender_user_id'', ''users'', On_set_null),
     (''mls_messages'', ''target_user_id'', ''users'', On_set_null)]"
  by (simp add: foreign_keys_def migrated_tables final_tables_def column_defs)

text \<open>A reference that is to be set to null by a deletion, in a column that forbids null.\<close>

definition null_required :: "schema \<Rightarrow> (string \<times> string) list" where
  "null_required s =
     map (\<lambda>(t, c, u, od). (t, c))
       (filter (\<lambda>(t, c, u, od). od = On_set_null
          \<and> (case table_named s t of None \<Rightarrow> False
             | Some tb \<Rightarrow> (case column_named tb c of None \<Rightarrow> False | Some cl \<Rightarrow> cl_notNull cl)))
         (foreign_keys s))"

text \<open>
  One reference of the schema contradicts itself: deleting a user must set
  \<open>message_reports.reporter_id\<close> to null, which the column forbids, so a user who has reported a
  message cannot be deleted. No other reference that is set to null is declared \<open>NOT NULL\<close>.
\<close>
theorem reporter_cannot_be_nulled: "null_required migrated = [(''message_reports'', ''reporter_id'')]"
  by (simp add: null_required_def migrated_foreign_keys table_named_def column_named_def
      migrated_tables final_tables_def column_defs)

end
