(* ===== verification/Entities.thy ===== *)
theory Entities
  imports Schema
begin

text \<open>
  The entity classes (backend/src/modules/*/entities) as TypeORM reads them, the data source that
  lists them (database/data-source.ts), and their comparison with the schema that the
  migrations create. TypeORM names a column by the \<open>name\<close> of its decorator and, when there is
  none, by the property itself; every read of an entity and every insertion names all its
  columns. Indexes that are not unique, relations and TypeScript types are left out.
\<close>

section \<open>Decorators\<close>

text \<open>
  \<open>ec_filled\<close>: the database gives the value when the code does not (a generated key, a date of
  creation or update, a \<open>default\<close>).
\<close>

record entity_column =
  ec_property :: string
  ec_named :: "string option"
  ec_type :: sql_type
  ec_nullable :: bool
  ec_unique :: bool
  ec_primary :: bool
  ec_filled :: bool

definition attr :: "string \<Rightarrow> sql_type \<Rightarrow> entity_column" where
  "attr p ty = \<lparr>ec_property = p, ec_named = None, ec_type = ty, ec_nullable = False,
                ec_unique = False, ec_primary = False, ec_filled = False\<rparr>"

definition named :: "string \<Rightarrow> entity_column \<Rightarrow> entity_column" where
  "named n c = c\<lparr>ec_named := Some n\<rparr>"

definition nullable :: "entity_column \<Rightarrow> entity_column" where
  "nullable c = c\<lparr>ec_nullable := True\<rparr>"

definition unique_col :: "entity_column \<Rightarrow> entity_column" where
  "unique_col c = c\<lparr>ec_unique := True\<rparr>"

definition primary :: "entity_column \<Rightarrow> entity_column" where
  "primary c = c\<lparr>ec_primary := True\<rparr>"

definition filled :: "entity_column \<Rightarrow> entity_column" where
  "filled c = c\<lparr>ec_filled := True\<rparr>"

text \<open>\<open>en_unique\<close>: the unique indexes of the class, over properties.\<close>

record entity =
  en_table :: string
  en_columns :: "entity_column list"
  en_unique :: "(string list \<times> index_cond) list"

definition column_of :: "entity_column \<Rightarrow> string" where
  "column_of c = coalesce (ec_named c) (ec_property c)"

section \<open>The entities\<close>

definition user_entity :: entity where
  "user_entity =
    \<lparr>en_table = ''users'', en_columns =
       [primary (filled (attr ''id'' T_uuid)),
        unique_col (attr ''email'' T_citext),
        named ''password_hash'' (attr ''passwordHash'' T_text),
        attr ''role'' (T_varchar 32),
        nullable (attr ''displayName'' (T_varchar 120)),
        nullable (named ''mfa_secret'' (attr ''mfaSecret'' T_text)),
        filled (named ''is_suspended'' (attr ''isSuspended'' T_boolean)),
        nullable (named ''anonymized_at'' (attr ''anonymizedAt'' T_timestamptz)),
        nullable (named ''data_export_requested_at'' (attr ''dataExportRequestedAt'' T_timestamptz)),
        filled (named ''created_at'' (attr ''createdAt'' T_timestamptz)),
        filled (named ''updated_at'' (attr ''updatedAt'' T_timestamptz))],
     en_unique = []\<rparr>"

definition order_entity :: entity where
  "order_entity =
    \<lparr>en_table = ''orders'', en_columns =
       [primary (filled (attr ''id'' T_uuid)),
        unique_col (named ''external_ref'' (attr ''externalRef'' (T_varchar 64))),
        named ''customer_id'' (attr ''customerId'' T_uuid),
        named ''seller_id'' (attr ''sellerId'' T_uuid),
        filled (attr ''status'' (T_varchar 32)),
        filled (named ''total_cents'' (attr ''totalCents'' T_integer)),
        filled (attr ''currency'' (T_varchar 3)),
        filled (named ''created_at'' (attr ''createdAt'' T_timestamptz))],
     en_unique = []\<rparr>"

definition conv_entity :: entity where
  "conv_entity =
    \<lparr>en_table = ''conversations'', en_columns =
       [primary (filled (attr ''id'' T_uuid)),
        unique_col (named ''order_id'' (attr ''orderId'' T_uuid)),
        filled (attr ''status'' (T_varchar 32)),
        nullable (named ''subject'' (attr ''subject'' (T_varchar 200))),
        nullable (named ''last_message_at'' (attr ''lastMessageAt'' T_timestamptz)),
        filled (named ''last_sequence'' (attr ''lastSequence'' T_bigint)),
        filled (named ''created_at'' (attr ''createdAt'' T_timestamptz)),
        filled (named ''updated_at'' (attr ''updatedAt'' T_timestamptz)),
        filled (named ''search_indexed'' (attr ''searchIndexed'' T_boolean)),
        nullable (named ''search_indexed_at'' (attr ''searchIndexedAt'' T_timestamptz)),
        filled (named ''e2ee_enabled'' (attr ''e2eeEnabled'' T_boolean)),
        nullable (named ''e2ee_enabled_at'' (attr ''e2eeEnabledAt'' T_timestamptz))],
     en_unique = []\<rparr>"

definition part_entity :: entity where
  "part_entity =
    \<lparr>en_table = ''conversation_participants'', en_columns =
       [primary (named ''conversation_id'' (attr ''conversationId'' T_uuid)),
        primary (named ''user_id'' (attr ''userId'' T_uuid)),
        attr ''role'' (T_varchar 32),
        filled (named ''joined_at'' (attr ''joinedAt'' T_timestamptz)),
        nullable (named ''left_at'' (attr ''leftAt'' T_timestamptz)),
        filled (attr ''muted'' T_boolean),
        filled (named ''last_read_sequence'' (attr ''lastReadSequence'' T_bigint))],
     en_unique = []\<rparr>"

definition msg_entity :: entity where
  "msg_entity =
    \<lparr>en_table = ''messages'', en_columns =
       [primary (filled (attr ''id'' T_uuid)),
        named ''conversation_id'' (attr ''conversationId'' T_uuid),
        named ''sender_id'' (attr ''senderId'' T_uuid),
        attr ''sequence'' T_bigint,
        nullable (attr ''body'' T_text),
        nullable (named ''body_ciphertext'' (attr ''bodyCiphertext'' T_bytea)),
        nullable (named ''body_dek_id'' (attr ''bodyDekId'' (T_varchar 128))),
        nullable (named ''body_alg'' (attr ''bodyAlg'' (T_varchar 32))),
        nullable (named ''body_iv'' (attr ''bodyIv'' T_bytea)),
        nullable (named ''body_tag'' (attr ''bodyTag'' T_bytea)),
        filled (named ''body_format'' (attr ''bodyFormat'' (T_varchar 16))),
        filled (attr ''status'' (T_varchar 16)),
        nullable (named ''idempotency_key'' (attr ''idempotencyKey'' (T_varchar 128))),
        nullable (named ''moderation_flags'' (attr ''moderationFlags'' T_jsonb)),
        filled (named ''moderation_score'' (attr ''moderationScore'' T_real)),
        nullable (named ''moderated_by'' (attr ''moderatedBy'' T_uuid)),
        nullable (named ''moderated_at'' (attr ''moderatedAt'' T_timestamptz)),
        filled (named ''created_at'' (attr ''createdAt'' T_timestamptz)),
        nullable (named ''edited_at'' (attr ''editedAt'' T_timestamptz)),
        nullable (named ''deleted_at'' (attr ''deletedAt'' T_timestamptz))],
     en_unique = [([''conversationId'', ''sequence''], Always), ([''conversationId'', ''senderId'', ''idempotencyKey''], Where_not_null ''idempotency_key'')]\<rparr>"

definition receipt_entity :: entity where
  "receipt_entity =
    \<lparr>en_table = ''message_receipts'', en_columns =
       [primary (named ''message_id'' (attr ''messageId'' T_uuid)),
        primary (named ''user_id'' (attr ''userId'' T_uuid)),
        nullable (named ''delivered_at'' (attr ''deliveredAt'' T_timestamptz)),
        nullable (named ''read_at'' (attr ''readAt'' T_timestamptz))],
     en_unique = []\<rparr>"

definition att_entity :: entity where
  "att_entity =
    \<lparr>en_table = ''attachments'', en_columns =
       [primary (filled (attr ''id'' T_uuid)),
        nullable (named ''message_id'' (attr ''messageId'' T_uuid)),
        named ''conversation_id'' (attr ''conversationId'' T_uuid),
        named ''uploader_id'' (attr ''uploaderId'' T_uuid),
        named ''object_key'' (attr ''objectKey'' T_text),
        named ''original_filename'' (attr ''originalFilename'' (T_varchar 255)),
        named ''mime_type'' (attr ''mimeType'' (T_varchar 128)),
        named ''size_bytes'' (attr ''sizeBytes'' T_bigint),
        nullable (attr ''sha256'' (T_varchar 64)),
        filled (named ''scan_status'' (attr ''scanStatus'' (T_varchar 16))),
        filled (named ''created_at'' (attr ''createdAt'' T_timestamptz))],
     en_unique = []\<rparr>"

definition outbox_entity :: entity where
  "outbox_entity =
    \<lparr>en_table = ''message_events_outbox'', en_columns =
       [primary (filled (attr ''id'' T_uuid)),
        named ''event_type'' (attr ''eventType'' (T_varchar 64)),
        named ''aggregate_id'' (attr ''aggregateId'' T_uuid),
        attr ''payload'' T_jsonb,
        nullable (named ''processed_at'' (attr ''processedAt'' T_timestamptz)),
        filled (named ''created_at'' (attr ''createdAt'' T_timestamptz))],
     en_unique = []\<rparr>"

definition audit_entity :: entity where
  "audit_entity =
    \<lparr>en_table = ''audit_log'', en_columns =
       [primary (filled (attr ''id'' T_uuid)),
        nullable (named ''actor_id'' (attr ''actorId'' T_uuid)),
        attr ''action'' (T_varchar 64),
        named ''target_type'' (attr ''targetType'' (T_varchar 32)),
        nullable (named ''target_id'' (attr ''targetId'' T_uuid)),
        nullable (attr ''ip'' T_inet),
        nullable (named ''user_agent'' (attr ''userAgent'' T_text)),
        nullable (attr ''metadata'' T_jsonb),
        filled (named ''created_at'' (attr ''createdAt'' T_timestamptz))],
     en_unique = []\<rparr>"

definition report_entity :: entity where
  "report_entity =
    \<lparr>en_table = ''message_reports'', en_columns =
       [primary (filled (attr ''id'' T_uuid)),
        named ''message_id'' (attr ''messageId'' T_uuid),
        named ''reporter_id'' (attr ''reporterId'' T_uuid),
        attr ''reason'' (T_varchar 64),
        nullable (attr ''details'' T_text),
        filled (attr ''status'' (T_varchar 16)),
        nullable (named ''resolved_by'' (attr ''resolvedBy'' T_uuid)),
        nullable (named ''resolved_at'' (attr ''resolvedAt'' T_timestamptz)),
        filled (named ''created_at'' (attr ''createdAt'' T_timestamptz))],
     en_unique = []\<rparr>"

definition token_entity :: entity where
  "token_entity =
    \<lparr>en_table = ''refresh_tokens'', en_columns =
       [primary (filled (attr ''id'' T_uuid)),
        named ''user_id'' (attr ''userId'' T_uuid),
        unique_col (named ''token_hash'' (attr ''tokenHash'' (T_varchar 128))),
        nullable (named ''parent_id'' (attr ''parentId'' T_uuid)),
        nullable (named ''user_agent'' (attr ''userAgent'' T_text)),
        nullable (attr ''ip'' T_inet),
        named ''expires_at'' (attr ''expiresAt'' T_timestamptz),
        nullable (named ''revoked_at'' (attr ''revokedAt'' T_timestamptz)),
        nullable (named ''revoked_reason'' (attr ''revokedReason'' (T_varchar 64))),
        filled (named ''created_at'' (attr ''createdAt'' T_timestamptz))],
     en_unique = []\<rparr>"

definition email_entity :: entity where
  "email_entity =
    \<lparr>en_table = ''email_notifications'', en_columns =
       [primary (filled (attr ''id'' T_uuid)),
        named ''user_id'' (attr ''userId'' T_uuid),
        nullable (named ''conversation_id'' (attr ''conversationId'' T_uuid)),
        attr ''kind'' (T_varchar 48),
        filled (named ''sent_at'' (attr ''sentAt'' T_timestamptz)),
        unique_col (named ''dedup_key'' (attr ''dedupKey'' (T_varchar 128)))],
     en_unique = []\<rparr>"

definition kp_entity :: entity where
  "kp_entity =
    \<lparr>en_table = ''mls_key_packages'', en_columns =
       [primary (filled (attr ''id'' T_uuid)),
        named ''user_id'' (attr ''userId'' T_uuid),
        named ''device_id'' (attr ''deviceId'' (T_varchar 64)),
        named ''cipher_suite'' (attr ''cipherSuite'' (T_varchar 64)),
        named ''key_package'' (attr ''keyPackage'' T_bytea),
        nullable (named ''consumed_at'' (attr ''consumedAt'' T_timestamptz)),
        nullable (named ''consumed_by'' (attr ''consumedBy'' T_uuid)),
        named ''expires_at'' (attr ''expiresAt'' T_timestamptz),
        filled (named ''created_at'' (attr ''createdAt'' T_timestamptz))],
     en_unique = []\<rparr>"

definition group_entity :: entity where
  "group_entity =
    \<lparr>en_table = ''mls_groups'', en_columns =
       [primary (filled (attr ''id'' T_uuid)),
        unique_col (named ''conversation_id'' (attr ''conversationId'' T_uuid)),
        named ''group_id_mls'' (attr ''groupIdMls'' T_bytea),
        named ''cipher_suite'' (attr ''cipherSuite'' (T_varchar 64)),
        filled (attr ''epoch'' T_bigint),
        named ''created_by'' (attr ''createdBy'' T_uuid),
        filled (named ''created_at'' (attr ''createdAt'' T_timestamptz))],
     en_unique = []\<rparr>"

definition mls_entity :: entity where
  "mls_entity =
    \<lparr>en_table = ''mls_messages'', en_columns =
       [primary (filled (attr ''id'' T_uuid)),
        named ''group_id'' (attr ''groupId'' T_uuid),
        nullable (named ''sender_user_id'' (attr ''senderUserId'' T_uuid)),
        nullable (named ''sender_device_id'' (attr ''senderDeviceId'' (T_varchar 64))),
        attr ''kind'' (T_varchar 24),
        attr ''epoch'' T_bigint,
        attr ''sequence'' T_bigint,
        nullable (named ''target_user_id'' (attr ''targetUserId'' T_uuid)),
        attr ''ciphertext'' T_bytea,
        filled (named ''created_at'' (attr ''createdAt'' T_timestamptz))],
     en_unique = [([''groupId'', ''sequence''], Always)]\<rparr>"

definition entities :: "entity list" where
  "entities =
    [user_entity, order_entity, conv_entity, part_entity, msg_entity, receipt_entity, att_entity, outbox_entity, audit_entity, report_entity, token_entity, email_entity, kp_entity, group_entity, mls_entity]"

section \<open>The data source\<close>

record data_source =
  ds_host :: "string option"
  ds_port :: "int option"
  ds_username :: "string option"
  ds_password :: "string option"
  ds_database :: "string option"
  ds_tls :: bool
  ds_verifyTls :: bool
  ds_entities :: "entity list"
  ds_migrations :: "migration list"
  ds_migrationsRun :: bool
  ds_synchronize :: bool
  ds_logging :: "string list"
  ds_poolMax :: "int option"
  ds_idleTimeoutMillis :: int
  ds_connectionTimeoutMillis :: int

text \<open>The environment is read as text; a number that does not parse is NaN, \<open>None\<close> here.\<close>

definition typeOrmConfig :: "(string \<Rightarrow> string option) \<Rightarrow> data_source" where
  "typeOrmConfig env =
     \<lparr>ds_host = env ''DB_HOST'', ds_port = parse_int (coalesce (env ''DB_PORT'') ''5432''),
      ds_username = env ''DB_USERNAME'', ds_password = env ''DB_PASSWORD'', ds_database = env ''DB_NAME'',
      ds_tls = (env ''DB_SSL'' = Some ''true''), ds_verifyTls = False,
      ds_entities = entities, ds_migrations = migrations, ds_migrationsRun = False, ds_synchronize = False,
      ds_logging = (if env ''NODE_ENV'' = Some ''production'' then [''error''] else [''error'', ''warn'']),
      ds_poolMax = parse_int (coalesce (env ''DB_POOL_MAX'') ''10''),
      ds_idleTimeoutMillis = 30000, ds_connectionTimeoutMillis = 5000\<rparr>"

section \<open>Entities against the schema\<close>

definition db_column :: "schema \<Rightarrow> entity \<Rightarrow> entity_column \<Rightarrow> column option" where
  "db_column s e c = (case table_named s (en_table e) of None \<Rightarrow> None | Some tb \<Rightarrow> column_named tb (column_of c))"

definition columns_missing :: "schema \<Rightarrow> entity \<Rightarrow> string list" where
  "columns_missing s e = map column_of (filter (\<lambda>c. db_column s e c = None) (en_columns e))"

text \<open>
  Columns whose type differs; columns that may be left without a value by the code and not by
  the database; columns of the database that need a value and that the class does not name.
\<close>

definition columns_mistyped :: "schema \<Rightarrow> entity \<Rightarrow> string list" where
  "columns_mistyped s e =
     map column_of (filter (\<lambda>c. case db_column s e c of None \<Rightarrow> False | Some d \<Rightarrow> cl_type d \<noteq> ec_type c) (en_columns e))"

definition columns_stricter :: "schema \<Rightarrow> entity \<Rightarrow> string list" where
  "columns_stricter s e =
     map column_of (filter (\<lambda>c. case db_column s e c of None \<Rightarrow> False
       | Some d \<Rightarrow> (ec_nullable c \<and> cl_notNull d) \<or> (ec_filled c \<and> cl_default d = None)) (en_columns e))"

definition columns_unnamed :: "schema \<Rightarrow> entity \<Rightarrow> string list" where
  "columns_unnamed s e =
     (case table_named s (en_table e) of None \<Rightarrow> []
      | Some tb \<Rightarrow> map cl_name (filter (\<lambda>d. cl_notNull d \<and> cl_default d = None
          \<and> cl_name d \<notin> set (map column_of (en_columns e))) (tb_columns tb)))"

text \<open>Columns that only the database lets be null.\<close>

definition columns_laxer :: "schema \<Rightarrow> entity \<Rightarrow> string list" where
  "columns_laxer s e =
     map column_of (filter (\<lambda>c. case db_column s e c of None \<Rightarrow> False
       | Some d \<Rightarrow> \<not> ec_nullable c \<and> \<not> cl_notNull d) (en_columns e))"

definition entity_keys :: "entity \<Rightarrow> (string list \<times> index_cond) list" where
  "entity_keys e =
     (let name = \<lambda>p. case find (\<lambda>c. ec_property c = p) (en_columns e) of None \<Rightarrow> p | Some c \<Rightarrow> column_of c
      in (map column_of (filter ec_primary (en_columns e)), Always)
         # map (\<lambda>c. ([column_of c], Always)) (filter ec_unique (en_columns e))
         @ map (\<lambda>(ps, cond). (map name ps, cond)) (en_unique e))"

definition table_keys :: "schema \<Rightarrow> string \<Rightarrow> (string list \<times> index_cond) list" where
  "table_keys s t = map (\<lambda>(k, cond). (map fst k, cond)) (keys_of s t)"

lemmas attr_defs = attr_def named_def nullable_def unique_col_def primary_def filled_def column_of_def

lemmas entity_defs = user_entity_def order_entity_def conv_entity_def part_entity_def msg_entity_def
  receipt_entity_def att_entity_def outbox_entity_def audit_entity_def report_entity_def
  token_entity_def email_entity_def kp_entity_def group_entity_def mls_entity_def

lemmas fit_defs = db_column_def table_named_def column_named_def migrated_tables final_tables_def
  column_defs attr_defs

definition entity_fits :: "schema \<Rightarrow> entity \<Rightarrow> bool" where
  "entity_fits s e \<longleftrightarrow> columns_mistyped s e = [] \<and> columns_stricter s e = [] \<and> columns_unnamed s e = []
     \<and> set (entity_keys e) = set (table_keys s (en_table e))"

lemmas fit_checks = entity_fits_def columns_mistyped_def columns_stricter_def columns_unnamed_def
  entity_keys_def table_keys_def keys_defs fit_defs

lemma fits_user: "entity_fits migrated user_entity"
  by (auto simp: fit_checks user_entity_def)

lemma fits_order: "entity_fits migrated order_entity"
  by (auto simp: fit_checks order_entity_def)

lemma fits_conv: "entity_fits migrated conv_entity"
  by (auto simp: fit_checks conv_entity_def)

lemma fits_part: "entity_fits migrated part_entity"
  by (auto simp: fit_checks part_entity_def)

lemma fits_msg: "entity_fits migrated msg_entity"
  by (auto simp: fit_checks msg_entity_def)

lemma fits_receipt: "entity_fits migrated receipt_entity"
  by (auto simp: fit_checks receipt_entity_def)

lemma fits_att: "entity_fits migrated att_entity"
  by (auto simp: fit_checks att_entity_def)

lemma fits_outbox: "entity_fits migrated outbox_entity"
  by (auto simp: fit_checks outbox_entity_def)

lemma fits_audit: "entity_fits migrated audit_entity"
  by (auto simp: fit_checks audit_entity_def)

lemma fits_report: "entity_fits migrated report_entity"
  by (auto simp: fit_checks report_entity_def)

lemma fits_token: "entity_fits migrated token_entity"
  by (auto simp: fit_checks token_entity_def)

lemma fits_email: "entity_fits migrated email_entity"
  by (auto simp: fit_checks email_entity_def)

lemma fits_kp: "entity_fits migrated kp_entity"
  by (auto simp: fit_checks kp_entity_def)

lemma fits_group: "entity_fits migrated group_entity"
  by (auto simp: fit_checks group_entity_def)

lemma fits_mls: "entity_fits migrated mls_entity"
  by (auto simp: fit_checks mls_entity_def)

lemmas fits = fits_user fits_order fits_conv fits_part fits_msg fits_receipt fits_att fits_outbox
  fits_audit fits_report fits_token fits_email fits_kp fits_group fits_mls

lemma missing_user: "columns_missing migrated user_entity = [''displayName'']"
  by (simp add: user_entity_def columns_missing_def fit_defs)

lemma missing_others: "list_all (\<lambda>e. columns_missing migrated e = []) (tl entities)"
  by code_simp

lemma laxer_columns:
  "concat (map (columns_laxer migrated) entities) = [''moderation_score'']"
  by (simp add: entities_def entity_defs columns_laxer_def fit_defs)


section \<open>Statements of TypeORM\<close>

text \<open>
  A statement that names a column its table does not have fails with code 42703. Reads of an
  entity and insertions name all its columns; \<open>repository\<close> runs such an operation of the model
  on a schema.
\<close>

definition statement_error :: "schema \<Rightarrow> entity \<Rightarrow> exn option" where
  "statement_error s e = (if columns_missing s e = [] then None else Some (DbError ''42703''))"

definition repository :: "schema \<Rightarrow> entity \<Rightarrow> (world \<Rightarrow> (world, 'a) res) \<Rightarrow> world \<Rightarrow> (world, 'a) res" where
  "repository s e f w = (case statement_error s e of Some x \<Rightarrow> (Inl x, w) | None \<Rightarrow> f w)"

text \<open>The missing migration: \<open>ALTER TABLE users ADD COLUMN "displayName" varchar(120)\<close>.\<close>

definition repaired :: schema where
  "repaired = (case alter_all (no_nulls ''users'') ''users'' [Add_column (col ''displayName'' (T_varchar 120))] migrated of
     None \<Rightarrow> migrated | Some s \<Rightarrow> s)"

text \<open>
  On the migrated schema no account can be read or created. Whatever a repository of \<open>User\<close> is
  asked, login and registration included, it fails with code 42703 and changes nothing, while
  the repositories of the fourteen other entities work; with the column added, the statements on
  \<open>User\<close> do what the model of the accounts says.
\<close>
theorem accounts_need_missing_column:
  "repository migrated user_entity f w = (Inl (DbError ''42703''), w)
   \<and> list_all (\<lambda>e. repository migrated e g w = g w) (tl entities)
   \<and> repository repaired user_entity f w = f w"
proof -
  have "list_all (\<lambda>e. statement_error migrated e = None) (tl entities)"
    using missing_others by (simp add: entities_def statement_error_def)
  moreover have "statement_error migrated user_entity = Some (DbError ''42703'')"
    by (simp add: missing_user statement_error_def)
  moreover have "statement_error repaired user_entity = None"
    by code_simp
  ultimately show ?thesis by (simp add: repository_def list_all_iff)
qed

end
