(* ===== verification/History.thy ===== *)
theory History
  imports Api Schema
begin

text \<open>
  What holds over the whole life of the server about the rows it stores: the references
  between tables, read off the foreign keys of the migrated schema, and the messages as a log
  that only grows.

  A reference is \<open>followed\<close> here when the server fills it itself: from a row it has looked up,
  or from a value it checks. The columns that hold the identifier of the caller (the sender of
  a message, the user of a participant, the author of a report) are left out: the token is the
  only evidence that the caller is stored, and the database answers for it.
\<close>

section \<open>References\<close>

definition caller_columns :: "(string \<times> string) list" where
  "caller_columns =
    [(''conversation_participants'', ''user_id''), (''messages'', ''sender_id''),
     (''messages'', ''moderated_by''), (''message_receipts'', ''user_id''),
     (''attachments'', ''uploader_id''), (''audit_log'', ''actor_id''),
     (''message_reports'', ''reporter_id''), (''message_reports'', ''resolved_by''),
     (''mls_key_packages'', ''user_id''), (''mls_key_packages'', ''consumed_by''),
     (''mls_groups'', ''created_by''), (''mls_messages'', ''sender_user_id'')]"

definition followed_keys :: "(string \<times> string \<times> string) list" where
  "followed_keys =
     map (\<lambda>(t, c, u, od). (t, c, u))
       (filter (\<lambda>(t, c, u, od). (t, c) \<notin> set caller_columns) (foreign_keys migrated))"

text \<open>The values of a column, without nulls.\<close>

definition column_values :: "world \<Rightarrow> string \<Rightarrow> string \<Rightarrow> cell set" where
  "column_values w t c = (\<lambda>r. cell_at r c) ` set (rows_of w t) - {Null}"

definition stored_ids :: "world \<Rightarrow> (string \<times> cell) set" where
  "stored_ids w = (\<Union>(t, c, u) \<in> set followed_keys. Pair u ` column_values w u ''id'')"

definition pointers :: "world \<Rightarrow> (string \<times> cell) set" where
  "pointers w = (\<Union>(t, c, u) \<in> set followed_keys. Pair u ` column_values w t c)"

definition references_ok :: "world \<Rightarrow> bool" where
  "references_ok w \<longleftrightarrow>
     list_all (\<lambda>(t, c, u). column_values w t c \<subseteq> column_values w u ''id'') followed_keys"

lemma references_ok_pointers: "references_ok w \<longleftrightarrow> pointers w \<subseteq> stored_ids w"
proof
  assume ok: "references_ok w"
  show "pointers w \<subseteq> stored_ids w"
  proof
    fix x assume "x \<in> pointers w"
    then obtain t c u v where "(t, c, u) \<in> set followed_keys" "x = (u, v)" "v \<in> column_values w t c"
      unfolding pointers_def by blast
    with ok show "x \<in> stored_ids w" unfolding references_ok_def stored_ids_def list_all_iff by fast
  qed
next
  assume sub: "pointers w \<subseteq> stored_ids w"
  have "column_values w t c \<subseteq> column_values w u ''id''" if k: "(t, c, u) \<in> set followed_keys" for t c u
  proof
    fix v assume "v \<in> column_values w t c"
    with k have "(u, v) \<in> pointers w" unfolding pointers_def by blast
    with sub have "(u, v) \<in> stored_ids w" by blast
    then show "v \<in> column_values w u ''id''" unfolding stored_ids_def by blast
  qed
  then show "references_ok w" unfolding references_ok_def list_all_iff by blast
qed

lemma followed_keys_eq:
  "followed_keys =
    [(''orders'', ''customer_id'', ''users''), (''orders'', ''seller_id'', ''users''),
     (''conversations'', ''order_id'', ''orders''),
     (''conversation_participants'', ''conversation_id'', ''conversations''),
     (''messages'', ''conversation_id'', ''conversations''),
     (''message_receipts'', ''message_id'', ''messages''),
     (''attachments'', ''message_id'', ''messages''),
     (''attachments'', ''conversation_id'', ''conversations''),
     (''message_reports'', ''message_id'', ''messages''),
     (''refresh_tokens'', ''user_id'', ''users''),
     (''refresh_tokens'', ''parent_id'', ''refresh_tokens''),
     (''email_notifications'', ''user_id'', ''users''),
     (''email_notifications'', ''conversation_id'', ''conversations''),
     (''mls_groups'', ''conversation_id'', ''conversations''),
     (''mls_messages'', ''group_id'', ''mls_groups''),
     (''mls_messages'', ''target_user_id'', ''users'')]"
  by (simp add: followed_keys_def caller_columns_def migrated_foreign_keys)

text \<open>The tables as sets of identifiers and of references.\<close>

lemma rows_of_tables:
  "rows_of w ''users'' = map user_cells (w_users w)" "rows_of w ''orders'' = map order_cells (w_orders w)"
  "rows_of w ''conversations'' = map conv_cells (w_convs w)"
  "rows_of w ''conversation_participants'' = map part_cells (w_parts w)"
  "rows_of w ''messages'' = map msg_cells (w_msgs w)"
  "rows_of w ''message_receipts'' = map receipt_cells (w_receipts w)"
  "rows_of w ''message_reports'' = map report_cells (w_reports w)"
  "rows_of w ''refresh_tokens'' = map token_cells (w_tokens w)"
  "rows_of w ''email_notifications'' = map email_cells (w_emails w)"
  "rows_of w ''mls_groups'' = map group_cells (w_groups w)"
  "rows_of w ''mls_messages'' = map mls_cells (w_mls w)"
  "rows_of w ''attachments'' = map att_cells (w_atts w)"
  by (simp_all add: rows_of_def database_def)

lemma cells_of_rows:
  "cell_at (user_cells a) ''id'' = C_uuid (us_id a)" "cell_at (order_cells b) ''id'' = C_uuid (or_id b)"
  "cell_at (conv_cells c) ''id'' = C_uuid (cv_id c)" "cell_at (msg_cells d) ''id'' = C_uuid (ms_id d)"
  "cell_at (group_cells e) ''id'' = C_uuid (gr_id e)" "cell_at (token_cells f) ''id'' = C_uuid (rt_id f)"
  "cell_at (order_cells b) ''customer_id'' = C_uuid (or_customerId b)"
  "cell_at (order_cells b) ''seller_id'' = C_uuid (or_sellerId b)"
  "cell_at (conv_cells c) ''order_id'' = C_uuid (cv_orderId c)"
  "cell_at (part_cells g) ''conversation_id'' = C_uuid (pt_conversationId g)"
  "cell_at (msg_cells d) ''conversation_id'' = C_uuid (ms_conversationId d)"
  "cell_at (receipt_cells h) ''message_id'' = C_uuid (rc_messageId h)"
  "cell_at (att_cells i) ''message_id'' = opt_cell C_uuid (at_messageId i)"
  "cell_at (att_cells i) ''conversation_id'' = C_uuid (at_conversationId i)"
  "cell_at (report_cells j) ''message_id'' = C_uuid (rp_messageId j)"
  "cell_at (token_cells f) ''user_id'' = C_uuid (rt_userId f)"
  "cell_at (token_cells f) ''parent_id'' = opt_cell C_uuid (rt_parentId f)"
  "cell_at (email_cells k) ''user_id'' = C_uuid (em_userId k)"
  "cell_at (email_cells k) ''conversation_id'' = opt_cell C_uuid (em_conversationId k)"
  "cell_at (group_cells e) ''conversation_id'' = C_uuid (gr_conversationId e)"
  "cell_at (mls_cells l) ''group_id'' = C_uuid (ml_groupId l)"
  "cell_at (mls_cells l) ''target_user_id'' = opt_cell C_uuid (ml_targetUserId l)"
  by (simp_all add: cell_at_def user_cells_def order_cells_def conv_cells_def msg_cells_def
      group_cells_def token_cells_def part_cells_def receipt_cells_def att_cells_def
      report_cells_def email_cells_def mls_cells_def)

lemma opt_cell_simps [simp]: "opt_cell f None = Null" "opt_cell f (Some y) = f y"
  by (simp_all add: opt_cell_def)

lemma column_uuid:
  "rows_of w t = map g rows \<Longrightarrow> (\<And>r. cell_at (g r) c = C_uuid (f r)) \<Longrightarrow>
   column_values w t c = C_uuid ` f ` set rows"
  by (auto simp: column_values_def image_image)

lemma column_opt_uuid:
  assumes "rows_of w t = map g rows" "\<And>r. cell_at (g r) c = opt_cell C_uuid (h r)"
  shows "column_values w t c = C_uuid ` Option.these (h ` set rows)"
proof -
  have "(\<lambda>r. opt_cell C_uuid (h r)) ` A - {Null} = C_uuid ` Option.these (h ` A)" for A
  proof (intro set_eqI iffI)
    fix v
    assume "v \<in> (\<lambda>r. opt_cell C_uuid (h r)) ` A - {Null}"
    then obtain r where r: "r \<in> A" "v = opt_cell C_uuid (h r)" "v \<noteq> Null" by blast
    then obtain y where "h r = Some y" by (cases "h r") auto
    with r show "v \<in> C_uuid ` Option.these (h ` A)" by (force simp: in_these_eq)
  next
    fix v
    assume "v \<in> C_uuid ` Option.these (h ` A)"
    then obtain y where "Some y \<in> h ` A" "v = C_uuid y" by (auto simp: in_these_eq)
    then obtain r where "r \<in> A" "opt_cell C_uuid (h r) = v" "v \<noteq> Null" by auto (metis opt_cell_simps(2))
    then show "v \<in> (\<lambda>r. opt_cell C_uuid (h r)) ` A - {Null}" by blast
  qed
  then show ?thesis unfolding column_values_def assms(1) by (simp add: image_image assms(2))
qed

lemma column_values_eq:
  "column_values w ''users'' ''id'' = C_uuid ` us_id ` set (w_users w)"
  "column_values w ''orders'' ''id'' = C_uuid ` or_id ` set (w_orders w)"
  "column_values w ''conversations'' ''id'' = C_uuid ` cv_id ` set (w_convs w)"
  "column_values w ''messages'' ''id'' = C_uuid ` ms_id ` set (w_msgs w)"
  "column_values w ''refresh_tokens'' ''id'' = C_uuid ` rt_id ` set (w_tokens w)"
  "column_values w ''mls_groups'' ''id'' = C_uuid ` gr_id ` set (w_groups w)"
  "column_values w ''orders'' ''customer_id'' = C_uuid ` or_customerId ` set (w_orders w)"
  "column_values w ''orders'' ''seller_id'' = C_uuid ` or_sellerId ` set (w_orders w)"
  "column_values w ''conversations'' ''order_id'' = C_uuid ` cv_orderId ` set (w_convs w)"
  "column_values w ''conversation_participants'' ''conversation_id'' = C_uuid ` pt_conversationId ` set (w_parts w)"
  "column_values w ''messages'' ''conversation_id'' = C_uuid ` ms_conversationId ` set (w_msgs w)"
  "column_values w ''message_receipts'' ''message_id'' = C_uuid ` rc_messageId ` set (w_receipts w)"
  "column_values w ''attachments'' ''message_id'' = C_uuid ` Option.these (at_messageId ` set (w_atts w))"
  "column_values w ''attachments'' ''conversation_id'' = C_uuid ` at_conversationId ` set (w_atts w)"
  "column_values w ''message_reports'' ''message_id'' = C_uuid ` rp_messageId ` set (w_reports w)"
  "column_values w ''refresh_tokens'' ''user_id'' = C_uuid ` rt_userId ` set (w_tokens w)"
  "column_values w ''refresh_tokens'' ''parent_id'' = C_uuid ` Option.these (rt_parentId ` set (w_tokens w))"
  "column_values w ''email_notifications'' ''user_id'' = C_uuid ` em_userId ` set (w_emails w)"
  "column_values w ''email_notifications'' ''conversation_id'' = C_uuid ` Option.these (em_conversationId ` set (w_emails w))"
  "column_values w ''mls_groups'' ''conversation_id'' = C_uuid ` gr_conversationId ` set (w_groups w)"
  "column_values w ''mls_messages'' ''group_id'' = C_uuid ` ml_groupId ` set (w_mls w)"
  "column_values w ''mls_messages'' ''target_user_id'' = C_uuid ` Option.these (ml_targetUserId ` set (w_mls w))"
  subgoal by (rule column_uuid [OF rows_of_tables(1) cells_of_rows(1)])
  subgoal by (rule column_uuid [OF rows_of_tables(2) cells_of_rows(2)])
  subgoal by (rule column_uuid [OF rows_of_tables(3) cells_of_rows(3)])
  subgoal by (rule column_uuid [OF rows_of_tables(5) cells_of_rows(4)])
  subgoal by (rule column_uuid [OF rows_of_tables(8) cells_of_rows(6)])
  subgoal by (rule column_uuid [OF rows_of_tables(10) cells_of_rows(5)])
  subgoal by (rule column_uuid [OF rows_of_tables(2) cells_of_rows(7)])
  subgoal by (rule column_uuid [OF rows_of_tables(2) cells_of_rows(8)])
  subgoal by (rule column_uuid [OF rows_of_tables(3) cells_of_rows(9)])
  subgoal by (rule column_uuid [OF rows_of_tables(4) cells_of_rows(10)])
  subgoal by (rule column_uuid [OF rows_of_tables(5) cells_of_rows(11)])
  subgoal by (rule column_uuid [OF rows_of_tables(6) cells_of_rows(12)])
  subgoal by (rule column_opt_uuid [OF rows_of_tables(12) cells_of_rows(13)])
  subgoal by (rule column_uuid [OF rows_of_tables(12) cells_of_rows(14)])
  subgoal by (rule column_uuid [OF rows_of_tables(7) cells_of_rows(15)])
  subgoal by (rule column_uuid [OF rows_of_tables(8) cells_of_rows(16)])
  subgoal by (rule column_opt_uuid [OF rows_of_tables(8) cells_of_rows(17)])
  subgoal by (rule column_uuid [OF rows_of_tables(9) cells_of_rows(18)])
  subgoal by (rule column_opt_uuid [OF rows_of_tables(9) cells_of_rows(19)])
  subgoal by (rule column_uuid [OF rows_of_tables(10) cells_of_rows(20)])
  subgoal by (rule column_uuid [OF rows_of_tables(11) cells_of_rows(21)])
  subgoal by (rule column_opt_uuid [OF rows_of_tables(11) cells_of_rows(22)])
  done


lemma uuid_images:
  "C_uuid ` A \<subseteq> C_uuid ` B \<longleftrightarrow> A \<subseteq> B"
  "C_uuid ` A \<subseteq> C_uuid ` B \<union> C_uuid ` C \<longleftrightarrow> A \<subseteq> B \<union> C"
  by auto

text \<open>Identifiers stay, and a new reference goes to a stored row.\<close>

definition adds :: "world \<Rightarrow> world \<Rightarrow> bool" where
  "adds w w' \<longleftrightarrow> stored_ids w \<subseteq> stored_ids w' \<and> pointers w' \<subseteq> pointers w \<union> stored_ids w'"

lemma adds_refl [simp]: "adds w w"
  by (simp add: adds_def)

lemma adds_trans: "adds a b \<Longrightarrow> adds b c \<Longrightarrow> adds a c"
  unfolding adds_def by blast

lemma adds_references: "adds w w' \<Longrightarrow> references_ok w \<Longrightarrow> references_ok w'"
  unfolding adds_def references_ok_pointers by blast

lemma adds_columns:
  assumes "list_all (\<lambda>(t, c, u). column_values w u ''id'' \<subseteq> column_values w' u ''id''
      \<and> column_values w' t c \<subseteq> column_values w t c \<union> column_values w' u ''id'') followed_keys"
  shows "adds w w'"
proof -
  have k: "column_values w u ''id'' \<subseteq> column_values w' u ''id''"
    "column_values w' t c \<subseteq> column_values w t c \<union> column_values w' u ''id''"
    if "(t, c, u) \<in> set followed_keys" for t c u
    using assms that by (auto simp: list_all_iff)
  have "x \<in> stored_ids w'" if x: "x \<in> stored_ids w" for x
  proof -
    from x obtain t c u v where "(t, c, u) \<in> set followed_keys" "x = (u, v)" "v \<in> column_values w u ''id''"
      unfolding stored_ids_def by blast
    with k(1) show ?thesis unfolding stored_ids_def by blast
  qed
  moreover have "x \<in> pointers w \<union> stored_ids w'" if x: "x \<in> pointers w'" for x
  proof -
    from x obtain t c u v where key: "(t, c, u) \<in> set followed_keys" "x = (u, v)" "v \<in> column_values w' t c"
      unfolding pointers_def by blast
    with k(2) have "v \<in> column_values w t c \<or> v \<in> column_values w' u ''id''" by blast
    with key show ?thesis unfolding stored_ids_def pointers_def by blast
  qed
  ultimately show ?thesis unfolding adds_def by blast
qed

lemma addsI:
  assumes "us_id ` set (w_users w) \<subseteq> us_id ` set (w_users w')"
    and "or_id ` set (w_orders w) \<subseteq> or_id ` set (w_orders w')"
    and "cv_id ` set (w_convs w) \<subseteq> cv_id ` set (w_convs w')"
    and "ms_id ` set (w_msgs w) \<subseteq> ms_id ` set (w_msgs w')"
    and "rt_id ` set (w_tokens w) \<subseteq> rt_id ` set (w_tokens w')"
    and "gr_id ` set (w_groups w) \<subseteq> gr_id ` set (w_groups w')"
    and "or_customerId ` set (w_orders w') \<subseteq> or_customerId ` set (w_orders w) \<union> us_id ` set (w_users w')"
    and "or_sellerId ` set (w_orders w') \<subseteq> or_sellerId ` set (w_orders w) \<union> us_id ` set (w_users w')"
    and "cv_orderId ` set (w_convs w') \<subseteq> cv_orderId ` set (w_convs w) \<union> or_id ` set (w_orders w')"
    and "pt_conversationId ` set (w_parts w') \<subseteq> pt_conversationId ` set (w_parts w) \<union> cv_id ` set (w_convs w')"
    and "ms_conversationId ` set (w_msgs w') \<subseteq> ms_conversationId ` set (w_msgs w) \<union> cv_id ` set (w_convs w')"
    and "rc_messageId ` set (w_receipts w') \<subseteq> rc_messageId ` set (w_receipts w) \<union> ms_id ` set (w_msgs w')"
    and "Option.these (at_messageId ` set (w_atts w')) \<subseteq> Option.these (at_messageId ` set (w_atts w)) \<union> ms_id ` set (w_msgs w')"
    and "at_conversationId ` set (w_atts w') \<subseteq> at_conversationId ` set (w_atts w) \<union> cv_id ` set (w_convs w')"
    and "rp_messageId ` set (w_reports w') \<subseteq> rp_messageId ` set (w_reports w) \<union> ms_id ` set (w_msgs w')"
    and "rt_userId ` set (w_tokens w') \<subseteq> rt_userId ` set (w_tokens w) \<union> us_id ` set (w_users w')"
    and "Option.these (rt_parentId ` set (w_tokens w')) \<subseteq> Option.these (rt_parentId ` set (w_tokens w)) \<union> rt_id ` set (w_tokens w')"
    and "em_userId ` set (w_emails w') \<subseteq> em_userId ` set (w_emails w) \<union> us_id ` set (w_users w')"
    and "Option.these (em_conversationId ` set (w_emails w')) \<subseteq> Option.these (em_conversationId ` set (w_emails w)) \<union> cv_id ` set (w_convs w')"
    and "gr_conversationId ` set (w_groups w') \<subseteq> gr_conversationId ` set (w_groups w) \<union> cv_id ` set (w_convs w')"
    and "ml_groupId ` set (w_mls w') \<subseteq> ml_groupId ` set (w_mls w) \<union> gr_id ` set (w_groups w')"
    and "Option.these (ml_targetUserId ` set (w_mls w')) \<subseteq> Option.these (ml_targetUserId ` set (w_mls w)) \<union> us_id ` set (w_users w')"
  shows "adds w w'"
proof (rule adds_columns)
  show "list_all (\<lambda>(t, c, u). column_values w u ''id'' \<subseteq> column_values w' u ''id''
      \<and> column_values w' t c \<subseteq> column_values w t c \<union> column_values w' u ''id'') followed_keys"
    unfolding followed_keys_eq list.pred_inject prod.case column_values_eq uuid_images
    by (intro conjI list.pred_inject(1) TrueI assms)
qed

text \<open>Tables that keep their keys, in any operation that leaves the references alone.\<close>

lemma adds_frame:
  assumes "map us_id (w_users w') = map us_id (w_users w)" "w_orders w' = w_orders w"
    "map (\<lambda>c. (cv_id c, cv_orderId c)) (w_convs w') = map (\<lambda>c. (cv_id c, cv_orderId c)) (w_convs w)"
    "map pt_conversationId (w_parts w') = map pt_conversationId (w_parts w)"
    "map (\<lambda>m. (ms_id m, ms_conversationId m)) (w_msgs w') = map (\<lambda>m. (ms_id m, ms_conversationId m)) (w_msgs w)"
    "map rc_messageId (w_receipts w') = map rc_messageId (w_receipts w)"
    "map (\<lambda>r. (rt_id r, rt_userId r, rt_parentId r)) (w_tokens w')
       = map (\<lambda>r. (rt_id r, rt_userId r, rt_parentId r)) (w_tokens w)"
    "w_emails w' = w_emails w" "map (\<lambda>g. (gr_id g, gr_conversationId g)) (w_groups w')
       = map (\<lambda>g. (gr_id g, gr_conversationId g)) (w_groups w)"
    "w_mls w' = w_mls w" "w_atts w' = w_atts w"
    "map rp_messageId (w_reports w') = map rp_messageId (w_reports w)"
  shows "adds w w'"
proof -
  have keys: "us_id ` set (w_users w') = us_id ` set (w_users w)"
    "cv_id ` set (w_convs w') = cv_id ` set (w_convs w)"
    "cv_orderId ` set (w_convs w') = cv_orderId ` set (w_convs w)"
    "pt_conversationId ` set (w_parts w') = pt_conversationId ` set (w_parts w)"
    "ms_id ` set (w_msgs w') = ms_id ` set (w_msgs w)"
    "ms_conversationId ` set (w_msgs w') = ms_conversationId ` set (w_msgs w)"
    "rc_messageId ` set (w_receipts w') = rc_messageId ` set (w_receipts w)"
    "rt_id ` set (w_tokens w') = rt_id ` set (w_tokens w)"
    "rt_userId ` set (w_tokens w') = rt_userId ` set (w_tokens w)"
    "rt_parentId ` set (w_tokens w') = rt_parentId ` set (w_tokens w)"
    "gr_id ` set (w_groups w') = gr_id ` set (w_groups w)"
    "gr_conversationId ` set (w_groups w') = gr_conversationId ` set (w_groups w)"
    "rp_messageId ` set (w_reports w') = rp_messageId ` set (w_reports w)"
    using arg_cong [OF assms(1), of set] arg_cong [OF assms(4), of set] arg_cong [OF assms(6), of set]
      arg_cong [OF assms(12), of set]
      arg_cong [OF assms(3), of "\<lambda>xs. set (map fst xs)"] arg_cong [OF assms(3), of "\<lambda>xs. set (map snd xs)"]
      arg_cong [OF assms(5), of "\<lambda>xs. set (map fst xs)"] arg_cong [OF assms(5), of "\<lambda>xs. set (map snd xs)"]
      arg_cong [OF assms(7), of "\<lambda>xs. set (map fst xs)"]
      arg_cong [OF assms(7), of "\<lambda>xs. set (map (\<lambda>x. fst (snd x)) xs)"]
      arg_cong [OF assms(7), of "\<lambda>xs. set (map (\<lambda>x. snd (snd x)) xs)"]
      arg_cong [OF assms(9), of "\<lambda>xs. set (map fst xs)"] arg_cong [OF assms(9), of "\<lambda>xs. set (map snd xs)"]
    by (simp_all add: image_image)
  show ?thesis by (rule addsI) (simp_all add: keys assms(2,8,10,11))
qed

lemma adds_db: "db w' = db w \<Longrightarrow> adds w w'"
  by (rule adds_frame) (simp_all only: db_eqD [of w' w])

lemma adds_audit [simp]: "adds w (audit_log a w') = adds w w'"
proof -
  have "adds w' (audit_log a w')" "adds (audit_log a w') w'" by (rule adds_frame; simp)+
  then show ?thesis using adds_trans by blast
qed

section \<open>The messages as a log\<close>

definition stored_text :: "msg_row \<Rightarrow> string option \<times> bytes option \<times> string option \<times> bytes option \<times> bytes option" where
  "stored_text m = (ms_body m, ms_bodyCiphertext m, ms_bodyDekId m, ms_bodyIv m, ms_bodyTag m)"

definition msg_core :: "msg_row \<Rightarrow> uuid \<times> uuid \<times> uuid \<times> int \<times> int \<times> string option \<times> int option" where
  "msg_core m = (ms_id m, ms_conversationId m, ms_senderId m, ms_sequence m, ms_createdAt m,
     ms_idempotencyKey m, ms_editedAt m)"

definition erased :: "msg_row \<Rightarrow> bool" where
  "erased m \<longleftrightarrow> stored_text m = (None, None, None, None, None) \<and> ms_deletedAt m \<noteq> None"

definition msg_evolves :: "msg_row \<Rightarrow> msg_row \<Rightarrow> bool" where
  "msg_evolves m m' \<longleftrightarrow> msg_core m' = msg_core m
     \<and> (ms_deletedAt m \<noteq> None \<longrightarrow> ms_deletedAt m' \<noteq> None)
     \<and> (stored_text m' = stored_text m \<or> erased m')"

lemma msg_evolves_refl [simp]: "msg_evolves m m"
  by (simp add: msg_evolves_def)

lemma msg_evolves_trans: "msg_evolves a b \<Longrightarrow> msg_evolves b c \<Longrightarrow> msg_evolves a c"
  unfolding msg_evolves_def erased_def by auto

definition log_grows :: "msg_row list \<Rightarrow> msg_row list \<Rightarrow> bool" where
  "log_grows ms ms' \<longleftrightarrow> list_all2 msg_evolves ms (take (length ms) ms')"

lemma log_grows_append [simp]: "log_grows ms (ms @ new)"
  by (simp add: log_grows_def list_all2_refl)

lemma log_grows_refl [simp]: "log_grows ms ms"
  using log_grows_append [of ms "[]"] by simp

lemma log_grows_trans:
  assumes "log_grows a b" "log_grows b c"
  shows "log_grows a c"
proof -
  have len: "length a \<le> length b" "length b \<le> length c"
    using list_all2_lengthD [OF assms(1) [unfolded log_grows_def]]
      list_all2_lengthD [OF assms(2) [unfolded log_grows_def]] by simp_all
  have "list_all2 msg_evolves (take (length a) b) (take (length a) (take (length b) c))"
    using list_all2_takeI [OF assms(2) [unfolded log_grows_def]] .
  then have "list_all2 msg_evolves (take (length a) b) (take (length a) c)"
    using len by (simp add: min_def)
  with assms(1) show ?thesis
    unfolding log_grows_def by (rule list_all2_trans [rotated]) (rule msg_evolves_trans)
qed

lemma log_grows_update:
  "(\<And>m. m \<in> set ms \<Longrightarrow> p m \<Longrightarrow> msg_evolves m (f m)) \<Longrightarrow> log_grows ms (update_rows p f ms)"
  by (auto simp: log_grows_def update_rows_def list_all2_conv_all_nth)

section \<open>What every operation respects\<close>

definition extends :: "world \<Rightarrow> world \<Rightarrow> bool" where
  "extends w w' \<longleftrightarrow> sound w w' \<and> (wf w \<longrightarrow> adds w w' \<and> log_grows (w_msgs w) (w_msgs w'))"

lemma extends_refl [simp]: "extends w w"
  by (simp add: extends_def)

lemma extends_trans: "extends a b \<Longrightarrow> extends b c \<Longrightarrow> extends a c"
  unfolding extends_def using sound_trans adds_trans log_grows_trans unfolding sound_def by blast

lemma extends_quiet: "sound w w' \<Longrightarrow> adds w w' \<Longrightarrow> w_msgs w' = w_msgs w \<Longrightarrow> extends w w'"
  by (simp add: extends_def)

lemma extends_audit [simp]: "extends w (audit_log a w') = extends w w'"
  by (simp add: extends_def)

lemma extends_db: "db w' = db w \<Longrightarrow> extends w w'"
  using sound_db [of w' w] adds_db [of w' w] db_eqD(5) [of w' w] by (intro extends_quiet)

text \<open>Insertions, one table at a time.\<close>

lemma adds_part:
  "pt_conversationId ` set ps \<subseteq> pt_conversationId ` set (w_parts w) \<union> cv_id ` set (w_convs w) \<Longrightarrow>
   adds w (w\<lparr>w_parts := ps\<rparr>)"
  by (rule addsI) auto

lemma adds_token:
  "rt_userId r \<in> rt_userId ` set (w_tokens w) \<union> us_id ` set (w_users w) \<Longrightarrow>
   (\<And>p. rt_parentId r = Some p \<Longrightarrow> p \<in> rt_id ` set (w_tokens w)) \<Longrightarrow>
   adds w (w\<lparr>w_tokens := w_tokens w @ [r]\<rparr>)"
  by (rule addsI) (auto simp: in_these_eq)

text \<open>Operations that add references at most, and leave the messages alone.\<close>

definition quiet :: "world \<Rightarrow> world \<Rightarrow> bool" where
  "quiet w w' \<longleftrightarrow> adds w w' \<and> w_msgs w' = w_msgs w"

lemma quiet_refl [simp]: "quiet w w"
  by (simp add: quiet_def)

lemma quiet_trans: "quiet a b \<Longrightarrow> quiet b c \<Longrightarrow> quiet a c"
  unfolding quiet_def using adds_trans by metis

lemma quiet_db: "db w' = db w \<Longrightarrow> quiet w w'"
  using adds_db [of w' w] db_eqD(5) [of w' w] by (simp add: quiet_def)

lemma quiet_other [simp]:
  "quiet w (w\<lparr>w_kps := a\<rparr>)" "quiet w (w\<lparr>w_mails := b\<rparr>)" "quiet w (w\<lparr>w_nats := c\<rparr>)"
  "quiet w (w\<lparr>w_index := d\<rparr>)" "quiet w (w\<lparr>w_s3 := e\<rparr>)" "quiet w (w\<lparr>w_presence := f\<rparr>)"
  "quiet w (w\<lparr>w_rate := g\<rparr>)" "quiet w (w\<lparr>w_outbox := h\<rparr>)"
  unfolding quiet_def by (intro conjI adds_frame; simp)+

lemma quiet_audit [simp]: "quiet w (audit_log a w') = quiet w w'"
  by (simp add: quiet_def)

lemma quiet_metrics [simp]: "quiet w (metrics_count cfg t n v d w)" "quiet w (metrics_gauge cfg t n v u w)"
  by (rule quiet_db; simp)+

lemma extends_quietI: "sound w w' \<Longrightarrow> quiet w w' \<Longrightarrow> extends w w'"
  unfolding quiet_def using extends_quiet by blast

text \<open>Access checks.\<close>

lemma save_part_convs:
  "pt_conversationId ` set (save_part p rows) \<subseteq> insert (pt_conversationId p) (pt_conversationId ` set rows)"
  by (auto simp: save_part_def set_update_rows)

lemma assertCanAccess_quiet: "quiet w (snd (assertCanAccess t u r c w))"
proof -
  have "quiet w (w\<lparr>w_parts := save_part (new_part t c u r) (w_parts w)\<rparr>)" if "c \<in> cv_id ` set (w_convs w)"
    using that save_part_convs [of "new_part t c u r" "w_parts w"]
    unfolding quiet_def by (intro conjI adds_part) (auto simp: new_part_def)
  then show ?thesis
    by (auto simp: assertCanAccess_def split: sum.split option.split dest: getByIdOrThrow_Inr)
qed

lemma assertCanAccess_extends: "extends w (snd (assertCanAccess t u r c w))"
  by (rule extends_quietI [OF assertCanAccess_sound assertCanAccess_quiet])

interpretation still: access_law quiet
  by unfold_locales (simp, erule (1) quiet_trans, rule assertCanAccess_quiet)

interpretation log: access_law extends
  by unfold_locales (simp, erule (1) extends_trans, rule assertCanAccess_extends)

lemma access_conv: "assertCanAccess t u r c w = (Inr g, w1) \<Longrightarrow> c \<in> cv_id ` set (w_convs w1)"
  by (auto simp: assertCanAccess_def split: sum.splits option.splits if_splits dest!: getByIdOrThrow_Inr)

text \<open>Messages.\<close>

lemma save_receipts_ids:
  "rc_messageId ` set (fold save_receipt rs rows) \<subseteq> rc_messageId ` set rs \<union> rc_messageId ` set rows"
proof (induction rs arbitrary: rows)
  case (Cons r rs)
  have "rc_messageId ` set (save_receipt r rows) \<subseteq> insert (rc_messageId r) (rc_messageId ` set rows)"
    by (auto simp: save_receipt_def)
  with Cons [of "save_receipt r rows"] show ?case by auto
qed simp

lemma image_update_rows:
  "(\<And>r. key (f r) = key r) \<Longrightarrow> key ` set (update_rows p f rows) = key ` set rows"
  using map_update_rows [of key f p rows] by (metis set_map)

lemma store_message_other:
  "store_message t ry inp sr sb conv w = Inr (m, w') \<Longrightarrow> w_atts w' = w_atts w \<and> w_reports w' = w_reports w"
  by (auto simp: store_message_def bumpLastMessage_def Let_def split: if_splits sum.splits)

lemma store_message_adds:
  assumes "store_message t ry inp sr sb conv w = Inr (m, w')" "conv \<in> set (w_convs w)"
    "cv_id conv = si_conversationId inp"
  shows "adds w w'"
proof -
  note st = store_message_Inr [OF assms(1)]
  have convs: "cv_id ` set (w_convs w') = cv_id ` set (w_convs w)"
    "cv_orderId ` set (w_convs w') = cv_orderId ` set (w_convs w)"
    by (simp_all add: st(7) image_update_rows)
  have receipts: "rc_messageId ` set (w_receipts w') \<subseteq> rc_messageId ` set (w_receipts w) \<union> ms_id ` set (w_msgs w')"
    unfolding st(2,8) by (rule order_trans [OF save_receipts_ids]) auto
  have "ms_conversationId m \<in> cv_id ` set (w_convs w)"
    using assms(2) by (simp add: st(1) new_message_def assms(3) [symmetric])
  then have msgs: "ms_id ` set (w_msgs w) \<subseteq> ms_id ` set (w_msgs w')"
    "ms_conversationId ` set (w_msgs w') \<subseteq> ms_conversationId ` set (w_msgs w) \<union> cv_id ` set (w_convs w')"
    unfolding convs st(2) by auto
  note other = store_message_other [OF assms(1), THEN conjunct1] store_message_other [OF assms(1), THEN conjunct2]
  show ?thesis
    by (rule addsI; (rule receipts msgs | unfold convs st(9-15) other, blast))
qed

lemma messages_send_extends: "extends w (snd (messages_send env k cfg t0 t ry inp w))"
proof -
  obtain r w' where send: "messages_send env k cfg t0 t ry inp w = (r, w')" by fastforce
  then have "adds w w' \<and> log_grows (w_msgs w) (w_msgs w')"
  proof (cases rule: messages_send_cases)
    case (early e)
    then show ?thesis using adds_db [of w' w] db_eqD(5) [of w' w] by simp
  next
    case (tx e sb w1)
    then show ?thesis using adds_db [of w' w] db_eqD(5) [of w' w] by simp
  next
    case (sent sb w1 m w2)
    have "adds w1 w2 \<and> log_grows (w_msgs w1) (w_msgs w2)"
      by (rule send_tx_Inr [OF sent(3)]) (auto simp: store_message_Inr(2) dest: store_message_adds)
    with adds_db [OF sent(1)] adds_db [OF sent(5)] show ?thesis
      unfolding db_eqD(5) [OF sent(5)] db_eqD(5) [OF sent(1), symmetric] using adds_trans by blast
  qed
  with messages_send_sound [of w env k cfg t0 t ry inp] send show ?thesis by (simp add: extends_def)
qed

lemma messages_list_extends: "extends w (snd (messages_list env k pg_int8 qb t p w))"
  by (rule extends_db) (simp add: messages_list_def db_decrypt_all split: sum.split)

lemma markRead_extends: "extends w (snd (markRead cfg pg_int8 t obid c u s w))"
proof (rule extends_quiet [OF markRead_sound])
  have db: "db (publishReadReceipt cfg c u s w1) = db w1" for w1 by simp
  have tx: "adds w w1 \<and> w_msgs w1 = w_msgs w" if "mark_read_tx pg_int8 t obid c u s w = Inr ((), w1)" for w1
    using that by (auto simp: mark_read_tx_def Let_def map_update_rows split: sum.splits intro!: adds_frame)
  show "adds w (snd (markRead cfg pg_int8 t obid c u s w))"
    "w_msgs (snd (markRead cfg pg_int8 t obid c u s w)) = w_msgs w"
  proof (atomize (full), cases "mark_read_tx pg_int8 t obid c u s w")
    case (Inr x)
    then obtain w1 where x: "mark_read_tx pg_int8 t obid c u s w = Inr ((), w1)" by (cases x) auto
    then have "snd (markRead cfg pg_int8 t obid c u s w) = publishReadReceipt cfg c u s w1"
      by (simp add: markRead_def)
    with tx [OF x] adds_trans [OF _ adds_db [OF db]] db_eqD(5) [OF db]
    show "adds w (snd (markRead cfg pg_int8 t obid c u s w))
      \<and> w_msgs (snd (markRead cfg pg_int8 t obid c u s w)) = w_msgs w" by simp
  qed (simp add: markRead_def)
qed

lemma wf_msgs: "wf w \<Longrightarrow> m \<in> set (w_msgs w) \<Longrightarrow> m' \<in> set (w_msgs w) \<Longrightarrow> ms_id m = ms_id m' \<Longrightarrow> m = m'"
  using inv_tables(5) [of w] clash_freeD [of msg_clash "w_msgs w" m m'] by (auto simp: wf_def msg_clash_def)

lemma erase_body_evolves: "msg_evolves m (erase_body t m)"
  by (simp add: msg_evolves_def erased_def msg_core_def stored_text_def erase_body_def)

lemma adds_same_msgs:
  assumes "map (\<lambda>m. (ms_id m, ms_conversationId m)) ms = map (\<lambda>m. (ms_id m, ms_conversationId m)) (w_msgs w)"
  shows "adds w (w\<lparr>w_msgs := ms\<rparr>)"
  by (rule adds_frame) (simp_all add: assms)

lemma softDelete_extends: "extends w (snd (softDelete cfg t mid u w))"
proof (cases "find (\<lambda>m. ms_id m = mid) (w_msgs w)")
  case (Some m)
  note m = find_SomeD [OF Some]
  define w1 where "w1 = audit_log (mk_audit u ''message.deleted'' ''message'' mid None)
      (w\<lparr>w_msgs := update_rows (\<lambda>x. ms_id x = mid) (\<lambda>x. erase_body t m) (w_msgs w)\<rparr>)"
  show ?thesis
  proof (cases "ms_senderId m = u")
    case True
    with Some have w': "snd (softDelete cfg t mid u w) = publishMessageDeleted cfg (erase_body t m) w1"
      by (simp add: softDelete_def w1_def)
    have db: "db (publishMessageDeleted cfg (erase_body t m) w1) = db w1" by simp
    have rows: "update_rows (\<lambda>x. ms_id x = mid) (\<lambda>x. erase_body t m) (w_msgs w)
        = update_rows (\<lambda>x. ms_id x = mid) (erase_body t) (w_msgs w)" if "wf w"
      using wf_msgs [OF that, of _ m] m by (intro update_rows_cong_fun) auto
    have "adds w w1 \<and> log_grows (w_msgs w) (w_msgs w1)" if wf: "wf w"
      unfolding w1_def adds_audit rows [OF wf]
      by (auto simp: map_update_rows erase_body_def intro!: adds_same_msgs log_grows_update
          erase_body_evolves [unfolded erase_body_def])
    with adds_trans [OF _ adds_db [OF db]] db_eqD(5) [OF db] softDelete_sound [of w cfg t mid u]
    show ?thesis unfolding extends_def w' by simp
  qed (simp add: Some softDelete_def)
qed (simp add: softDelete_def)

text \<open>Orders, users and conversations.\<close>

lemma upsert_extends: "extends w (snd (upsertFromExternal t i d w))"
proof (rule extends_quiet [OF upsert_sound])
  have "adds w (w\<lparr>w_orders := w_orders w @ [r]\<rparr>)"
    if "or_customerId r \<in> us_id ` set (w_users w)" "or_sellerId r \<in> us_id ` set (w_users w)" for r
    using that by (intro addsI) auto
  then show "adds w (snd (upsertFromExternal t i d w))"
    by (auto simp: upsertFromExternal_def Let_def split: sum.split dest!: insert_row_InrD)
qed (auto simp: upsertFromExternal_def Let_def split: sum.split)

lemma createUser_extends: "extends w (snd (createUser hash t i e p r n w))"
proof (rule extends_quiet [OF createUser_sound])
  have "adds w (w\<lparr>w_users := w_users w @ [u]\<rparr>)" for u by (rule addsI) auto
  then show "adds w (snd (createUser hash t i e p r n w))"
    by (auto simp: createUser_def Let_def split: sum.split dest!: insert_row_InrD)
qed (auto simp: createUser_def Let_def split: sum.split)

lemma create_conversation_adds:
  assumes "create_conversation t i ord a w = Inr (conv, w')" "ord \<in> set (w_orders w)"
  shows "adds w w' \<and> w_msgs w' = w_msgs w"
proof -
  note c = create_conversation_Inr [OF assms(1)]
  obtain au where w': "w' = audit_log au (w\<lparr>w_convs := w_convs w @ [conv],
     w_parts := w_parts w @ [new_part t i (or_customerId ord) Customer,
                             new_part t i (or_sellerId ord) Seller]\<rparr>)" using c(6) by blast
  have "adds w (w\<lparr>w_convs := w_convs w @ [conv]\<rparr>)"
    using assms(2) c(1) by (intro addsI) auto
  moreover have "adds (w\<lparr>w_convs := w_convs w @ [conv]\<rparr>) (w\<lparr>w_convs := w_convs w @ [conv], w_parts := ps\<rparr>)"
    if "ps = w_parts w @ [new_part t i (or_customerId ord) Customer, new_part t i (or_sellerId ord) Seller]" for ps
    by (rule adds_part) (auto simp: that new_part_def c(2))
  ultimately show ?thesis using adds_trans by (simp add: w')
qed

lemma getOrCreate_extends: "extends w (snd (getOrCreateForOrder t i oid a w))"
proof (cases "getOrCreateForOrder t i oid a w")
  case (Pair r w')
  show ?thesis
  proof (cases r)
    case (Inl e)
    with Pair have "w' = w"
      by (auto simp: getOrCreateForOrder_def split: sum.splits option.splits dest: transact_InlD)
    with Pair show ?thesis by simp
  next
    case (Inr conv)
    with Pair have "getOrCreateForOrder t i oid a w = (Inr conv, w')" by simp
    from getOrCreate_Inr [OF this] consider "w' = w"
      | ord where "orders_getOrThrow oid w = Inr ord" "create_conversation t i ord a w = Inr (conv, w')"
      by blast
    then have "adds w w' \<and> w_msgs w' = w_msgs w"
      using create_conversation_adds orders_getOrThrow_Inr by cases auto
    with Pair getOrCreate_sound [of w t i oid a] show ?thesis by (auto intro: extends_quiet)
  qed
qed

text \<open>Sessions.\<close>

lemma issue_adds:
  assumes "u \<in> rt_userId ` set (w_tokens w) \<union> us_id ` set (w_users w)"
    "\<And>x. par = Some x \<Longrightarrow> x \<in> rt_id ` set (w_tokens w)"
  shows "adds w (snd (issue sha cfg t raw i u par meta w)) \<and> w_msgs (snd (issue sha cfg t raw i u par meta w)) = w_msgs w"
  using assms by (auto simp: issue_def Let_def split: sum.split dest!: insert_row_InrD intro!: adds_token)

lemma revoke_rows_keys: "map (\<lambda>r. (rt_id r, rt_userId r, rt_parentId r)) (revoke_rows t x p rows)
    = map (\<lambda>r. (rt_id r, rt_userId r, rt_parentId r)) rows"
  by (simp add: revoke_rows_def map_update_rows)

lemma revoke_extends: "extends w (revoke sha t tok x w)" "extends w (revokeAllForUser t u x w)"
  by (rule extends_quiet [OF revoke_sound(1)], rule adds_frame; simp add: revoke_def revoke_rows_keys)
    (rule extends_quiet [OF revoke_sound(2)], rule adds_frame; simp add: revokeAllForUser_def revoke_rows_keys)

lemma rotate_apply_adds:
  assumes "f \<in> set (w_tokens w)"
  shows "adds w (snd (rotate_apply sha cfg t raw i meta f w))
    \<and> w_msgs (snd (rotate_apply sha cfg t raw i meta f w)) = w_msgs w"
proof -
  define w0 where "w0 = w\<lparr>w_tokens := update_rows (\<lambda>r. rt_id r = rt_id f)
        (\<lambda>r. r\<lparr>rt_revokedAt := Some t, rt_revokedReason := Some ''rotated''\<rparr>) (w_tokens w)\<rparr>"
  define w1 where "w1 = metrics_count cfg t ''RefreshTokenRotated'' 1 None w0"
  have db: "db w1 = db w0" by (simp add: w1_def)
  have "adds w w0" by (rule adds_frame) (simp_all add: w0_def map_update_rows)
  with adds_trans adds_db [OF db] have w1: "adds w w1" by blast
  have tables: "w_tokens w1 = w_tokens w0" "w_msgs w1 = w_msgs w"
    using db_eqD(5,10) [OF db] by (simp_all add: w0_def)
  have "rt_userId f \<in> rt_userId ` set (w_tokens w1)" "rt_id f \<in> rt_id ` set (w_tokens w1)"
    using assms unfolding tables by (simp_all add: w0_def image_update_rows)
  then have "adds w1 (snd (issue sha cfg t raw i (rt_userId f) (Some (rt_id f)) meta w1))
    \<and> w_msgs (snd (issue sha cfg t raw i (rt_userId f) (Some (rt_id f)) meta w1)) = w_msgs w1"
    by (intro issue_adds) simp_all
  moreover have "snd (rotate_apply sha cfg t raw i meta f w)
     = snd (issue sha cfg t raw i (rt_userId f) (Some (rt_id f)) meta w1)"
    by (auto simp: rotate_apply_def Let_def w1_def w0_def split: sum.split prod.split)
  ultimately show ?thesis using w1 adds_trans tables(2) by metis
qed

lemma rotate_extends: "extends w (snd (rotate sha cfg t tok raw i meta w))"
proof (rule extends_quiet [OF rotate_sound])
  have "adds w (snd (rotate sha cfg t tok raw i meta w)) \<and> w_msgs (snd (rotate sha cfg t tok raw i meta w)) = w_msgs w"
  proof (cases "rotate_find sha cfg t tok w")
    case (Pair r w1)
    show ?thesis
    proof (cases r)
      case (Inl e)
      have db: "db (metrics_count cfg t n 1 None w) = db w" for n by simp
      have "adds (metrics_count cfg t n 1 None w) (revokeAllForUser t u x (metrics_count cfg t n 1 None w))" for n u x
        by (rule adds_frame; simp add: revokeAllForUser_def revoke_rows_keys)
      note adds_trans [OF adds_db [OF db] this]
      with Pair Inl show ?thesis
        by (auto simp: rotate_def rotate_find_def revokeAllForUser_def db_eqD(5) [OF db]
            split: option.splits if_splits)
    next
      case (Inr f)
      with Pair have "w1 = w" "f \<in> set (w_tokens w)"
        by (auto simp: rotate_find_def split: option.splits if_splits dest: find_SomeD)
      with rotate_apply_adds Pair Inr show ?thesis by (simp add: rotate_def)
    qed
  qed
  then show "adds w (snd (rotate sha cfg t tok raw i meta w))"
    "w_msgs (snd (rotate sha cfg t tok raw i meta w)) = w_msgs w" by simp_all
qed

lemma auth_login_extends: "extends w (snd (auth_login sha sign vf cfg t raw i e p meta w))"
proof (rule extends_quiet [OF auth_login_sound])
  have s: "snd (issueSession sha sign cfg t raw i u meta w) = snd (issue sha cfg t raw i (us_id u) None meta w)" for u
    by (simp add: issueSession_def case_prod_unfold split: sum.split)
  have "adds w (snd (issueSession sha sign cfg t raw i u meta w))
      \<and> w_msgs (snd (issueSession sha sign cfg t raw i u meta w)) = w_msgs w" if "u \<in> set (w_users w)" for u
    unfolding s by (rule issue_adds) (simp_all add: that)
  moreover have "u \<in> set (w_users w)" if "users_findByEmail e w = Some u" for u
    using find_SomeD [OF that [unfolded users_findByEmail_def]] by blast
  ultimately show "adds w (snd (auth_login sha sign vf cfg t raw i e p meta w))"
    "w_msgs (snd (auth_login sha sign vf cfg t raw i e p meta w)) = w_msgs w"
    by (auto simp: auth_login_def case_prod_unfold split: option.split sum.split)
qed

lemma auth_refresh_extends: "extends w (snd (auth_refresh sha sign cfg t tok raw i meta w))"
proof -
  have "snd (auth_refresh sha sign cfg t tok raw i meta w) = snd (rotate sha cfg t tok raw i meta w)"
    by (auto simp: auth_refresh_def split: prod.split sum.split option.split)
  then show ?thesis using rotate_extends by simp
qed

text \<open>Moderation and search.\<close>

lemma moderation_report_extends: "extends w (snd (moderation_report t i mid u re d w))"
proof (rule extends_quiet [OF moderation_sound(1)])
  have "adds w (w\<lparr>w_reports := w_reports w @ [r]\<rparr>)" if "rp_messageId r \<in> ms_id ` set (w_msgs w)" for r
    using that by (intro addsI) auto
  then show "adds w (snd (moderation_report t i mid u re d w))"
    by (auto simp: moderation_report_def Let_def split: option.split dest: find_SomeD)
qed (auto simp: moderation_report_def Let_def split: option.split)

lemma hide_row_evolves: "msg_evolves m (hide_row t u m)"
  by (simp add: msg_evolves_def msg_core_def stored_text_def hide_row_def)

lemma moderation_resolve_extends: "extends w (snd (moderation_resolve t t2 rid u a w))"
proof (cases "find (\<lambda>r. rp_id r = rid) (w_reports w)")
  case (Some r0)
  note f = find_SomeD [OF Some]
  define rs where "rs = update_rows (\<lambda>x. rp_id x = rid) (\<lambda>_. r0\<lparr>rp_status := (if a = Dismiss then Dismissed else Actioned),
                       rp_resolvedBy := Some u, rp_resolvedAt := Some t\<rparr>) (w_reports w)"
  define ms where "ms = (if a = Hide_message
    then update_rows (\<lambda>m. ms_id m = rp_messageId r0) (hide_row t2 u) (w_msgs w) else w_msgs w)"
  have "\<exists>au. snd (moderation_resolve t t2 rid u a w) = audit_log au (w\<lparr>w_reports := rs, w_msgs := ms\<rparr>)"
    unfolding moderation_resolve_def Some Let_def rs_def ms_def by (cases a) auto
  then obtain au where w': "snd (moderation_resolve t t2 rid u a w) = audit_log au (w\<lparr>w_reports := rs, w_msgs := ms\<rparr>)" ..
  have "rp_messageId ` set rs \<subseteq> rp_messageId ` set (w_reports w)"
    using f by (auto simp: rs_def set_update_rows)
  then have "adds w (w\<lparr>w_reports := rs\<rparr>)" by (intro addsI) auto
  moreover have "adds (w\<lparr>w_reports := rs\<rparr>) (w\<lparr>w_reports := rs, w_msgs := ms\<rparr>)"
    by (rule adds_frame) (simp_all add: ms_def map_update_rows)
  moreover have "log_grows (w_msgs w) ms"
    using log_grows_update [of "w_msgs w" _ "hide_row t2 u"] hide_row_evolves by (simp add: ms_def)
  ultimately show ?thesis
    using moderation_sound(2) [of w t t2 rid u a] unfolding w' extends_audit sound_audit
    by (auto simp: extends_def intro: adds_trans)
qed (simp add: moderation_resolve_def)

lemma os_index_quiet: "quiet w (snd (os_indexMessage sv cfg d w))"
  by (simp add: os_indexMessage_def)

lemma backfill_quiet: "quiet w (snd (backfill env k sv cfg t c pids ms w))"
proof (induction ms arbitrary: w)
  case (Cons m ms)
  obtain content w1 where sd: "search_decrypt env k t m w = (content, w1)" by fastforce
  have w1: "quiet w w1" using db_search_decrypt [of env k t m w] sd by (simp add: quiet_db)
  obtain r w2 where os: "os_indexMessage sv cfg (message_doc c pids m content) w1 = (r, w2)" by fastforce
  with os_index_quiet [of w1 sv cfg "message_doc c pids m content"] w1 have "quiet w w2"
    by (auto intro: quiet_trans)
  with sd w1 os Cons show ?case by (cases r) (auto intro: quiet_trans)
qed simp

lemma set_indexed_quiet: "quiet w (set_indexed c b at w)"
  unfolding quiet_def by (intro conjI adds_frame) (simp_all add: set_indexed_def map_update_rows)

lemma enableIndexing_extends: "extends w (snd (enableIndexing env k sv cfg t c u r w))"
proof -
  obtain g w1 where a: "assertCanAccess t u r c w = (g, w1)" by fastforce
  have w1: "extends w w1" using assertCanAccess_extends [of w t u r c] a by simp
  obtain x w2 where b: "backfill env k sv cfg t c (map pt_userId (listParticipants c w1))
      (indexed_messages c w1) w1 = (x, w2)" by fastforce
  have s: "sound w1 w2"
    using b backfill_inv [of w1 env k sv cfg t c] backfill_calm [of w1 env k sv cfg t c]
    by (metis sound_calm snd_conv)
  have q: "quiet w1 w2" using backfill_quiet [of w1 env k sv cfg t c] b by (metis snd_conv)
  have "extends w1 w2" by (rule extends_quietI [OF s q])
  moreover have "extends w1 (set_indexed c True (Some t) w2)"
    by (rule extends_quietI [OF sound_trans [OF s set_indexed_sound] quiet_trans [OF q set_indexed_quiet]])
  ultimately have "extends w1 (snd (enableIndexing env k sv cfg t c u r w))"
    using a b by (auto simp: enableIndexing_def Let_def split: sum.splits prod.splits)
  with w1 show ?thesis by (rule extends_trans)
qed

lemma disableIndexing_extends: "extends w (snd (disableIndexing sv cfg t c u r w))"
proof -
  have s: "sound w1 (snd (os_deleteByConversation sv cfg c w1))" for w1
    by (rule sound_calm) (simp_all add: os_deleteByConversation_def calm_def)
  have q: "quiet w1 (snd (os_deleteByConversation sv cfg c w1))" for w1
    by (simp add: os_deleteByConversation_def)
  have "extends w1 (snd (os_deleteByConversation sv cfg c (set_indexed c False None w1)))" for w1
    by (rule extends_quietI [OF sound_trans [OF set_indexed_sound s] quiet_trans [OF set_indexed_quiet q]])
  moreover have "extends w1 (set_indexed c False None w1)" for w1
    by (rule extends_quietI [OF set_indexed_sound set_indexed_quiet])
  ultimately show ?thesis unfolding disableIndexing_def
    by (intro log.accessed) (auto simp: case_prod_unfold split: sum.split)
qed

text \<open>End-to-end encryption.\<close>

lemma key_packages_extends:
  "extends w (snd (publishKeyPackages t ids u inp w))" "extends w (snd (claimKeyPackage t a b s w))"
proof -
  show "extends w (snd (publishKeyPackages t ids u inp w))"
    by (rule extends_quietI [OF key_packages_sound(1)]) (simp add: publishKeyPackages_def Let_def)
  have "quiet w (snd (transact (claim_tx t a b s) w))"
    by (rule transact_preserves, simp) (auto simp: claim_tx_def split: list.splits)
  then have "quiet w (snd (claimKeyPackage t a b s w))"
    by (auto simp: claimKeyPackage_def split: prod.splits sum.splits)
  with key_packages_sound(2) show "extends w (snd (claimKeyPackage t a b s w))" by (rule extends_quietI)
qed

lemma user_ref_stored: "user_ref pg raw w = Inr (Some u) \<Longrightarrow> u \<in> us_id ` set (w_users w)"
  by (auto simp: user_ref_def split: option.splits if_splits)

lemma adds_mls:
  "ml_groupId r \<in> gr_id ` set (w_groups w) \<Longrightarrow>
   (\<And>u. ml_targetUserId r = Some u \<Longrightarrow> u \<in> us_id ` set (w_users w)) \<Longrightarrow>
   quiet w (w\<lparr>w_mls := w_mls w @ [r]\<rparr>)"
  unfolding quiet_def by (intro conjI addsI) (auto simp: in_these_eq)

lemma sendMls_extends: "extends w (snd (sendMlsMessage pg_uuid pg_int8 t i c u r inp w))"
proof (rule extends_quietI [OF sendMls_sound])
  have tx: "quiet w1 (snd (transact (send_mls_tx pg_uuid pg_int8 t i gid u inp) w1))" for gid w1
  proof (rule transact_preserves, simp)
    fix x w2 assume "send_mls_tx pg_uuid pg_int8 t i gid u inp w1 = Inr (x, w2)"
    then obtain g wb target epoch n where g: "g \<in> set (w_groups w1)" "gr_id g = gid"
      and wb: "wb = (if mi_kind inp = Commit then bump_epoch gid (gr_epoch g + 1) w1 else w1)"
      and ref: "user_ref pg_uuid (mi_targetUserId inp) wb = Inr target"
      and w2: "w2 = wb\<lparr>w_mls := w_mls wb @ [\<lparr>ml_id = i, ml_groupId = gid, ml_senderUserId = Some u,
                            ml_senderDeviceId = Some (mi_senderDeviceId inp), ml_kind = mi_kind inp,
                            ml_epoch = epoch, ml_sequence = n, ml_targetUserId = target,
                            ml_ciphertext = mi_ciphertext inp, ml_createdAt = t\<rparr>]\<rparr>"
      by (auto simp: send_mls_tx_def Let_def split: option.splits sum.splits dest!: insert_row_InrD dest: find_SomeD)
    have "quiet w1 wb" unfolding quiet_def wb
      by (intro conjI adds_frame) (simp_all add: bump_epoch_def map_update_rows)
    moreover have "gid \<in> gr_id ` set (w_groups wb)"
      using g by (auto simp: wb bump_epoch_def image_update_rows)
    then have "quiet wb w2"
      unfolding w2 using user_ref_stored [of pg_uuid] ref by (intro adds_mls) auto
    ultimately show "quiet w1 w2" by (rule quiet_trans)
  qed
  show "quiet w (snd (sendMlsMessage pg_uuid pg_int8 t i c u r inp w))"
    unfolding sendMlsMessage_def
    by (rule still.accessed) (auto simp: tx split: option.split)
qed

lemma store_welcomes_quiet:
  "store_welcomes pg t ids gid a n xs w = Inr w' \<Longrightarrow> gid \<in> gr_id ` set (w_groups w) \<Longrightarrow> quiet w w'"
proof (induction xs arbitrary: n w)
  case (Cons x xs)
  from Cons.prems(1) obtain target rows where ref: "user_ref pg (Some (wl_targetUserId x)) w = Inr target"
    and rows: "insert_row mls_clash \<lparr>ml_id = ids n, ml_groupId = gid, ml_senderUserId = Some a,
               ml_senderDeviceId = Some (wl_senderDeviceId x), ml_kind = Welcome, ml_epoch = 0,
               ml_sequence = int n + 1, ml_targetUserId = target, ml_ciphertext = wl_ciphertext x,
               ml_createdAt = t\<rparr> (w_mls w) = Inr rows"
    and rest: "store_welcomes pg t ids gid a (Suc n) xs (w\<lparr>w_mls := rows\<rparr>) = Inr w'"
    by (auto split: sum.splits)
  have "quiet w (w\<lparr>w_mls := rows\<rparr>)"
    unfolding insert_row_InrD [OF rows, THEN conjunct1]
    using user_ref_stored [of pg] ref Cons.prems(2) by (intro adds_mls) auto
  with Cons.IH [OF rest] Cons.prems(2) quiet_trans show ?case by simp
qed simp

lemma enableE2ee_extends: "extends w (snd (enableE2ee pg_uuid t gid ids c u r mlsId suite ws w))"
proof (rule extends_quietI [OF enableE2ee_sound])
  have tx: "quiet w1 (snd (transact (enable_tx pg_uuid t gid ids c u mlsId suite ws) w1))"
    if c: "c \<in> cv_id ` set (w_convs w1)" for w1
  proof (rule transact_preserves, simp)
    fix x w2 assume "enable_tx pg_uuid t gid ids c u mlsId suite ws w1 = Inr (x, w2)"
    then obtain gs w3 au where g: "insert_row group_clash
         \<lparr>gr_id = gid, gr_conversationId = c, gr_groupIdMls = mlsId, gr_cipherSuite = suite,
          gr_epoch = 0, gr_createdBy = u\<rparr> (w_groups w1) = Inr gs"
      and s: "store_welcomes pg_uuid t ids gid u 0 ws (w1\<lparr>w_groups := gs\<rparr>) = Inr w3"
      and w2: "w2 = audit_log au (set_e2ee t c w3)"
      by (auto simp: enable_tx_def split: sum.splits)
    have "quiet w1 (w1\<lparr>w_groups := gs\<rparr>)"
      unfolding quiet_def insert_row_InrD [OF g, THEN conjunct1]
      using c by (intro conjI addsI) auto
    moreover have "quiet (w1\<lparr>w_groups := gs\<rparr>) w3"
      using insert_row_InrD [OF g] by (intro store_welcomes_quiet [OF s]) simp
    moreover have "quiet w3 (set_e2ee t c w3)" unfolding quiet_def set_e2ee_def
      by (intro conjI adds_frame) (simp_all add: map_update_rows)
    ultimately show "quiet w1 w2" unfolding w2 quiet_audit by (blast intro: quiet_trans)
  qed
  show "quiet w (snd (enableE2ee pg_uuid t gid ids c u r mlsId suite ws w))"
    unfolding enableE2ee_def by (rule still.accessed) (auto simp: tx access_conv)
qed

lemma listMls_extends: "extends w (snd (listMlsMessages pg_int8 qb t c u r af li w))"
  unfolding listMlsMessages_def
  by (rule log.accessed) (simp split: option.split sum.split)

text \<open>Attachments and privacy.\<close>

lemma presign_extends: "extends w (snd (presignUpload s3 pg_uuid cfg t i k u d w))"
proof (rule extends_quietI [OF presign_sound])
  have a: "quiet w1 (w1\<lparr>w_atts := w_atts w1 @ [a]\<rparr>)"
    if "at_messageId a = None" "at_conversationId a \<in> cv_id ` set (w_convs w1)" for w1 a
    unfolding quiet_def using that by (intro conjI addsI) (auto simp: in_these_eq)
  show "quiet w (snd (presignUpload s3 pg_uuid cfg t i k u d w))"
    unfolding presignUpload_def
    by (auto split: option.split intro!: still.accessed a simp: Let_def access_conv)
qed

lemma finalize_extends: "extends w (snd (finalize s3 i u w))"
proof (rule extends_quietI [OF finalize_sound])
  have "quiet w (w\<lparr>w_s3 := x, w_atts := filter p (w_atts w)\<rparr>)" for x p
    unfolding quiet_def by (intro conjI addsI) (auto simp: in_these_eq)
  then show "quiet w (snd (finalize s3 i u w))"
    by (auto simp: finalize_def check_size_def s3_delete_def split: option.split sum.split)
qed

lemma download_extends: "extends w (snd (getDownloadUrl s3 t i u r w))"
proof -
  have "extends w (snd (case assertCanAccess t u r c w of
      (Inl e, w1) \<Rightarrow> (Inl e, w1) | (Inr g, w1) \<Rightarrow> (Inr x, w1)))" for c and x :: "string \<times> int"
    by (rule log.accessed) simp
  then show ?thesis by (simp add: getDownloadUrl_def split: option.split)
qed

lemma quiet_users: "map us_id us = map us_id (w_users w) \<Longrightarrow> quiet w (w\<lparr>w_users := us\<rparr>)"
  unfolding quiet_def by (intro conjI adds_frame) simp_all

lemma export_extends: "extends w (snd (exportUserData env k t i w))"
proof (rule extends_quietI [OF export_sound])
  have "quiet w (snd (export_messages env k t ms w))" for ms
    using export_messages_facts [of env k t ms w] quiet_db by blast
  moreover have "quiet w1 (w1\<lparr>w_users := update_rows p (\<lambda>u. u\<lparr>us_dataExportRequestedAt := x\<rparr>) (w_users w1)\<rparr>)"
    for w1 p x by (rule quiet_users) (simp add: map_update_rows)
  ultimately have "quiet w ((snd (export_messages env k t ms w))\<lparr>w_users := update_rows p
      (\<lambda>u. u\<lparr>us_dataExportRequestedAt := x\<rparr>) (w_users (snd (export_messages env k t ms w)))\<rparr>)" for ms p x
    using quiet_trans by blast
  then show "quiet w (snd (exportUserData env k t i w))"
    by (simp add: exportUserData_def Let_def case_prod_unfold split: option.split)
qed

lemma wipe_row_evolves: "msg_evolves m (wipe_row t m)"
  by (simp add: msg_evolves_def erased_def msg_core_def stored_text_def wipe_row_def)

lemma anonymize_extends: "extends w (snd (anonymizeUser t i a w))"
proof -
  have "adds w (snd (transact (anonymize_tx t i) w))
      \<and> log_grows (w_msgs w) (w_msgs (snd (transact (anonymize_tx t i) w)))"
    by (rule transact_preserves, simp)
      (auto simp: anonymize_tx_def revokeAllForUser_def revoke_rows_keys map_update_rows anonymize_row_def
        wipe_row_def split: option.splits if_splits
        intro!: adds_frame log_grows_update wipe_row_evolves [unfolded wipe_row_def])
  with anonymize_sound [of w t i a] show ?thesis
    by (auto simp: extends_def anonymizeUser_def split: prod.splits sum.splits)
qed

text \<open>The outbox worker, presence and limits.\<close>

lemma quiet_email:
  "em_userId r \<in> us_id ` set (w_users w) \<Longrightarrow>
   (\<And>c. em_conversationId r = Some c \<Longrightarrow> c \<in> cv_id ` set (w_convs w)) \<Longrightarrow>
   quiet w (w\<lparr>w_emails := w_emails w @ [r]\<rparr>)"
  unfolding quiet_def by (intro conjI addsI) (auto simp: in_these_eq)

definition same_people :: "world \<Rightarrow> world \<Rightarrow> bool" where
  "same_people w w' \<longleftrightarrow> w_users w' = w_users w \<and> w_convs w' = w_convs w"

lemma notify_user_quiet:
  assumes "u \<in> set (w_users w)" "conv \<in> set (w_convs w)"
  shows "quiet w (snd (notify_user cfg t mid conv u w)) \<and> same_people w (snd (notify_user cfg t mid conv u w))"
proof (cases "email_send cfg (new_message_mail cfg conv u) w")
  case (Pair x w1)
  then have w1: "quiet w w1" "same_people w w1"
    by (auto simp: email_send_def same_people_def split: if_splits)
  have "quiet w (w1\<lparr>w_emails := w_emails w1 @ [r]\<rparr>)" if "em_userId r = us_id u" "em_conversationId r = Some (cv_id conv)" for r
    using w1 that assms by (intro quiet_trans [OF w1(1)] quiet_email) (auto simp: same_people_def)
  with w1 show ?thesis
    by (auto simp: notify_user_def Pair same_people_def split: sum.split dest!: insert_row_InrD)
qed

lemma notify_users_quiet:
  "set us \<subseteq> set (w_users w) \<Longrightarrow> conv \<in> set (w_convs w) \<Longrightarrow> quiet w (snd (notify_users cfg t mid conv us w))"
proof (induction us arbitrary: w)
  case (Cons u us)
  obtain r w1 where n: "notify_user cfg t mid conv u w = (r, w1)" by fastforce
  with notify_user_quiet [of u w conv cfg t mid] Cons.prems have w1: "quiet w w1" "same_people w w1" by auto
  with Cons.IH [of w1] Cons.prems have "quiet w1 (snd (notify_users cfg t mid conv us w1))"
    by (simp add: same_people_def)
  with n w1 show ?case by (cases r) (auto intro: quiet_trans)
qed simp

lemma onMessageCreated_quiet: "quiet w (snd (onMessageCreated cfg t cp w))"
  by (auto simp: onMessageCreated_def notifyNewMessage_def Let_def split: option.split
      intro!: notify_users_quiet dest: find_SomeD)

lemma consume_quiet: "quiet w (snd (consume_event dv cfg t r w))"
proof (cases "ob_payload r")
  case (Created cp)
  obtain q w1 where o: "onMessageCreated cfg t cp w = (q, w1)" by fastforce
  with onMessageCreated_quiet [of w cfg t cp] have "quiet w w1" by simp
  moreover have "quiet w1 (snd (indexMessageIfEnabled sv cfg d w1))" for sv d
    by (simp add: indexMessageIfEnabled_def os_index_quiet split: option.split)
  ultimately show ?thesis using o Created by (cases q) (auto simp: consume_event_def intro: quiet_trans)
qed (simp add: consume_event_def)

lemma outbox_handle_quiet: "quiet w (snd (outbox_handle dv cfg t r w))"
proof -
  obtain q w1 where p: "nats_publish dv (ob_eventType r) (ob_payload r) (ob_id r) w = (q, w1)" by fastforce
  then have w1: "quiet w w1" by (auto simp: nats_publish_def Let_def split: if_splits)
  have "quiet w (snd (consume_event dv cfg t r (metrics_count cfg t n v d w1)))" for n v d
    using quiet_trans [OF quiet_trans [OF w1 quiet_metrics(1)] consume_quiet] .
  with p w1 consume_quiet show ?thesis by (cases q) (simp_all add: outbox_handle_def)
qed

lemma process_rows_quiet: "quiet w (process_rows (outbox_handle dv cfg t) cfg t rs w)"
proof (induction rs arbitrary: w)
  case (Cons r rs)
  obtain q w1 where h: "outbox_handle dv cfg t r w = (q, w1)" by fastforce
  with outbox_handle_quiet [of w dv cfg t r] have "quiet w w1" by simp
  then have b: "quiet w (w1\<lparr>w_outbox := x\<rparr>)" for x by (rule quiet_trans) simp
  show ?case
    using h quiet_trans [OF b Cons] quiet_trans [OF quiet_trans [OF b quiet_metrics(1)] Cons]
    by (cases q) simp_all
qed simp

lemma outbox_tick_extends: "extends w (snd (outbox_tick dv cfg t locked w))"
proof (rule extends_quietI [OF outbox_tick_sound])
  obtain k w1 where b: "processBatch dv cfg t locked 20 w = (k, w1)" by fastforce
  have "quiet w w1" using b process_rows_quiet [of w dv cfg t] by (auto simp: processBatch_def Let_def)
  with b quiet_trans quiet_metrics(1) show "quiet w (snd (outbox_tick dv cfg t locked w))"
    by (auto simp: outbox_tick_def)
qed

lemma presence_extends: "extends w (presence_step t op w)"
  by (rule extends_quietI [OF presence_sound], cases op)
    (simp_all add: presence_connect_def presence_heartbeat_def presence_disconnect_def
      disconnect_count_def disconnect_del_def Let_def)

lemma limit_extends: "extends w (snd (rate_limit_ok cfg t u w))"
  by (rule extends_quietI [OF rate_sound]) (simp add: rate_limit_ok_def Let_def case_prod_unfold)

lemma background_extends: "extends w (publishLagMetric cfg t w)" "extends w (metrics_flush cfg w)"
  by (rule extends_db; auto simp: publishLagMetric_def Let_def)+

interpretation log: service_law extends
  by unfold_locales (rule messages_send_extends messages_list_extends markRead_extends
      softDelete_extends upsert_extends createUser_extends getOrCreate_extends auth_login_extends
      auth_refresh_extends revoke_extends moderation_report_extends moderation_resolve_extends
      enableIndexing_extends disableIndexing_extends key_packages_extends sendMls_extends
      enableE2ee_extends listMls_extends presign_extends finalize_extends download_extends
      export_extends anonymize_extends outbox_tick_extends background_extends presence_extends
      limit_extends)+

section \<open>Properties\<close>

lemma history_extends:
  "api_step\<^sup>*\<^sup>* w w' \<Longrightarrow> inv w \<Longrightarrow> mls_ok w \<Longrightarrow> adds w w' \<and> log_grows (w_msgs w) (w_msgs w')"
  using log.steps [of w w'] by (simp add: extends_def wf_def)

lemma references_ok_sample: "references_ok sample_world"
  unfolding references_ok_def followed_keys_eq list.pred_inject prod.case column_values_eq uuid_images
  by (simp add: sample_defs Option.these_def)



text \<open>A world with one message in its conversation.\<close>

definition chat_world :: world where
  "chat_world = sample_world\<lparr>w_convs := [(sample_conv c_one o_one)\<lparr>cv_lastSequence := 1\<rparr>],
     w_msgs := [sample_msg None]\<rparr>"

lemma inv_chat_world: "inv chat_world"
proof -
  have "schema_ok chat_world"
    using schema_ok_sample by (simp add: schema_ok_def chat_world_def clash_free_def)
  then show ?thesis
    by (simp add: inv_def seq_ok_def chat_world_def msgs_of_def sample_defs sample_msg_def new_message_def
        sample_input_def)
qed

lemma mls_ok_chat_world: "mls_ok chat_world"
  by (simp add: mls_ok_empty chat_world_def sample_world_def empty_world_def)

text \<open>
  C8: The messages are an append-only history. Whatever the server does, a stored message
  keeps its place in the table, its identifier, conversation, author, number, time and
  idempotency key; once deleted it stays deleted; and what is stored of its text is either
  unchanged or gone for good (nothing ever rewrites it), the latter only for a deleted message.
\<close>
theorem messages_are_append_only:
  assumes "api_step\<^sup>*\<^sup>* w w'" "inv w" "mls_ok w"
  shows "length (w_msgs w) \<le> length (w_msgs w')
    \<and> (\<forall>i < length (w_msgs w). let m = w_msgs w ! i; m' = w_msgs w' ! i in
         msg_core m' = msg_core m
         \<and> (ms_deletedAt m \<noteq> None \<longrightarrow> ms_deletedAt m' \<noteq> None)
         \<and> (stored_text m' = stored_text m \<or> erased m'))"
proof -
  have log: "list_all2 msg_evolves (w_msgs w) (take (length (w_msgs w)) (w_msgs w'))"
    using history_extends [OF assms] by (simp add: log_grows_def)
  note len = list_all2_lengthD [OF log]
  show ?thesis
  proof (intro conjI allI impI)
    show "length (w_msgs w) \<le> length (w_msgs w')" using len by simp
    fix i assume i: "i < length (w_msgs w)"
    with list_all2_nthD [OF log i] show "let m = w_msgs w ! i; m' = w_msgs w' ! i in
         msg_core m' = msg_core m \<and> (ms_deletedAt m \<noteq> None \<longrightarrow> ms_deletedAt m' \<noteq> None)
         \<and> (stored_text m' = stored_text m \<or> erased m')"
      by (simp add: msg_evolves_def Let_def)
  qed
qed

theorem messages_are_append_only_witness:
  "let w' = snd (deleteMine 50 user_alice chat_world) in
   length (w_msgs chat_world) \<le> length (w_msgs w')
    \<and> (\<forall>i < length (w_msgs chat_world). let m = w_msgs chat_world ! i; m' = w_msgs w' ! i in
         msg_core m' = msg_core m
         \<and> (ms_deletedAt m \<noteq> None \<longrightarrow> ms_deletedAt m' \<noteq> None)
         \<and> (stored_text m' = stored_text m \<or> erased m'))"
  unfolding Let_def
proof (rule messages_are_append_only [unfolded Let_def, OF _ inv_chat_world mls_ok_chat_world])
  show "api_step\<^sup>*\<^sup>* chat_world (snd (deleteMine 50 user_alice chat_world))"
    by (rule r_into_rtranclp, rule Delete_mine)
qed

text \<open>
  The abstract history of a conversation: who said which message under which number.
\<close>

definition conversation_log :: "uuid \<Rightarrow> world \<Rightarrow> (int \<times> uuid \<times> uuid) list" where
  "conversation_log c w = map (\<lambda>m. (ms_sequence m, ms_senderId m, ms_id m)) (msgs_of c w)"

lemma log_grows_conversation:
  assumes "list_all2 msg_evolves ms ms'"
  shows "map (\<lambda>m. (ms_sequence m, ms_senderId m, ms_id m)) (filter (\<lambda>m. ms_conversationId m = c) ms')
    = map (\<lambda>m. (ms_sequence m, ms_senderId m, ms_id m)) (filter (\<lambda>m. ms_conversationId m = c) ms)"
  using assms by (induction rule: list_all2_induct) (auto simp: msg_evolves_def msg_core_def)

lemma conversation_log_numbered:
  assumes "inv w" "c \<in> cv_id ` set (w_convs w)"
  shows "map fst (conversation_log c w) = [1..int (length (conversation_log c w))]"
proof -
  from assms(2) obtain conv where "conv \<in> set (w_convs w)" "cv_id conv = c" by blast
  with invD(2) [OF assms(1)] have conv: "0 \<le> cv_lastSequence conv"
    "map ms_sequence (msgs_of c w) = [1..cv_lastSequence conv]"
    unfolding seq_ok_def by blast+
  have "int (length (msgs_of c w)) = cv_lastSequence conv"
    using arg_cong [OF conv(2), of length] conv(1) by simp
  with conv(2) show ?thesis by (simp add: conversation_log_def comp_def)
qed

lemma upto_from_one: "n \<le> m \<Longrightarrow> [1..int m] = [1..int n] @ [int n + 1..int m]"
  using upto_split2 [of 1 "int n" "int m"] by (cases n) auto



end
