(* ===== verification/Client.thy ===== *)
theory Client
  imports Messages
begin

text \<open>
  The demonstration client (src/frontend-demo/app.js): the page's state and what it shows, the
  requests it sends and the frames it emits.

  An \<open>await\<close> splits a handler: a call stands in \<open>cl_calls\<close> until its answer comes, and answers
  come in any order (\<open>client_step\<close>). The functions \<open>\<dots>_click\<close> are the handlers of the page,
  \<open>on_answer\<close> what follows an awaited call, \<open>on_frame\<close> the listeners of the socket. The elements
  of the page that the code writes are fields of the state. The local time format is a
  parameter; signs outside ASCII are written as their UTF-8 bytes, and the line breaks and the
  indentation of the HTML templates are left out.
\<close>

section \<open>State\<close>

record login_user =
  lu_id :: string
  lu_email :: string
  lu_role :: string

record conv_view =
  cj_id :: string
  cj_subject :: "string option"
  cj_lastMessageAt :: "int option"

text \<open>A message as JSON brings it; a field that is missing reads \<open>undefined\<close>.\<close>

record wire_message =
  wr_id :: "string option"
  wr_conversationId :: string
  wr_senderId :: "string option"
  wr_sequence :: "int option"
  wr_body :: "string option"
  wr_createdAt :: "int option"
  wr_flags :: "string list option"

record client_request =
  hr_method :: string
  hr_url :: string
  hr_headers :: "(string \<times> string) list"
  hr_json :: "(string \<times> string) list option"

text \<open>The awaited calls, with what the code after the \<open>await\<close> still needs.\<close>

datatype call =
    Login_call
  | Register_call
  | Logout_call
  | Export_call
  | Report_call
  | List_call "string option"
  | List_quiet_call
  | Order_call
  | Detail_call string
  | Messages_call string
  | Read_call
  | Send_call

datatype answer =
    Failed string
  | Logged string login_user
  | Conversations "conv_view list"
  | Conversation conv_view nat
  | Page "wire_message list"
  | Done

datatype client_frame =
    Join string
  | Typing string bool
  | Ping

record bubble =
  bu_class :: string
  bu_html :: string
  bu_report :: "string option"

record client =
  cl_apiUrl :: string
  cl_accessToken :: "string option"
  cl_user :: "login_user option"
  cl_socket :: "string option"
  cl_current :: "string option"
  cl_typingTimer :: "string option"
  cl_heartbeats :: nat
  cl_modal :: bool
  cl_error :: "string option"
  cl_who :: string
  cl_status :: "bool \<times> string"
  cl_items :: "(string \<times> string) list"
  cl_header :: string
  cl_messages :: "bubble list"
  cl_input :: string
  cl_enabled :: bool
  cl_typing :: string
  cl_alerts :: "string list"
  cl_downloads :: nat
  cl_calls :: "(call \<times> client_request) list"
  cl_emitted :: "client_frame list"

definition new_client :: client where
  "new_client =
     \<lparr>cl_apiUrl = ''http://localhost:3000/api/v1'', cl_accessToken = None, cl_user = None,
      cl_socket = None, cl_current = None, cl_typingTimer = None, cl_heartbeats = 0,
      cl_modal = True, cl_error = None, cl_who = [], cl_status = (False, ''offline''),
      cl_items = [], cl_header = [], cl_messages = [], cl_input = [], cl_enabled = False,
      cl_typing = [], cl_alerts = [], cl_downloads = 0, cl_calls = [], cl_emitted = []\<rparr>"

section \<open>Helpers\<close>

definition escape_char :: "char \<Rightarrow> string" where
  "escape_char c =
     (if c = CHR ''&'' then ''&amp;'' else if c = CHR ''<'' then ''&lt;''
      else if c = CHR ''>'' then ''&gt;'' else if c = CHR 0x22 then ''&quot;''
      else if c = CHR 0x27 then ''&#39;'' else [c])"

definition escapeHtml :: "string \<Rightarrow> string" where
  "escapeHtml s = concat (map escape_char s)"

definition setStatus :: "bool \<Rightarrow> string \<Rightarrow> client \<Rightarrow> client" where
  "setStatus ok text c = c\<lparr>cl_status := (ok, text)\<rparr>"

text \<open>The text of a value in a template or in \<open>String(\<dots>)\<close>.\<close>

definition js_text :: "string option \<Rightarrow> string" where
  "js_text v = coalesce v ''undefined''"

definition api_headers :: "client \<Rightarrow> (string \<times> string) list \<Rightarrow> (string \<times> string) list" where
  "api_headers c extra =
     (''Content-Type'', ''application/json'')
       # (if truthy (cl_accessToken c)
          then [(''Authorization'', ''Bearer '' @ coalesce (cl_accessToken c) [])] else []) @ extra"

definition api ::
  "call \<Rightarrow> string \<Rightarrow> string \<Rightarrow> (string \<times> string) list \<Rightarrow> (string \<times> string) list option \<Rightarrow> client \<Rightarrow> client" where
  "api k meth path extra body c =
     c\<lparr>cl_calls := cl_calls c
         @ [(k, \<lparr>hr_method = meth, hr_url = cl_apiUrl c @ path, hr_headers = api_headers c extra,
                 hr_json = body\<rparr>)]\<rparr>"

text \<open>
  The end of \<open>api\<close>: a status outside 200 to 299 throws the \<open>message\<close> of the body, or the status
  when there is none; 204 gives \<open>null\<close>.
\<close>

definition api_result :: "(nat \<Rightarrow> string) \<Rightarrow> nat \<Rightarrow> string option \<Rightarrow> answer \<Rightarrow> answer" where
  "api_result status_text status message body =
     (if status < 200 \<or> 299 < status
      then Failed (if truthy message then coalesce message [] else ''HTTP '' @ status_text status)
      else if status = 204 then Done else body)"

section \<open>Accounts\<close>

definition login_click :: "string \<Rightarrow> string \<Rightarrow> string \<Rightarrow> client \<Rightarrow> client" where
  "login_click url email pwd c =
     api Login_call ''POST'' ''/auth/login'' [] (Some [(''email'', email), (''password'', pwd)])
       (c\<lparr>cl_error := None, cl_apiUrl := js_trim url\<rparr>)"

definition register_click :: "string \<Rightarrow> string \<Rightarrow> string \<Rightarrow> client \<Rightarrow> client" where
  "register_click url email pwd c =
     api Register_call ''POST'' ''/auth/register'' []
       (Some [(''email'', email), (''password'', pwd), (''role'', ''customer'')])
       (c\<lparr>cl_apiUrl := js_trim url\<rparr>)"

definition logout_click :: "client \<Rightarrow> client" where
  "logout_click c = api Logout_call ''POST'' ''/auth/logout'' [] None c"

definition export_click :: "client \<Rightarrow> client" where
  "export_click c = api Export_call ''GET'' ''/me/data/export'' [] None c"

text \<open>The reason is what the prompt returns: \<open>None\<close> when it is dismissed.\<close>

definition reportMessage :: "string \<Rightarrow> string option \<Rightarrow> client \<Rightarrow> client" where
  "reportMessage mid reason c =
     (if \<not> truthy reason then c
      else api Report_call ''POST'' (''/messages/'' @ mid @ ''/report'') []
             (Some [(''reason'', coalesce reason [])]) c)"

text \<open>\<open>apiUrl.replace(/\/api\/v1$/, '')\<close>, and the socket it opens; each login adds a heartbeat.\<close>

definition ws_base :: "string \<Rightarrow> string" where
  "ws_base url = (case strip_prefix (rev ''/api/v1'') (rev url) of None \<Rightarrow> url | Some s \<Rightarrow> rev s)"

definition connectSocket :: "client \<Rightarrow> client" where
  "connectSocket c =
     c\<lparr>cl_socket := Some (ws_base (cl_apiUrl c) @ ''/ws''), cl_heartbeats := cl_heartbeats c + 1\<rparr>"

definition loadConversations :: "call \<Rightarrow> client \<Rightarrow> client" where
  "loadConversations k c = api k ''GET'' ''/conversations'' [] None c"

definition afterLogin :: "client \<Rightarrow> client" where
  "afterLogin c =
     (let u = cl_user c;
          c1 = c\<lparr>cl_modal := False,
                 cl_who := (case u of None \<Rightarrow> [] | Some x \<Rightarrow> lu_email x @ '' ('' @ lu_role x @ '')'')\<rparr>
      in connectSocket (loadConversations List_quiet_call c1))"

section \<open>Conversations\<close>

definition conv_item :: "(int \<Rightarrow> string) \<Rightarrow> conv_view \<Rightarrow> string \<times> string" where
  "conv_item local_time v =
     (cj_id v,
      ''<div class=\"subject\">'' @ escapeHtml (if truthy (cj_subject v) then coalesce (cj_subject v) [] else ''Conversation'')
      @ ''</div><div class=\"last\">''
      @ (case cj_lastMessageAt v of None \<Rightarrow> [CHR 0xE2, CHR 0x80, CHR 0x94] | Some t \<Rightarrow> local_time t)
      @ ''</div>'')"

definition open_order_click :: "string \<Rightarrow> client \<Rightarrow> client" where
  "open_order_click raw c =
     (let orderId = js_trim raw in
      if orderId = [] then c
      else api Order_call ''POST'' (''/conversations/by-order/'' @ orderId) [] None c)"

definition openConversation :: "string \<Rightarrow> client \<Rightarrow> client" where
  "openConversation i c =
     (let c1 = c\<lparr>cl_current := Some i\<rparr>;
          c2 = (if cl_socket c = None then c1 else c1\<lparr>cl_emitted := cl_emitted c1 @ [Join i]\<rparr>)
      in api (Detail_call i) ''GET'' (''/conversations/'' @ i) [] None c2)"

definition header_html :: "(nat \<Rightarrow> string) \<Rightarrow> conv_view \<Rightarrow> nat \<Rightarrow> string" where
  "header_html num v n =
     ''<strong>'' @ escapeHtml (if truthy (cj_subject v) then coalesce (cj_subject v) [] else ''Conversation'')
     @ ''</strong><small style=\"color:var(--muted)\">'' @ [CHR 0xE2, CHR 0x80, CHR 0x94] @ '' participants: '' @ num n @ ''</small>''"

section \<open>Messages\<close>

record page_env =
  pe_num :: "nat \<Rightarrow> string"
  pe_int :: "int \<Rightarrow> string"
  pe_time :: "int option \<Rightarrow> string"
  pe_date :: "int \<Rightarrow> string"

fun join_comma :: "string list \<Rightarrow> string" where
  "join_comma [] = []"
| "join_comma [x] = x"
| "join_comma (x # y # xs) = x @ '', '' @ join_comma (y # xs)"

definition flag_open :: string where
  "flag_open = ''<span style=\"background:#f59e0b;color:#000;padding:1px 6px;border-radius:8px;font-size:9px;margin-left:6px\">''"

definition meta_open :: string where
  "meta_open = ''<div class=\"meta\">''"

definition report_open :: string where
  "report_open = ''<a href=\"#\" data-id=\"''"

definition report_attrs :: string where
  "report_attrs = ''\" class=\"report\" style=\"margin-left:6px;color:#fca5a5\">''"

definition flags_html :: "string list option \<Rightarrow> string" where
  "flags_html flags =
     (case flags of None \<Rightarrow> []
      | Some fs \<Rightarrow> if fs = [] then []
          else flag_open @ [CHR 0xE2, CHR 0x9A, CHR 0xA0] @ '' '' @ join_comma fs @ ''</span>'')"

definition is_me :: "client \<Rightarrow> wire_message \<Rightarrow> bool" where
  "is_me c m = (cl_user c \<noteq> None \<and> wr_senderId m = map_option lu_id (cl_user c))"

definition message_html :: "page_env \<Rightarrow> bool \<Rightarrow> wire_message \<Rightarrow> string" where
  "message_html pe me m =
     escapeHtml (js_text (wr_body m)) @ flags_html (wr_flags m)
     @ meta_open @ ''#'' @ js_text (map_option (pe_int pe) (wr_sequence m)) @ '' ''
     @ [CHR 0xE2, CHR 0x80, CHR 0xA2] @ '' '' @ pe_time pe (wr_createdAt m) @ '' ''
     @ (if \<not> me then report_open @ js_text (wr_id m) @ report_attrs @ ''signaler</a>'' else [])
     @ ''</div>''"

definition message_div :: "page_env \<Rightarrow> bool \<Rightarrow> wire_message \<Rightarrow> bubble" where
  "message_div pe me m =
     \<lparr>bu_class = ''msg '' @ (if me then ''me'' else ''other''), bu_html = message_html pe me m,
      bu_report = (if me then None else Some (js_text (wr_id m)))\<rparr>"

definition renderMessage :: "page_env \<Rightarrow> wire_message \<Rightarrow> client \<Rightarrow> client" where
  "renderMessage pe m c =
     (if cl_current c \<noteq> Some (wr_conversationId m) then c
      else c\<lparr>cl_messages := cl_messages c @ [message_div pe (is_me c m) m]\<rparr>)"

text \<open>The end of \<open>openConversation\<close>, once the messages have come.\<close>

definition show_page :: "page_env \<Rightarrow> string \<Rightarrow> wire_message list \<Rightarrow> client \<Rightarrow> client" where
  "show_page pe i page c =
     (let msgs = rev page;
          c1 = fold (renderMessage pe) msgs (c\<lparr>cl_messages := []\<rparr>);
          c2 = c1\<lparr>cl_enabled := True\<rparr>
      in if msgs = [] then c2
         else api Read_call ''POST'' (''/conversations/'' @ i @ ''/messages/read'') []
                (Some [(''uptoSequence'', js_text (map_option (pe_int pe) (wr_sequence (last msgs))))]) c2)"

text \<open>\<open>key\<close> is what \<open>crypto.randomUUID\<close> returns.\<close>

definition send_submit :: "string \<Rightarrow> client \<Rightarrow> client" where
  "send_submit key c =
     (let body = js_trim (cl_input c) in
      if body = [] \<or> \<not> truthy (cl_current c) then c
      else api Send_call ''POST'' (''/conversations/'' @ coalesce (cl_current c) [] @ ''/messages'')
             [(''Idempotency-Key'', key)] (Some [(''body'', body)]) (c\<lparr>cl_input := []\<rparr>))"

text \<open>Typing in the field; the timer stops the indicator of the conversation current when it fires.\<close>

definition input_event :: "string \<Rightarrow> client \<Rightarrow> client" where
  "input_event text c =
     (let c1 = c\<lparr>cl_input := text\<rparr> in
      case cl_current c of
        None \<Rightarrow> c1
      | Some i \<Rightarrow>
          if cl_socket c = None \<or> i = [] then c1
          else c1\<lparr>cl_emitted := cl_emitted c1 @ [Typing i True], cl_typingTimer := Some i\<rparr>)"

definition typing_timeout :: "client \<Rightarrow> client" where
  "typing_timeout c =
     (case cl_typingTimer c of None \<Rightarrow> c
      | Some _ \<Rightarrow> c\<lparr>cl_emitted := cl_emitted c @ [Typing (coalesce (cl_current c) []) False],
                     cl_typingTimer := None\<rparr>)"

definition heartbeat_timer :: "client \<Rightarrow> client" where
  "heartbeat_timer c =
     (if cl_heartbeats c = 0 \<or> cl_socket c = None then c else c\<lparr>cl_emitted := cl_emitted c @ [Ping]\<rparr>)"

section \<open>Answers and frames\<close>

definition alert :: "string \<Rightarrow> client \<Rightarrow> client" where
  "alert s c = c\<lparr>cl_alerts := cl_alerts c @ [s]\<rparr>"

definition show_error :: "string \<Rightarrow> client \<Rightarrow> client" where
  "show_error s c = c\<lparr>cl_error := Some s\<rparr>"

text \<open>
  What follows each call. An error in \<open>loadConversations\<close> or \<open>openConversation\<close>, which nothing
  awaits, is an unhandled rejection: the page stays as it is. Reloading the page after the
  logout starts afresh.
\<close>

fun on_answer :: "page_env \<Rightarrow> call \<Rightarrow> answer \<Rightarrow> client \<Rightarrow> client" where
  "on_answer pe Login_call (Logged tok u) c = afterLogin (c\<lparr>cl_accessToken := Some tok, cl_user := Some u\<rparr>)"
| "on_answer pe Login_call (Failed e) c = show_error e c"
| "on_answer pe Register_call (Failed e) c = show_error e c"
| "on_answer pe Register_call a c =
     show_error (''Compte cr'' @ [CHR 0xE9, CHR 0xE9] @ '', vous pouvez vous connecter.'') c"
| "on_answer pe Logout_call a c = new_client"
| "on_answer pe Export_call (Failed e) c = alert e c"
| "on_answer pe Export_call a c = c\<lparr>cl_downloads := cl_downloads c + 1\<rparr>"
| "on_answer pe Report_call (Failed e) c = alert e c"
| "on_answer pe Report_call a c = alert (''Signalement envoy'' @ [CHR 0xE9] @ ''. Merci.'') c"
| "on_answer pe List_quiet_call (Conversations vs) c = c\<lparr>cl_items := map (conv_item (pe_date pe)) vs\<rparr>"
| "on_answer pe (List_call next) (Conversations vs) c =
     (let c1 = c\<lparr>cl_items := map (conv_item (pe_date pe)) vs\<rparr>
      in case next of None \<Rightarrow> c1 | Some i \<Rightarrow> openConversation i c1)"
| "on_answer pe (List_call next) (Failed e) c = alert e c"
| "on_answer pe Order_call (Conversation v n) c = loadConversations (List_call (Some (cj_id v))) c"
| "on_answer pe Order_call (Failed e) c = alert e c"
| "on_answer pe (Detail_call i) (Conversation v n) c =
     api (Messages_call i) ''GET'' (''/conversations/'' @ i @ ''/messages?limit=50'') [] None
       (c\<lparr>cl_header := header_html (pe_num pe) v n\<rparr>)"
| "on_answer pe (Messages_call i) (Page ms) c = show_page pe i ms c"
| "on_answer pe Send_call (Failed e) c = alert e c"
| "on_answer pe k a c = c"

definition on_created :: "page_env \<Rightarrow> wire_message \<Rightarrow> client \<Rightarrow> client" where
  "on_created pe m c = renderMessage pe m c"

definition on_typing :: "string \<Rightarrow> string \<Rightarrow> bool \<Rightarrow> client \<Rightarrow> client" where
  "on_typing conv user typing c =
     (if Some conv \<noteq> cl_current c then c
      else if Some user = map_option lu_id (cl_user c) then c
      else c\<lparr>cl_typing := (if typing then [CHR 0xE2, CHR 0x9C, CHR 0x8F] @ '' en train d'' @ [CHR 0x27]
               @ [CHR 0xC3, CHR 0xA9] @ ''crire...'' else [])\<rparr>)"

text \<open>
  One event of the page: the user, the socket, a timer, or the answer to a pending call. The
  answers are arbitrary.
\<close>

inductive client_step :: "page_env \<Rightarrow> client \<Rightarrow> client \<Rightarrow> bool" for pe where
  Login: "client_step pe c (login_click url email pwd c)"
| Register: "client_step pe c (register_click url email pwd c)"
| Logout: "client_step pe c (logout_click c)"
| Export: "client_step pe c (export_click c)"
| Report: "client_step pe c (reportMessage mid reason c)"
| Open_order: "client_step pe c (open_order_click raw c)"
| Open: "client_step pe c (openConversation i c)"
| Input: "client_step pe c (input_event text c)"
| Submit: "client_step pe c (send_submit key c)"
| Timeout: "client_step pe c (typing_timeout c)"
| Heartbeat: "client_step pe c (heartbeat_timer c)"
| Status: "client_step pe c (setStatus ok text c)"
| Refused: "client_step pe c (alert text c)"
| Created: "client_step pe c (on_created pe m c)"
| Typing_frame: "client_step pe c (on_typing conv user typing c)"
| Answer: "call \<in> set (cl_calls c) \<Longrightarrow>
    client_step pe c (on_answer pe (fst call) a (c\<lparr>cl_calls := remove1 call (cl_calls c)\<rparr>))"

inductive_cases client_stepE: "client_step pe c c'"

section \<open>Escaping\<close>

lemma strip_prefix_length: "strip_prefix p s = Some t \<Longrightarrow> length t \<le> length s"
  by (auto simp: strip_prefix_Some)

definition entity_tail :: "string \<Rightarrow> (char \<times> string) option" where
  "entity_tail s =
     (case strip_prefix ''amp;'' s of Some t \<Rightarrow> Some (CHR ''&'', t) | None \<Rightarrow>
      (case strip_prefix ''lt;'' s of Some t \<Rightarrow> Some (CHR ''<'', t) | None \<Rightarrow>
      (case strip_prefix ''gt;'' s of Some t \<Rightarrow> Some (CHR ''>'', t) | None \<Rightarrow>
      (case strip_prefix ''quot;'' s of Some t \<Rightarrow> Some (CHR 0x22, t) | None \<Rightarrow>
      (case strip_prefix ''#39;'' s of Some t \<Rightarrow> Some (CHR 0x27, t) | None \<Rightarrow> None)))))"

lemma entity_tail_length: "entity_tail s = Some (x, t) \<Longrightarrow> length t \<le> length s"
  by (auto simp: entity_tail_def split: option.splits dest: strip_prefix_length)

text \<open>How a browser reads the five entities.\<close>

function read_entities :: "string \<Rightarrow> string" where
  "read_entities [] = []"
| "read_entities (c # s) =
     (if c \<noteq> CHR ''&'' then c # read_entities s
      else (case entity_tail s of None \<Rightarrow> c # read_entities s | Some (x, t) \<Rightarrow> x # read_entities t))"
  by pat_completeness auto
termination
  by (relation "measure length") (auto dest: entity_tail_length)

lemma read_escaped_char: "read_entities (escape_char c @ s) = c # read_entities s"
  by (simp add: escape_char_def entity_tail_def)

text \<open>
  Escaping is faithful and safe: what a browser reads from the escaped text is the text,
  and the escaped text contains no angle bracket and no quote, whatever the user wrote.
\<close>
theorem escape_round_trip:
  "read_entities (escapeHtml s) = s
   \<and> set (escapeHtml s) \<inter> {CHR ''<'', CHR ''>'', CHR 0x22, CHR 0x27} = {}"
proof
  show "read_entities (escapeHtml s) = s"
    by (induction s) (simp_all add: escapeHtml_def read_escaped_char)
  show "set (escapeHtml s) \<inter> {CHR ''<'', CHR ''>'', CHR 0x22, CHR 0x27} = {}"
    by (induction s) (auto simp: escapeHtml_def escape_char_def split: if_splits)
qed

lemma escaped_plain: "CHR ''<'' \<notin> set (escapeHtml s)"
  by (induction s) (auto simp: escapeHtml_def escape_char_def split: if_splits)

section \<open>Markup\<close>

text \<open>The tags of an HTML text, opening and closing, in order.\<close>

function tags :: "string \<Rightarrow> string list" where
  "tags [] = []"
| "tags (c # s) =
     (if c = CHR ''<'' then takeWhile (\<lambda>x. x \<noteq> CHR ''>'') s # tags (dropWhile (\<lambda>x. x \<noteq> CHR ''>'') s)
      else tags s)"
  by pat_completeness auto
termination
  by (relation "measure length") (auto simp: le_imp_less_Suc length_dropWhile_le)

lemma tags_plain: "CHR ''<'' \<notin> set xs \<Longrightarrow> tags (xs @ ys) = tags ys"
  by (induction xs) auto

lemma tags_tag:
  assumes "CHR ''>'' \<notin> set t"
  shows "tags (CHR ''<'' # t @ CHR ''>'' # ys) = t # tags ys"
proof -
  have "takeWhile (\<lambda>x. x \<noteq> CHR ''>'') (t @ CHR ''>'' # ys) = t"
    "dropWhile (\<lambda>x. x \<noteq> CHR ''>'') (t @ CHR ''>'' # ys) = CHR ''>'' # ys"
    using assms by (induction t) auto
  then show ?thesis by simp
qed

definition known_flags :: "string list" where
  "known_flags = [''pan'', ''iban'', ''cvv'', ''email'', ''phone'']"

lemma join_comma_plain:
  "(\<And>x. x \<in> set fs \<Longrightarrow> CHR ''<'' \<notin> set x) \<Longrightarrow> CHR ''<'' \<notin> set (join_comma fs)"
  by (induction fs rule: join_comma.induct) auto

lemma known_flags_plain: "set fs \<subseteq> set known_flags \<Longrightarrow> CHR ''<'' \<notin> set (join_comma fs)"
  by (rule join_comma_plain) (auto simp: known_flags_def)

definition flags_known :: "wire_message \<Rightarrow> bool" where
  "flags_known m \<longleftrightarrow> (case wr_flags m of None \<Rightarrow> True | Some fs \<Rightarrow> set fs \<subseteq> set known_flags)"

text \<open>The texts around the body that are not the user's: numbers, times and identifiers.\<close>

definition plain_page :: "page_env \<Rightarrow> wire_message \<Rightarrow> bool" where
  "plain_page pe m \<longleftrightarrow> (\<forall>n. CHR ''<'' \<notin> set (pe_int pe n)) \<and> (\<forall>t. CHR ''<'' \<notin> set (pe_time pe t))
     \<and> set (js_text (wr_id m)) \<inter> {CHR ''<'', CHR ''>''} = {}"

definition flag_tags :: "wire_message \<Rightarrow> string list" where
  "flag_tags m = (case wr_flags m of None \<Rightarrow> [] | Some fs \<Rightarrow>
     if fs = [] then [] else [butlast (tl flag_open), ''/span''])"

definition message_tags :: "bool \<Rightarrow> wire_message \<Rightarrow> string list" where
  "message_tags me m =
     flag_tags m @ [butlast (tl meta_open)]
     @ (if me then [] else [tl report_open @ js_text (wr_id m) @ butlast report_attrs, ''/a''])
     @ [''/div'']"

lemma tag_shapes:
  "flag_open = CHR ''<'' # butlast (tl flag_open) @ [CHR ''>'']"
  "meta_open = CHR ''<'' # butlast (tl meta_open) @ [CHR ''>'']"
  "report_open @ x @ report_attrs = CHR ''<'' # (tl report_open @ x @ butlast report_attrs) @ [CHR ''>'']"
  "CHR ''>'' \<notin> set (butlast (tl flag_open))" "CHR ''>'' \<notin> set (butlast (tl meta_open))"
  "CHR ''>'' \<notin> set (tl report_open)" "CHR ''>'' \<notin> set (butlast report_attrs)"
  by (simp_all add: flag_open_def meta_open_def report_open_def report_attrs_def)

lemma tags_open: "xs = CHR ''<'' # t @ [CHR ''>''] \<Longrightarrow> CHR ''>'' \<notin> set t \<Longrightarrow> tags (xs @ ys) = t # tags ys"
  using tags_tag by simp

lemma tags_close:
  "tags (''</span>'' @ ys) = ''/span'' # tags ys" "tags (''</a>'' @ ys) = ''/a'' # tags ys"
  "tags (''</div>'' @ ys) = ''/div'' # tags ys"
  using tags_tag [of "''/span''" ys] tags_tag [of "''/a''" ys] tags_tag [of "''/div''" ys] by simp_all

lemma tags_end: "tags ''</div>'' = [''/div'']"
  using tags_close(3) [of "[]"] by simp

lemma tags_flags:
  assumes "flags_known m"
  shows "tags (flags_html (wr_flags m) @ ys) = flag_tags m @ tags ys"
proof (cases "wr_flags m")
  case (Some fs)
  with assms have plain: "CHR ''<'' \<notin> set (join_comma fs)"
    by (simp add: flags_known_def known_flags_plain)
  show ?thesis
  proof (cases "fs = []")
    case False
    have "tags (flags_html (wr_flags m) @ ys)
        = tags (flag_open @ (([CHR 0xE2, CHR 0x9A, CHR 0xA0] @ '' '' @ join_comma fs) @ (''</span>'' @ ys)))"
      using Some False by (simp add: flags_html_def)
    also have "\<dots> = butlast (tl flag_open) # ''/span'' # tags ys"
      unfolding tags_open [OF tag_shapes(1,4)] using plain by (subst tags_plain) (simp_all add: tags_close)
    finally show ?thesis using Some False by (simp add: flag_tags_def)
  qed (simp add: Some flags_html_def flag_tags_def)
qed (simp add: flags_html_def flag_tags_def)

text \<open>
  C29: No message can inject markup into the page of its readers. Whatever its body, the HTML
  that the client builds for a message has exactly the tags of the template: the badge of the
  flags when there are any, the line below, and the link to report it when it is another
  user's. The flags are those of the scanner; numbers, times and identifiers hold no bracket.
\<close>
theorem message_cannot_inject:
  assumes "flags_known m" "plain_page pe m"
  shows "tags (message_html pe me m) = message_tags me m"
proof -
  define mid where "mid = ''#'' @ js_text (map_option (pe_int pe) (wr_sequence m)) @ '' ''
     @ [CHR 0xE2, CHR 0x80, CHR 0xA2] @ '' '' @ pe_time pe (wr_createdAt m) @ '' ''"
  define tail where "tail = (if \<not> me then report_open @ js_text (wr_id m) @ report_attrs @ ''signaler</a>'' else [])"
  have mid: "CHR ''<'' \<notin> set mid"
    using assms(2) by (cases "wr_sequence m") (simp_all add: mid_def plain_page_def js_text_def)
  have id: "CHR ''>'' \<notin> set (tl report_open @ js_text (wr_id m) @ butlast report_attrs)"
    using assms(2) tag_shapes(6,7) by (simp add: plain_page_def)
  have link: "tags (tail @ ys) = (if me then [] else [tl report_open @ js_text (wr_id m) @ butlast report_attrs, ''/a'']) @ tags ys"
    for ys
  proof (cases me)
    case False
    have "tail @ ys = (report_open @ js_text (wr_id m) @ report_attrs) @ (''signaler'' @ (''</a>'' @ ys))"
      using False by (simp add: tail_def)
    then show ?thesis
      using False tags_plain [of "''signaler''" "''</a>'' @ ys"]
      by (simp only: tags_open [OF tag_shapes(3) id]) (simp add: tags_close)
  qed (simp add: tail_def)
  have "tags (message_html pe me m)
      = tags (escapeHtml (js_text (wr_body m)) @ (flags_html (wr_flags m)
          @ (meta_open @ (mid @ (tail @ (''</div>'' @ []))))))"
    by (simp add: message_html_def mid_def tail_def)
  also have "\<dots> = message_tags me m"
    by (simp only: tags_plain [OF escaped_plain] tags_flags [OF assms(1)] tags_open [OF tag_shapes(2,5)]
        tags_plain [OF mid] link tags_end message_tags_def append_assoc append_Cons append_Nil)
  finally show ?thesis .
qed

definition sample_page_env :: page_env where
  "sample_page_env = \<lparr>pe_num = (\<lambda>_. ''2''), pe_int = (\<lambda>_. ''7''), pe_time = (\<lambda>_. ''12:00:00''),
     pe_date = (\<lambda>_. ''01/06/2024'')\<rparr>"

definition evil_message :: wire_message where
  "evil_message = \<lparr>wr_id = Some m_one, wr_conversationId = c_one, wr_senderId = Some u_eve,
     wr_sequence = Some 7, wr_body = Some ''<img src=x onerror=alert(1)>'', wr_createdAt = Some 5,
     wr_flags = Some [''phone'']\<rparr>"

theorem message_cannot_inject_witness:
  "tags (message_html sample_page_env False evil_message) = message_tags False evil_message
   \<and> length (message_tags False evil_message) = 6"
proof
  show "tags (message_html sample_page_env False evil_message) = message_tags False evil_message"
    by (rule message_cannot_inject)
      (simp_all add: flags_known_def known_flags_def plain_page_def sample_page_env_def evil_message_def
        js_text_def sample_ids)
qed (simp add: message_tags_def flag_tags_def evil_message_def)

section \<open>The page of a conversation\<close>

text \<open>A message of the list as JSON.\<close>

definition wire_of :: "msg_row \<Rightarrow> wire_message" where
  "wire_of d = \<lparr>wr_id = Some (ms_id d), wr_conversationId = ms_conversationId d,
     wr_senderId = Some (ms_senderId d), wr_sequence = Some (ms_sequence d), wr_body = ms_body d,
     wr_createdAt = Some (ms_createdAt d), wr_flags = ms_moderationFlags d\<rparr>"

lemma is_me_messages [simp]: "is_me (c\<lparr>cl_messages := x\<rparr>) m = is_me c m"
  by (simp add: is_me_def)

lemma fold_render:
  "\<forall>m \<in> set ms. cl_current c = Some (wr_conversationId m) \<Longrightarrow>
   fold (renderMessage pe) ms c
     = c\<lparr>cl_messages := cl_messages c @ map (\<lambda>m. message_div pe (is_me c m) m) ms\<rparr>"
proof (induction ms arbitrary: c)
  case (Cons m ms)
  let ?c = "c\<lparr>cl_messages := cl_messages c @ [message_div pe (is_me c m) m]\<rparr>"
  from Cons.prems have "\<forall>m \<in> set ms. cl_current ?c = Some (wr_conversationId m)" by auto
  from Cons.IH [OF this] Cons.prems show ?case by (simp add: renderMessage_def)
qed simp

lemma fold_render_other:
  "\<forall>m \<in> set ms. cl_current c \<noteq> Some (wr_conversationId m) \<Longrightarrow> fold (renderMessage pe) ms c = c"
  by (induction ms) (simp_all add: renderMessage_def)


definition chat_client :: client where
  "chat_client = new_client\<lparr>cl_current := Some c_one, cl_user :=
     Some \<lparr>lu_id = u_alice, lu_email = ''alice@x.fr'', lu_role = ''customer''\<rparr>\<rparr>"


section \<open>Answers in the wrong order\<close>

text \<open>
  A late answer empties the page. The page is cleared before the answer's messages are
  filtered by the current conversation: when the list of a conversation arrives after the user
  has opened another one, every message displayed disappears, and none takes its place.
\<close>
theorem late_answer_empties_page:
  assumes "cl_current c = Some j" "\<forall>m \<in> set page. wr_conversationId m = i" "i \<noteq> j"
  shows "cl_messages (on_answer pe (Messages_call i) (Page page) c) = []
    \<and> cl_current (on_answer pe (Messages_call i) (Page page) c) = Some j"
proof -
  have "fold (renderMessage pe) (rev page) (c\<lparr>cl_messages := []\<rparr>) = c\<lparr>cl_messages := []\<rparr>"
    using assms by (intro fold_render_other) auto
  then show ?thesis using assms(1) by (simp add: show_page_def Let_def api_def)
qed

theorem late_answer_empties_page_witness:
  "cl_messages (on_answer sample_page_env (Messages_call c_two) (Page [])
     (chat_client\<lparr>cl_messages := [message_div sample_page_env False evil_message]\<rparr>)) = []"
  using late_answer_empties_page
    [of "chat_client\<lparr>cl_messages := [message_div sample_page_env False evil_message]\<rparr>" c_one "[]" c_two sample_page_env]
  by (simp add: chat_client_def sample_ids)

section \<open>Every event\<close>

text \<open>What one event can do to the list of messages on the page.\<close>

definition shows_current :: "page_env \<Rightarrow> client \<Rightarrow> client \<Rightarrow> bool" where
  "shows_current pe c c' \<longleftrightarrow>
     (\<exists>old new. cl_messages c' = old @ map (\<lambda>m. message_div pe (is_me c m) m) new
        \<and> (old = cl_messages c \<or> old = [])
        \<and> (\<forall>m \<in> set new. cl_current c = Some (wr_conversationId m)))"

lemma shows_same: "cl_messages c' = cl_messages c \<Longrightarrow> shows_current pe c c'"
  unfolding shows_current_def by (intro exI [of _ "cl_messages c"] exI [of _ "[]"]) simp

lemma shows_new: "shows_current pe c new_client"
  unfolding shows_current_def by (intro exI [of _ "[]"]) (simp add: new_client_def)

lemma render_shows: "shows_current pe c (renderMessage pe m c)"
proof (cases "cl_current c = Some (wr_conversationId m)")
  case True
  then show ?thesis unfolding shows_current_def
    by (intro exI [of _ "cl_messages c"] exI [of _ "[m]"]) (simp add: renderMessage_def)
qed (simp add: renderMessage_def shows_same)

lemma fold_render_filter:
  "fold (renderMessage pe) ms c
     = fold (renderMessage pe) (filter (\<lambda>m. cl_current c = Some (wr_conversationId m)) ms) c"
proof (induction ms arbitrary: c)
  case (Cons m ms)
  show ?case
  proof (cases "cl_current c = Some (wr_conversationId m)")
    case True
    have "cl_current (renderMessage pe m c) = cl_current c" by (simp add: renderMessage_def)
    with Cons.IH [of "renderMessage pe m c"] True show ?thesis by simp
  next
    case False
    then have "renderMessage pe m c = c" by (simp add: renderMessage_def)
    with Cons.IH [of c] False show ?thesis by simp
  qed
qed simp

lemma show_page_shows: "shows_current pe c (show_page pe i page c)"
proof -
  let ?new = "filter (\<lambda>m. cl_current c = Some (wr_conversationId m)) (rev page)"
  have "fold (renderMessage pe) (rev page) (c\<lparr>cl_messages := []\<rparr>)
      = c\<lparr>cl_messages := map (\<lambda>m. message_div pe (is_me c m) m) ?new\<rparr>"
    using fold_render [of ?new "c\<lparr>cl_messages := []\<rparr>" pe] by (subst fold_render_filter) simp
  then have "cl_messages (show_page pe i page c) = [] @ map (\<lambda>m. message_div pe (is_me c m) m) ?new"
    by (simp add: show_page_def Let_def api_def)
  then show ?thesis unfolding shows_current_def
    by (intro exI [of _ "[]"] exI [of _ ?new]) simp
qed

lemmas client_defs = login_click_def register_click_def logout_click_def export_click_def
  reportMessage_def open_order_click_def openConversation_def input_event_def send_submit_def
  typing_timeout_def heartbeat_timer_def setStatus_def alert_def on_typing_def api_def Let_def

lemma messages_kept:
  "cl_messages (login_click url email pwd c) = cl_messages c"
  "cl_messages (register_click url email pwd c) = cl_messages c"
  "cl_messages (logout_click c) = cl_messages c" "cl_messages (export_click c) = cl_messages c"
  "cl_messages (reportMessage mid reason c) = cl_messages c"
  "cl_messages (open_order_click raw c) = cl_messages c"
  "cl_messages (openConversation i c) = cl_messages c"
  "cl_messages (input_event text c) = cl_messages c" "cl_messages (send_submit key c) = cl_messages c"
  "cl_messages (typing_timeout c) = cl_messages c" "cl_messages (heartbeat_timer c) = cl_messages c"
  "cl_messages (setStatus ok text c) = cl_messages c" "cl_messages (alert text c) = cl_messages c"
  "cl_messages (on_typing conv user typing c) = cl_messages c"
  by (simp_all add: client_defs split: option.split)

lemma on_answer_shows: "shows_current pe c (on_answer pe k a (c\<lparr>cl_calls := ks\<rparr>))"
proof -
  have page: "shows_current pe c (show_page pe i page (c\<lparr>cl_calls := ks\<rparr>))" for i page
    using show_page_shows [of pe "c\<lparr>cl_calls := ks\<rparr>" i page] by (simp add: shows_current_def is_me_def)
  show ?thesis
    by (cases k; cases a)
      (auto intro!: shows_same shows_new page simp: messages_kept show_error_def afterLogin_def
        connectSocket_def loadConversations_def api_def Let_def split: option.split)
qed



section \<open>Sending\<close>

lemma dropWhile_rev_prefix:
  obtains ys where "xs = rev (dropWhile P (rev xs)) @ ys" "\<forall>y \<in> set ys. P y"
proof -
  have "rev xs = takeWhile P (rev xs) @ dropWhile P (rev xs)" by simp
  from arg_cong [OF this, of rev]
  have "xs = rev (dropWhile P (rev xs)) @ rev (takeWhile P (rev xs))"
    unfolding rev_append rev_rev_ident .
  moreover have "\<forall>y \<in> set (rev (takeWhile P (rev xs))). P y" by (auto dest: set_takeWhileD)
  ultimately show thesis by (rule that)
qed

lemma dropWhile_fixed: "xs = [] \<or> \<not> P (hd xs) \<Longrightarrow> dropWhile P xs = xs"
  by (cases xs) auto

lemma js_trim_idem: "js_trim (js_trim s) = js_trim s"
proof -
  define t where "t = dropWhile is_space s"
  define r where "r = js_trim s"
  have r: "r = rev (dropWhile is_space (rev t))" by (simp add: r_def t_def js_trim_def)
  have hd_t: "t = [] \<or> \<not> is_space (hd t)" unfolding t_def using hd_dropWhile by blast
  obtain ys where ys: "t = r @ ys" unfolding r by (rule dropWhile_rev_prefix)
  have "r = [] \<or> \<not> is_space (hd r)"
    using hd_t unfolding ys by (cases r) auto
  then have front: "dropWhile is_space r = r" by (rule dropWhile_fixed)
  have "dropWhile is_space (rev r) = rev r"
    unfolding r by (simp add: dropWhile_idem)
  with front show ?thesis by (simp add: r_def [symmetric]) (simp add: js_trim_def)
qed

text \<open>
  What the composer sends is what the server takes. With a text that is not blank and a
  conversation open, submitting empties the field and sends one request to that conversation;
  its body is the trimmed text, which the server's own trimming leaves as it is, and which
  passes the validation of the request when it has at most 4000 characters.
\<close>
theorem submitted_text_is_sendable:
  assumes "cl_current c = Some i" "i \<noteq> []" "js_trim (cl_input c) \<noteq> []" "length (js_trim (cl_input c)) \<le> 4000"
  shows "\<exists>rq b. cl_calls (send_submit key c) = cl_calls c @ [(Send_call, rq)]
    \<and> cl_input (send_submit key c) = []
    \<and> hr_url rq = cl_apiUrl c @ ''/conversations/'' @ i @ ''/messages'' \<and> hr_method rq = ''POST''
    \<and> (''Idempotency-Key'', key) \<in> set (hr_headers rq) \<and> hr_json rq = Some [(''body'', b)]
    \<and> js_trim b = b \<and> valid_send \<lparr>sd_body = b, sd_idempotencyKey = None\<rparr>"
proof -
  have "Suc 0 \<le> length (js_trim (cl_input c))" using assms(3) by (cases "js_trim (cl_input c)") auto
  with assms show ?thesis
    by (intro exI [of _ "\<lparr>hr_method = ''POST'', hr_url = cl_apiUrl c @ ''/conversations/'' @ i @ ''/messages'',
          hr_headers = api_headers c [(''Idempotency-Key'', key)], hr_json = Some [(''body'', js_trim (cl_input c))]\<rparr>"]
        exI [of _ "js_trim (cl_input c)"])
      (auto simp: send_submit_def Let_def api_def js_trim_idem valid_send_def truthy_def coalesce_def api_headers_def)
qed

theorem submitted_text_is_sendable_witness:
  "\<exists>rq b. cl_calls (send_submit ''k'' (chat_client\<lparr>cl_input := '' Bonjour ''\<rparr>)) = [] @ [(Send_call, rq)]
    \<and> cl_input (send_submit ''k'' (chat_client\<lparr>cl_input := '' Bonjour ''\<rparr>)) = []
    \<and> js_trim b = b \<and> hr_json rq = Some [(''body'', b)]"
proof -
  let ?c = "chat_client\<lparr>cl_input := '' Bonjour ''\<rparr>"
  have t: "js_trim (cl_input ?c) = ''Bonjour''"
    by (simp add: js_trim_def is_space_def code_def Let_def)
  have "cl_current ?c = Some c_one" "c_one \<noteq> []" "cl_calls ?c = []"
    by (simp_all add: chat_client_def new_client_def sample_ids)
  with submitted_text_is_sendable [of ?c c_one "''k''"] show ?thesis unfolding t by auto
qed

text \<open>
  The timer of the typing indicator reads the current conversation when it fires: after a change
  of conversation the first one is never told that typing has stopped.
\<close>

lemma typing_stop_goes_elsewhere:
  assumes "cl_current c = Some i" "i \<noteq> []" "cl_socket c = Some s" "cl_emitted c = []" "i \<noteq> j"
  shows "cl_emitted (typing_timeout (openConversation j (input_event text c))) = [Typing i True, Join j, Typing j False]"
  using assms by (simp add: input_event_def openConversation_def typing_timeout_def api_def Let_def coalesce_def)

end
