(* ===== verification/Seeds.thy ===== *)
theory Seeds
  imports History
begin

text \<open>
  The seeds (backend/src/database/seed.ts and seed-loadtest.ts) and the load tests that rely on
  them (src/loadtest/k6). A \<open>save\<close> of a new entity is an insertion; nothing wraps the steps in a
  transaction, so a failure leaves what was stored before it. \<open>hash\<close> is the argon2 hash, computed
  once; \<open>ids\<close> are the identifiers that the database draws, by pair and by row of the pair.
\<close>

section \<open>Saving\<close>

definition bind_res :: "('s, 'a) res \<Rightarrow> ('a \<Rightarrow> 's \<Rightarrow> ('s, 'b) res) \<Rightarrow> ('s, 'b) res" where
  "bind_res r k = (case r of (Inl e, w) \<Rightarrow> (Inl e, w) | (Inr x, w) \<Rightarrow> k x w)"

lemma bind_res_simps [simp]: "bind_res (Inl e, w) k = (Inl e, w)" "bind_res (Inr x, w) k = k x w"
  by (simp_all add: bind_res_def)

definition save_user :: "user_row \<Rightarrow> world \<Rightarrow> (world, user_row) res" where
  "save_user u w = (case insert_row user_clash u (w_users w) of
     Inl e \<Rightarrow> (Inl e, w) | Inr rows \<Rightarrow> (Inr u, w\<lparr>w_users := rows\<rparr>))"

definition save_order :: "order_row \<Rightarrow> world \<Rightarrow> (world, order_row) res" where
  "save_order r w = (case insert_row order_clash r (w_orders w) of
     Inl e \<Rightarrow> (Inl e, w) | Inr rows \<Rightarrow> (Inr r, w\<lparr>w_orders := rows\<rparr>))"

definition save_conv :: "conv_row \<Rightarrow> world \<Rightarrow> (world, conv_row) res" where
  "save_conv c w = (case insert_row conv_clash c (w_convs w) of
     Inl e \<Rightarrow> (Inl e, w) | Inr rows \<Rightarrow> (Inr c, w\<lparr>w_convs := rows\<rparr>))"

definition save_parts :: "part_row \<Rightarrow> part_row \<Rightarrow> world \<Rightarrow> (world, unit) res" where
  "save_parts p q w = (case insert_two_parts p q (w_parts w) of
     Inl e \<Rightarrow> (Inl e, w) | Inr rows \<Rightarrow> (Inr (), w\<lparr>w_parts := rows\<rparr>))"

definition seed_user :: "string \<Rightarrow> int \<Rightarrow> uuid \<Rightarrow> string \<Rightarrow> user_role \<Rightarrow> string \<Rightarrow> user_row" where
  "seed_user hash t i email role name =
     \<lparr>us_id = i, us_email = email, us_passwordHash = hash, us_role = role, us_displayName = Some name,
      us_mfaSecret = None, us_isSuspended = False, us_anonymizedAt = None,
      us_dataExportRequestedAt = None, us_createdAt = t\<rparr>"

definition seed_order :: "int \<Rightarrow> uuid \<Rightarrow> string \<Rightarrow> user_row \<Rightarrow> user_row \<Rightarrow> int \<Rightarrow> order_row" where
  "seed_order t i ref customer seller cents =
     \<lparr>or_id = i, or_externalRef = ref, or_customerId = us_id customer, or_sellerId = us_id seller,
      or_status = OOpen, or_totalCents = cents, or_currency = ''EUR'', or_createdAt = t\<rparr>"

definition seed_conv :: "int \<Rightarrow> uuid \<Rightarrow> order_row \<Rightarrow> string \<Rightarrow> conv_row" where
  "seed_conv t i ord subject =
     \<lparr>cv_id = i, cv_orderId = or_id ord, cv_status = Open, cv_subject = Some subject,
      cv_lastMessageAt = None, cv_lastSequence = 0, cv_createdAt = t, cv_searchIndexed = False,
      cv_searchIndexedAt = None, cv_e2eeEnabled = False, cv_e2eeEnabledAt = None\<rparr>"

section \<open>The demonstration seed\<close>

definition seed_demo :: "string \<Rightarrow> int \<Rightarrow> (nat \<Rightarrow> uuid) \<Rightarrow> world \<Rightarrow> (world, uuid \<times> uuid) res" where
  "seed_demo hash t ids w =
     bind_res (save_user (seed_user hash t (ids 0) ''customer@test.com'' Customer ''Alice (client)'') w) (\<lambda>customer w.
     bind_res (save_user (seed_user hash t (ids 1) ''seller@test.com'' Seller ''Bob (vendeur)'') w) (\<lambda>seller w.
     bind_res (save_user (seed_user hash t (ids 2) ''admin@test.com'' Admin ''Admin'') w) (\<lambda>admin w.
     bind_res (save_order (seed_order t (ids 3) ''ORD-DEMO-001'' customer seller 12990) w) (\<lambda>order w.
     bind_res (save_conv (seed_conv t (ids 4) order (''Commande '' @ or_externalRef order)) w) (\<lambda>conv w.
     bind_res (save_parts (new_part t (cv_id conv) (us_id customer) Customer)
                          (new_part t (cv_id conv) (us_id seller) Seller) w) (\<lambda>_ w.
       (Inr (or_id order, cv_id conv), w)))))))"

section \<open>The load test seed\<close>

definition customer_email :: "nat \<Rightarrow> string" where
  "customer_email i = ''loadtest_customer_'' @ nat_text i @ ''@test.com''"

definition seller_email :: "nat \<Rightarrow> string" where
  "seller_email i = ''loadtest_seller_'' @ nat_text i @ ''@test.com''"

definition lt_customer :: "string \<Rightarrow> int \<Rightarrow> (nat \<Rightarrow> nat \<Rightarrow> uuid) \<Rightarrow> nat \<Rightarrow> user_row" where
  "lt_customer hash t ids i = seed_user hash t (ids i 0) (customer_email i) Customer (''LT customer '' @ nat_text i)"

definition lt_seller :: "string \<Rightarrow> int \<Rightarrow> (nat \<Rightarrow> nat \<Rightarrow> uuid) \<Rightarrow> nat \<Rightarrow> user_row" where
  "lt_seller hash t ids i = seed_user hash t (ids i 1) (seller_email i) Seller (''LT seller '' @ nat_text i)"

definition seed_pair :: "string \<Rightarrow> int \<Rightarrow> (nat \<Rightarrow> nat \<Rightarrow> uuid) \<Rightarrow> nat \<Rightarrow> world \<Rightarrow> (world, unit) res" where
  "seed_pair hash t ids i w =
     bind_res (save_user (lt_customer hash t ids i) w) (\<lambda>customer w.
     bind_res (save_user (lt_seller hash t ids i) w) (\<lambda>seller w.
     bind_res (save_order (seed_order t (ids i 2) (''LT-ORD-'' @ nat_text i) customer seller 1990) w) (\<lambda>order w.
     bind_res (save_conv (seed_conv t (ids i 3) order (''Commande LT-'' @ nat_text i)) w) (\<lambda>conv w.
       save_parts (new_part t (cv_id conv) (us_id customer) Customer)
                  (new_part t (cv_id conv) (us_id seller) Seller) w))))"

fun seed_loop :: "string \<Rightarrow> int \<Rightarrow> (nat \<Rightarrow> nat \<Rightarrow> uuid) \<Rightarrow> nat \<Rightarrow> nat \<Rightarrow> world \<Rightarrow> (world, unit) res" where
  "seed_loop hash t ids i 0 w = (Inr (), w)"
| "seed_loop hash t ids i (Suc n) w =
     bind_res (seed_pair hash t ids i w) (\<lambda>_ w. seed_loop hash t ids (Suc i) n w)"

definition seed_loadtest :: "string \<Rightarrow> int \<Rightarrow> (nat \<Rightarrow> nat \<Rightarrow> uuid) \<Rightarrow> nat \<Rightarrow> world \<Rightarrow> (world, unit) res" where
  "seed_loadtest hash t ids n w = seed_loop hash t ids 0 n w"

section \<open>The load tests\<close>

text \<open>Which account a virtual user takes (ws-fanout.js, http-baseline.js, messages-burst.js).\<close>

definition fanout_email :: "nat \<Rightarrow> string" where
  "fanout_email vu =
     (let i = vu - 1 in if i mod 2 = 0 then customer_email (i div 2) else seller_email (i div 2))"

definition baseline_email :: "nat \<Rightarrow> nat \<Rightarrow> nat \<Rightarrow> string" where
  "baseline_email users vu iter = customer_email ((vu + iter) mod users)"

definition burst_email :: "nat \<Rightarrow> nat \<Rightarrow> string" where
  "burst_email users vu = customer_email (vu mod users)"

text \<open>
  The reads of one iteration before it sends: the login, then the conversation that the list
  gives first. \<open>None\<close> is an early \<open>return\<close>.
\<close>

definition first_conversation ::
  "(string \<Rightarrow> bool) \<Rightarrow> (string \<Rightarrow> string) \<Rightarrow> (auth_user \<Rightarrow> int \<Rightarrow> string) \<Rightarrow> (string \<Rightarrow> string \<Rightarrow> bool option) \<Rightarrow>
   config \<Rightarrow> int \<Rightarrow> string \<Rightarrow> uuid \<Rightarrow> string \<Rightarrow> session_meta \<Rightarrow> world \<Rightarrow> (auth_user \<times> uuid) option" where
  "first_conversation is_email sha sign verify cfg t raw i email meta w =
     (case login_post is_email sha sign verify cfg t raw i email ''Password1234!'' meta w of
        (Inl e, _) \<Rightarrow> None
      | (Inr (user, tokens), w1) \<Rightarrow>
          (case conversations_list (jwt_payload user) w1 of [] \<Rightarrow> None | c # _ \<Rightarrow> Some (jwt_payload user, cv_id c)))"

section \<open>Numbers in names\<close>

lemma digits_val_snoc: "digits_val a (s @ [c]) = digits_val a s * 10 + digit_val c"
  by (induction s arbitrary: a) simp_all

lemma digit_char: "n < 10 \<Longrightarrow> code (char_of (48 + n)) = 48 + n"
  by (simp add: code_def of_char_of)

lemma nat_text_digits: "digits_val 0 (nat_text n) = n \<and> (\<forall>c \<in> set (nat_text n). is_digit c)"
proof (induction n rule: nat_text.induct)
  case (1 n)
  have d: "is_digit (char_of (48 + m))" "digit_val (char_of (48 + m)) = m" if "m < 10" for m
    using digit_char [OF that] that by (simp_all add: is_digit_def digit_val_def Let_def)
  show ?case
  proof (cases "n < 10")
    case True
    then show ?thesis using d [of n] by (subst (1 2) nat_text.simps) simp
  next
    case False
    have "nat_text n = nat_text (n div 10) @ [char_of (48 + n mod 10)]"
      using False by (subst nat_text.simps) simp
    with 1 False d [of "n mod 10"] show ?thesis by (simp add: digits_val_snoc)
  qed
qed

lemma nat_text_inj [simp]: "nat_text i = nat_text j \<longleftrightarrow> i = j"
  using nat_text_digits by metis

lemma lower_digits: "to_lower (nat_text n) = nat_text n"
proof -
  have "lower_char c = c" if "is_digit c" for c
    using that by (auto simp: is_digit_def lower_char_def is_upper_def Let_def)
  then show ?thesis using nat_text_digits [of n] by (simp add: to_lower_def map_idI)
qed

lemma lower_email [simp]:
  "to_lower (customer_email i) = customer_email i" "to_lower (seller_email i) = seller_email i"
  using lower_digits [of i]
  by (simp_all add: customer_email_def seller_email_def to_lower_def)
    (simp_all add: lower_char_def is_upper_def code_def Let_def)

lemma email_inj [simp]:
  "customer_email i = customer_email j \<longleftrightarrow> i = j" "seller_email i = seller_email j \<longleftrightarrow> i = j"
  "customer_email i \<noteq> seller_email j" "seller_email i \<noteq> customer_email j"
  by (simp_all add: customer_email_def seller_email_def)

section \<open>What the load test seed stores\<close>

definition pair_order :: "string \<Rightarrow> int \<Rightarrow> (nat \<Rightarrow> nat \<Rightarrow> uuid) \<Rightarrow> nat \<Rightarrow> order_row" where
  "pair_order hash t ids i =
     seed_order t (ids i 2) (''LT-ORD-'' @ nat_text i) (lt_customer hash t ids i) (lt_seller hash t ids i) 1990"

definition pair_conv :: "string \<Rightarrow> int \<Rightarrow> (nat \<Rightarrow> nat \<Rightarrow> uuid) \<Rightarrow> nat \<Rightarrow> conv_row" where
  "pair_conv hash t ids i = seed_conv t (ids i 3) (pair_order hash t ids i) (''Commande LT-'' @ nat_text i)"

definition seeded :: "string \<Rightarrow> int \<Rightarrow> (nat \<Rightarrow> nat \<Rightarrow> uuid) \<Rightarrow> nat \<Rightarrow> world" where
  "seeded hash t ids n = empty_world
     \<lparr>w_users := concat (map (\<lambda>i. [lt_customer hash t ids i, lt_seller hash t ids i]) [0..<n]),
      w_orders := map (pair_order hash t ids) [0..<n],
      w_convs := map (pair_conv hash t ids) [0..<n],
      w_parts := concat (map (\<lambda>i. [new_part t (ids i 3) (ids i 0) Customer, new_part t (ids i 3) (ids i 1) Seller]) [0..<n])\<rparr>"

definition fresh_ids :: "(nat \<Rightarrow> nat \<Rightarrow> uuid) \<Rightarrow> nat \<Rightarrow> bool" where
  "fresh_ids ids n \<longleftrightarrow> inj_on (\<lambda>(i, k). ids i k) ({..<n} \<times> {..<4})"

lemma fresh_idsD:
  "fresh_ids ids n \<Longrightarrow> i < n \<Longrightarrow> j < n \<Longrightarrow> k < 4 \<Longrightarrow> l < 4 \<Longrightarrow> ids i k = ids j l \<longleftrightarrow> i = j \<and> k = l"
  using inj_onD [of "\<lambda>(i, k). ids i k" "{..<n} \<times> {..<4}" "(i, k)" "(j, l)"] by (auto simp: fresh_ids_def)

lemma fresh_ids_less: "fresh_ids ids n \<Longrightarrow> m \<le> n \<Longrightarrow> fresh_ids ids m"
  unfolding fresh_ids_def by (erule inj_on_subset) auto

lemma row_keys:
  "us_id (lt_customer hash t ids i) = ids i 0" "us_id (lt_seller hash t ids i) = ids i 1"
  "us_email (lt_customer hash t ids i) = customer_email i" "us_email (lt_seller hash t ids i) = seller_email i"
  "or_id (pair_order hash t ids i) = ids i 2" "or_externalRef (pair_order hash t ids i) = ''LT-ORD-'' @ nat_text i"
  "or_customerId (pair_order hash t ids i) = ids i 0" "or_sellerId (pair_order hash t ids i) = ids i 1"
  "cv_id (pair_conv hash t ids i) = ids i 3" "cv_orderId (pair_conv hash t ids i) = ids i 2"
  "cv_lastSequence (pair_conv hash t ids i) = 0" "cv_lastMessageAt (pair_conv hash t ids i) = None"
  by (simp_all add: lt_customer_def lt_seller_def seed_user_def pair_order_def seed_order_def pair_conv_def seed_conv_def)

text \<open>The rows of the next pair clash with nothing.\<close>

lemma fresh_rows:
  assumes "fresh_ids ids (Suc i)"
  shows "\<forall>x \<in> set (w_users (seeded hash t ids i)). \<not> user_clash x (lt_customer hash t ids i)"
    "\<forall>x \<in> set (w_users (seeded hash t ids i) @ [lt_customer hash t ids i]). \<not> user_clash x (lt_seller hash t ids i)"
    "\<forall>x \<in> set (w_orders (seeded hash t ids i)). \<not> order_clash x (pair_order hash t ids i)"
    "\<forall>x \<in> set (w_convs (seeded hash t ids i)). \<not> conv_clash x (pair_conv hash t ids i)"
    "\<forall>x \<in> set (w_parts (seeded hash t ids i)). \<not> part_clash x (new_part t (ids i 3) (ids i 0) Customer)"
    "\<forall>x \<in> set (w_parts (seeded hash t ids i) @ [new_part t (ids i 3) (ids i 0) Customer]).
       \<not> part_clash x (new_part t (ids i 3) (ids i 1) Seller)"
  using fresh_idsD [OF assms]
  by (auto simp: seeded_def user_clash_def order_clash_def conv_clash_def part_clash_def new_part_def row_keys)

lemma seeded_Suc:
  "w_users (seeded hash t ids (Suc m)) = (w_users (seeded hash t ids m) @ [lt_customer hash t ids m]) @ [lt_seller hash t ids m]"
  "w_orders (seeded hash t ids (Suc m)) = w_orders (seeded hash t ids m) @ [pair_order hash t ids m]"
  "w_convs (seeded hash t ids (Suc m)) = w_convs (seeded hash t ids m) @ [pair_conv hash t ids m]"
  "w_parts (seeded hash t ids (Suc m)) = (w_parts (seeded hash t ids m)
     @ [new_part t (ids m 3) (ids m 0) Customer]) @ [new_part t (ids m 3) (ids m 1) Seller]"
  by (simp_all add: seeded_def)

lemma seed_pair_step:
  assumes "fresh_ids ids (Suc i)"
  shows "seed_pair hash t ids i (seeded hash t ids i) = (Inr (), seeded hash t ids (Suc i))"
proof -
  let ?us = "w_users (seeded hash t ids i)" and ?ps = "w_parts (seeded hash t ids i)"
  let ?p = "new_part t (ids i 3) (ids i 0) Customer" and ?q = "new_part t (ids i 3) (ids i 1) Seller"
  note new = fresh_rows [OF assms, of hash t]
  have u1: "insert_row user_clash (lt_customer hash t ids i) ?us = Inr (?us @ [lt_customer hash t ids i])"
    by (rule insert_row_Inr) (use new(1) in blast)
  have u2: "insert_row user_clash (lt_seller hash t ids i) (?us @ [lt_customer hash t ids i])
      = Inr ((?us @ [lt_customer hash t ids i]) @ [lt_seller hash t ids i])"
    by (rule insert_row_Inr) (use new(2) in blast)
  have o: "insert_row order_clash (pair_order hash t ids i) (w_orders (seeded hash t ids i))
      = Inr (w_orders (seeded hash t ids i) @ [pair_order hash t ids i])"
    by (rule insert_row_Inr) (use new(3) in blast)
  have c: "insert_row conv_clash (pair_conv hash t ids i) (w_convs (seeded hash t ids i))
      = Inr (w_convs (seeded hash t ids i) @ [pair_conv hash t ids i])"
    by (rule insert_row_Inr) (use new(4) in blast)
  have p1: "insert_row part_clash ?p ?ps = Inr (?ps @ [?p])"
    by (rule insert_row_Inr) (use new(5) in blast)
  have p2: "insert_row part_clash ?q (?ps @ [?p]) = Inr ((?ps @ [?p]) @ [?q])"
    by (rule insert_row_Inr) (use new(6) in blast)
  define w1 where "w1 = (seeded hash t ids i)\<lparr>w_users := ?us @ [lt_customer hash t ids i]\<rparr>"
  define w2 where "w2 = w1\<lparr>w_users := ?us @ [lt_customer hash t ids i] @ [lt_seller hash t ids i]\<rparr>"
  define w3 where "w3 = w2\<lparr>w_orders := w_orders (seeded hash t ids i) @ [pair_order hash t ids i]\<rparr>"
  define w4 where "w4 = w3\<lparr>w_convs := w_convs (seeded hash t ids i) @ [pair_conv hash t ids i]\<rparr>"
  have s1: "save_user (lt_customer hash t ids i) (seeded hash t ids i) = (Inr (lt_customer hash t ids i), w1)"
    by (simp add: save_user_def u1 w1_def)
  have s2: "save_user (lt_seller hash t ids i) w1 = (Inr (lt_seller hash t ids i), w2)"
    using u2 by (simp add: save_user_def w1_def w2_def)
  have s3: "save_order (pair_order hash t ids i) w2 = (Inr (pair_order hash t ids i), w3)"
    using o by (simp add: save_order_def w1_def w2_def w3_def)
  have s4: "save_conv (pair_conv hash t ids i) w3 = (Inr (pair_conv hash t ids i), w4)"
    using c by (simp add: save_conv_def w1_def w2_def w3_def w4_def)
  have s5: "save_parts (new_part t (ids i 3) (ids i 0) Customer) (new_part t (ids i 3) (ids i 1) Seller) w4
      = (Inr (), seeded hash t ids (Suc i))"
    using p1 p2 by (simp add: save_parts_def insert_two_parts_def w1_def w2_def w3_def w4_def)
      (simp add: seeded_def)
  show ?thesis
    unfolding seed_pair_def
    by (simp only: s1 s2 s3 s4 s5 bind_res_simps pair_order_def [symmetric] pair_conv_def [symmetric] row_keys)
qed

lemma seed_loop_steps:
  "fresh_ids ids (i + n) \<Longrightarrow>
   seed_loop hash t ids i n (seeded hash t ids i) = (Inr (), seeded hash t ids (i + n))"
proof (induction n arbitrary: i)
  case (Suc n)
  have "fresh_ids ids (Suc i)" using Suc.prems by (rule fresh_ids_less) simp
  from seed_pair_step [OF this] Suc.IH [of "Suc i"] Suc.prems show ?case by simp
qed simp

lemma seeded_empty: "seeded hash t ids 0 = empty_world"
  by (simp add: seeded_def empty_world_def)

lemma seed_loadtest_seeds:
  "fresh_ids ids n \<Longrightarrow> seed_loadtest hash t ids n empty_world = (Inr (), seeded hash t ids n)"
  using seed_loop_steps [of ids 0 n] by (simp add: seed_loadtest_def seeded_empty)

lemma seeded_inv: "fresh_ids ids n \<Longrightarrow> inv (seeded hash t ids n)"
proof -
  assume ids: "fresh_ids ids n"
  have free: "clash_free user_clash (w_users (seeded hash t ids m)) \<and> clash_free order_clash (w_orders (seeded hash t ids m))
      \<and> clash_free conv_clash (w_convs (seeded hash t ids m)) \<and> clash_free part_clash (w_parts (seeded hash t ids m))"
    if "m \<le> n" for m
    using that
  proof (induction m)
    case (Suc m)
    note new = fresh_rows [OF fresh_ids_less [OF ids Suc.prems], of hash t]
    from Suc show ?case
      unfolding seeded_Suc clash_free_snoc using new by simp
  qed (simp add: seeded_def)
  from free [of n] have "schema_ok (seeded hash t ids n)"
    by (simp add: schema_ok_def seeded_def empty_world_def)
  moreover have "seq_ok (seeded hash t ids n)"
    by (simp add: seq_ok_def msgs_of_def row_keys seeded_def empty_world_def)
  ultimately show ?thesis by (simp add: inv_def)
qed

lemma seeded_references: "references_ok (seeded hash t ids n)"
  unfolding references_ok_def followed_keys_eq list.pred_inject prod.case column_values_eq uuid_images
  by (auto simp: seeded_def empty_world_def row_keys new_part_def in_these_eq) (auto simp: row_keys image_iff intro: bexI)

text \<open>
  The load test seed does its work for any number of pairs. Started on an empty database,
  with identifiers that the database draws all different, it ends without error after creating
  two accounts, an order, a conversation and its two participants for each pair; the database
  it leaves satisfies every unique constraint, the numbering and every reference, so that the
  server may start from it.
\<close>
theorem seed_fills_empty_database:
  assumes "fresh_ids ids n"
  shows "\<exists>w. seed_loadtest hash t ids n empty_world = (Inr (), w)
    \<and> length (w_users w) = 2 * n \<and> length (w_orders w) = n \<and> length (w_convs w) = n \<and> length (w_parts w) = 2 * n
    \<and> inv w \<and> mls_ok w \<and> references_ok w"
proof -
  have two: "length (concat (map (\<lambda>i. [f i, g i]) [0..<n])) = 2 * n" for f g :: "nat \<Rightarrow> 'x"
    by (induction n) simp_all
  show ?thesis
    using seed_loadtest_seeds [OF assms] seeded_inv [OF assms] seeded_references
    by (auto simp: two seeded_def empty_world_def mls_ok_empty)
qed

definition counted_ids :: "nat \<Rightarrow> nat \<Rightarrow> uuid" where
  "counted_ids i k = nat_text (4 * i + k)"

lemma counted_ids_fresh: "fresh_ids counted_ids n"
proof -
  have "i = j \<and> k = l" if "4 * i + k = 4 * j + l" "k < 4" "l < 4" for i j k l :: nat
    using that by presburger
  then show ?thesis by (fastforce simp: fresh_ids_def inj_on_def counted_ids_def)
qed

theorem seed_fills_empty_database_witness:
  "\<exists>w. seed_loadtest ''h'' 1 counted_ids 50 empty_world = (Inr (), w) \<and> length (w_users w) = 100 \<and> inv w"
  using seed_fills_empty_database [OF counted_ids_fresh [of 50], of "''h''" 1] by auto

text \<open>
  The seed cannot run twice. On the database it left, a second run with at least one pair
  fails at its first account with code 23505 (the e-mail is taken) and changes nothing.
\<close>
theorem seed_not_repeatable:
  assumes "fresh_ids ids n" "seed_loadtest hash t ids n empty_world = (Inr (), w)" "0 < n" "0 < k"
  shows "seed_loadtest hash' t' ids' k w = (Inl (DbError ''23505''), w)"
proof -
  have w: "w = seeded hash t ids n" using assms(1,2) seed_loadtest_seeds by simp
  obtain m where n: "n = Suc m" using assms(3) by (cases n) auto
  have "insert_row user_clash (lt_customer hash' t' ids' 0) (w_users w) = Inl (DbError ''23505'')"
    by (simp add: insert_row_def w n seeded_def user_clash_def row_keys upt_conv_Cons del: upt_Suc)
  then show ?thesis
    using assms(4) by (cases k) (simp_all add: seed_loadtest_def seed_pair_def save_user_def)
qed

theorem seed_not_repeatable_witness:
  "\<exists>w. seed_loadtest ''h'' 1 counted_ids 2 empty_world = (Inr (), w)
     \<and> seed_loadtest ''h'' 2 counted_ids 1 w = (Inl (DbError ''23505''), w)"
  using seed_not_repeatable [OF counted_ids_fresh seed_loadtest_seeds [OF counted_ids_fresh],
      where n = 2 and hash = "''h''" and t = 1 and k = 1 and hash' = "''h''" and t' = 2 and ids' = counted_ids]
    seed_loadtest_seeds [OF counted_ids_fresh, where n = 2 and hash = "''h''" and t = 1] by auto

section \<open>The accounts of the load tests\<close>

lemma users_seeded:
  "users_findByEmail (customer_email i) (seeded hash t ids n) = (if i < n then Some (lt_customer hash t ids i) else None)"
  "users_findByEmail (seller_email i) (seeded hash t ids n) = (if i < n then Some (lt_seller hash t ids i) else None)"
proof (induction n)
  case 0
  { case 1 show ?case by (simp add: users_findByEmail_def seeded_def) }
  { case 2 show ?case by (simp add: users_findByEmail_def seeded_def) }
next
  case (Suc n)
  { case 1 show ?case using Suc unfolding users_findByEmail_def seeded_Suc
      by (auto simp: find_append row_keys less_Suc_eq split: option.split) }
  { case 2 show ?case using Suc unfolding users_findByEmail_def seeded_Suc
      by (auto simp: find_append row_keys less_Suc_eq split: option.split) }
qed

lemma filter_one: "i < n \<Longrightarrow> filter (\<lambda>j. j = i) [0..<n] = [i]"
  by (induction n) (auto simp: less_Suc_eq)

lemma own_conversation:
  assumes ids: "fresh_ids ids n" and i: "i < n" and u: "u \<in> {ids i 0, ids i 1}"
    and w: "w_parts w = w_parts (seeded hash t ids n)" "w_convs w = w_convs (seeded hash t ids n)"
  shows "listForUser u 30 w = [pair_conv hash t ids i]"
proof -
  have mine: "list_ex (\<lambda>p. pt_conversationId p = ids j 3 \<and> pt_userId p = u \<and> pt_leftAt p = None)
      (w_parts (seeded hash t ids n)) \<longleftrightarrow> j = i" if "j < n" for j
    using fresh_idsD [OF ids] that i u by (auto simp: seeded_def list_ex_iff new_part_def)
  have "filter (\<lambda>c. list_ex (\<lambda>p. pt_conversationId p = cv_id c \<and> pt_userId p = u \<and> pt_leftAt p = None) (w_parts w)) (w_convs w)
      = map (pair_conv hash t ids) (filter (\<lambda>j. j = i) [0..<n])"
    unfolding w by (subst (2) seeded_def)
      (simp add: filter_map o_def row_keys, rule arg_cong [OF filter_cong], simp_all add: mine)
  then show ?thesis by (simp add: listForUser_def filter_one [OF i] row_keys)
qed

text \<open>
  The fan-out load test reaches the pairs that the seed stored and no others. On the database
  that \<open>seed-loadtest.ts n\<close> leaves, virtual user number vu logs in and reads the one conversation of
  its pair when vu <= 2 n, and stops at the login otherwise: its 200 sockets need n = 100, where
  the script's default, 50, leaves half of them unconnected.
\<close>
theorem fanout_reaches_seeded_pairs:
  assumes "fresh_ids ids n" "seed_loadtest hash t ids n empty_world = (Inr (), w)" "1 \<le> vu"
    and "is_email (fanout_email vu)" "length (fanout_email vu) \<le> 255" "verify hash ''Password1234!'' = Some True"
  shows "map_option snd (first_conversation is_email sha sign verify cfg now raw i (fanout_email vu) meta w)
    = (if vu \<le> 2 * n then Some (ids ((vu - 1) div 2) 3) else None)"
proof -
  let ?k = "(vu - 1) div 2"
  have w: "w = seeded hash t ids n" using assms(1,2) seed_loadtest_seeds by simp
  have k: "?k < n \<longleftrightarrow> vu \<le> 2 * n" using assms(3) by linarith
  obtain u where u: "users_findByEmail (fanout_email vu) w = (if ?k < n then Some u else None)"
      "us_id u \<in> {ids ?k 0, ids ?k 1}" "\<not> account_closed u" "us_passwordHash u = hash"
    unfolding w fanout_email_def Let_def
    by (cases "(vu - 1) mod 2 = 0")
      (auto simp: users_seeded row_keys account_closed_def lt_customer_def lt_seller_def seed_user_def)
  have tokens: "w_tokens w = []" by (simp add: w seeded_def empty_world_def)
  show ?thesis
  proof (cases "?k < n")
    case True
    have "listForUser (us_id u) 30 (w\<lparr>w_tokens := ts\<rparr>) = [pair_conv hash t ids ?k]" for ts
      using own_conversation [OF assms(1) True u(2)] by (simp add: w)
    then show ?thesis
      using True k u assms(4,5,6)
      by (simp add: first_conversation_def login_post_def valid_login_def auth_login_def verifyPassword_def
          issueSession_def issue_def insert_row_def tokens Let_def conversations_list_def jwt_payload_def row_keys)
  next
    case False
    then show ?thesis
      using k u(1) by (simp add: first_conversation_def login_post_def auth_login_def)
  qed
qed

theorem fanout_reaches_seeded_pairs_witness:
  "\<exists>w. seed_loadtest ''h'' 1 counted_ids 50 empty_world = (Inr (), w)
     \<and> map_option snd (first_conversation (\<lambda>_. True) id (\<lambda>_ _. ''jwt'') (\<lambda>_ _. Some True) default_config 5 ''r'' ''i''
           (fanout_email 3) sample_meta w) = Some (counted_ids 1 3)
     \<and> first_conversation (\<lambda>_. True) id (\<lambda>_ _. ''jwt'') (\<lambda>_ _. Some True) default_config 5 ''r'' ''i''
           (fanout_email 101) sample_meta w = None"
proof -
  have short: "length (fanout_email 3) \<le> 255" "length (fanout_email 101) \<le> 255" by code_simp+
  note reach = fanout_reaches_seeded_pairs [OF counted_ids_fresh [of 50] seed_loadtest_seeds [OF counted_ids_fresh [of 50]],
      where hash = "''h''" and t = 1 and is_email = "\<lambda>_. True" and verify = "\<lambda>_ _. Some True"]
  show ?thesis
    using reach [of 3] reach [of 101] short seed_loadtest_seeds [OF counted_ids_fresh, where n = 50 and hash = "''h''" and t = 1]
    by (intro exI conjI) simp_all
qed

end
