(* ===== verification/Spec2Isabelle.thy ===== *)
theory Spec2Isabelle
  imports Modules Processes Worker Concurrency Entities History Client Seeds
begin

text \<open>
  A verification development for the messaging service of the repository: the NestJS server
  under src/backend and the dedicated socket gateway under src/ws-gateway. Customers and
  sellers exchange messages about an order; support and administrators moderate. Text is
  redacted by a scanner, encrypted at rest, numbered per conversation and stored together
  with an event in an outbox; a worker delivers the events (NATS, mail, search index), two
  socket gateways push to clients, and conversations may be end-to-end encrypted (MLS).

  \<^bold>\<open>How the program is modelled.\<close>

  \<^item> The state of the server is the record \<open>world\<close> (World): one field per table (the list of its
    rows in insertion order, each row a record with the entity's columns), the counters and
    sets in Redis, the caches and buffers of the process, and what has left the server (sent
    mails, NATS messages, indexed documents, uploaded objects, socket emissions). Ids are
    strings, times are integers in milliseconds, and the database's random and current values
    are arguments of the operations.
  \<^item> A fallible operation maps a world to \<open>(exn + result) \<times> world\<close>: \<open>Inl\<close> carries the exception the
    code throws (Prelude: \<open>exn\<close>), and the world next to it keeps the effects that happened
    before. \<open>transact\<close> is \<open>dataSource.transaction\<close>: it restores the tables when its body fails,
    and nothing but the tables.
  \<^item> Unique constraints are predicates \<open>*_clash\<close> that an insertion tests, so a violated constraint
    is the branch \<open>DbError ''23505''\<close>. \<open>schema_ok\<close> says that the stored tables satisfy them.
  \<^item> Third-party code is a parameter: AES-256-GCM and the AWS KMS client (\<open>crypto_env\<close>, with the
    law \<open>aead_ok\<close>: decryption inverts encryption under the same key and associated data), argon2,
    SHA-256 and the JWT library (functions of \<open>auth_*\<close> and of the gateways), the matching and
    highlighting of the search engine (\<open>search_env\<close>), the S3 signatures (\<open>s3_env\<close>), SMTP and NATS
    (\<open>delivery_env\<close>: whether a call succeeds). Each law on them is a hypothesis of the theorem that
    uses it, and the witness instantiates the parameter by a function (\<open>toy_env\<close>, \<open>toy_kms\<close>,
    \<open>sample_engine\<close>, \<open>sample_s3\<close>, \<open>sample_delivery\<close>).

  \<^bold>\<open>Theories\<close>, each on the ones before it that it calls; paths are under src/backend/src unless
  they begin with ws-gateway.

  \<^item> Prelude: exceptions, transactions, updates of rows, generic lemmas and the two collections
    \<open>table_simps\<close> and \<open>inv_intros\<close>.
  \<^item> Js_Text: JavaScript's \<open>trim\<close>, \<open>split\<close>, \<open>parseInt\<close>, \<open>toLowerCase\<close> and regular expressions: \<open>re\<close> with the
    backtracking matcher \<open>m_re\<close> (ordered alternatives, greedy repetitions, word boundaries, anchors)
    and global replacement \<open>replace_g\<close>.
  \<^item> World: entities (modules/*/entities), unique constraints (database/migrations), configuration.
  \<^item> Platform: common/ (\<open>uuid_pipe\<close>, \<open>roles_guard\<close>, \<open>exception_filter\<close>), the origin check of main.ts, the
    audit log, metrics, and the two fixed-window rate limiters (realtime gateway, ws-gateway).
  \<^item> Access: orders, users, conversations and the guard. \<open>assertCanAccess\<close> is the decision that
    every other component relies on; \<open>getOrCreateForOrder\<close> with the race it recovers from.
  \<^item> Samples: the small world used by the witnesses.
  \<^item> Realtime: realtime.service.ts, the rooms and the emissions.
  \<^item> Crypto: the local and AWS key providers, and the envelope (\<open>encrypt\<close>, \<open>decrypt\<close>, the cache of data keys).
  \<^item> Scanner: content-scanner.service.ts, the five expressions with their callbacks, Luhn, the flags.
  \<^item> Messages: messages.service.ts and its controller: \<open>messages_send\<close> (replay, redaction, encryption,
    number, outbox event, in one transaction), \<open>messages_list\<close>, \<open>markRead\<close>, \<open>softDelete\<close>.
  \<^item> Invariants: \<open>inv\<close>, unique keys and gap-free numbering, and its frame lemmas.
  \<^item> Sessions: modules/auth: issue, rotation with replay detection, revocation, login, cookies.
  \<^item> Moderation, Presence, Search, E2ee, Attachments, Privacy: the modules of these names.
  \<^item> Outbox: outbox.worker.ts with the mail, notification and NATS services it calls.
  \<^item> Api: \<open>api_step\<close>, the step relation with one rule per handler of the controllers and one for a
    tick of the worker.
  \<^item> Gateway: realtime.gateway.ts as a node of sockets; \<open>gw_step\<close> interleaves its handlers, the delivery of
    emissions and the steps of the server.
  \<^item> Ws_Gateway: ws-gateway/src (server.ts, auth.ts, nats-consumer.ts, rate-limit.ts).
  \<^item> Startup: config/env.validation.ts, the options read from it (\<open>config_of\<close>), the connections of NATS,
    OpenSearch and CloudWatch, and \<open>bootstrap\<close>, the start of a process.
  \<^item> Requests: JwtStrategy and JwtAuthGuard, the exception filter around a handler (\<open>http_run\<close>), the
    request's log line, tracing spans, the health probe, the socket server's origin check.
  \<^item> Routes: the decorators of the controllers as a table of routes with their guards, roles and
    throttling; \<open>run_guards\<close> is what runs before a handler. Modules: the module graph and the
    constructors' needs.
  \<^item> Processes: both processes as they start (main.ts, ws-gateway/src/server.ts): the options of every
    client of Redis and NATS, the options of the HTTP server, the gateway's consumer and its end.
  \<^item> Worker: the loop of the outbox worker around its batches: delays, the flag against overlapping
    ticks, a batch whose transaction is lost.
  \<^item> Concurrency: the transaction of a send as its statements (\<open>advance\<close>), row locks and waiting
    (\<open>waits_for\<close>), and \<open>send_step\<close>, any number of sends interleaved.
  \<^item> Migrations: database/migrations as data, and a model of PostgreSQL's data definition that runs
    (\<open>migrate\<close>) and reverts (\<open>revert\<close>) them. Schema: the rows of the model as rows of the migrated
    tables. Entities: the decorators of the entity classes and database/data-source.ts.
  \<^item> History: what no operation of the server undoes: references, messages, the log of a conversation.
  \<^item> Client: src/frontend-demo/app.js, the page with its pending calls; \<open>client_step\<close> is one event.
  \<^item> Seeds: database/seed.ts and seed-loadtest.ts, and the accounts that src/loadtest/k6 uses.
  \<^item> This theory: the chain from a send to the sockets of the dedicated gateway.

  \<^bold>\<open>Interfaces.\<close> A contract shared by two components is a locale, interpreted on the definitions
  of the code: \<open>access_control\<close> (Access: \<open>conv_access\<close> for the service, \<open>guard\<close> for the guard),
  \<open>rate_limiter\<close> (Platform: \<open>limiter\<close> and \<open>gateway_limiter\<close>), \<open>kms_provider\<close> (Crypto: \<open>kms\<close>), \<open>sequenced_log\<close>
  (Messages: \<open>msg_log\<close>; E2ee: \<open>mls_log\<close>), \<open>presence_store\<close> (Presence: \<open>store\<close>), \<open>document_store\<close> (Search:
  \<open>docs\<close>) and \<open>event_consumer\<close> (Outbox: \<open>worker\<close>). \<open>access_law\<close> and \<open>service_law\<close> (Api) are the contract
  of a relation between worlds that every service respects: their lemmas lift it to controllers,
  steps and histories, for \<open>sound\<close> (Api: \<open>keeps\<close>), \<open>quiet\<close> and \<open>extends\<close> (History: \<open>still\<close>, \<open>log\<close>).

  \<^bold>\<open>What the lemmas show.\<close>

  \<^item> Numbering and keys: every send keeps 1, 2, 3, ... per conversation and the unique keys
    (\<open>sends_keep_numbering\<close>), MLS messages likewise (\<open>mls_numbering_kept\<close>), and every step of the
    server keeps the whole invariant (\<open>server_keeps_invariants\<close>).
  \<^item> Concurrency: any interleaving of sends equals a sequence of atomic ones
    (\<open>concurrent_sends_serialise\<close>) and ends without deadlock (\<open>concurrent_sends_finish\<close>).
  \<^item> History: messages are append-only (\<open>messages_are_append_only\<close>), the server refines a log per
    conversation (\<open>conversation_log_grows\<close>), references never dangle (\<open>references_stay_valid\<close>).
  \<^item> Schema: the migrations run and revert (\<open>migrations_round_trip\<close>); rows fit the types and checks
    (\<open>rows_fit_schema\<close>); the uniqueness kept is the one declared (\<open>model_keeps_declared_keys\<close>); the
    entities agree with the schema but for the column of \<open>displayName\<close> (\<open>entities_match_schema\<close>).
  \<^item> Client: no markup is injected, only the current conversation is displayed, and an opened
    page shows the server's list in order.
  \<^item> Sending: refused exactly unless permitted, idempotent, free of clashes, and readable
    afterwards as redacted (\<open>sent_message_is_listed\<close>), pushed by either gateway
    (\<open>sent_message_pushed\<close>, \<open>sent_message_reaches_sockets\<close>).
  \<^item> Access: the decision as a closed formula (\<open>access_decision\<close>); sockets receive frames of a room
    only when entitled to it (\<open>frames_reach_only_entitled\<close>); search returns only the caller's
    conversations; only the sender erases.
  \<^item> Delivery: the outbox delivers at least once and its backlog drains; mails go to recipients
    that are offline. The worker always comes to rest (\<open>worker_goes_idle\<close>), and a lost batch is
    taken again (\<open>lost_batch_retried\<close>).
  \<^item> Cryptography: envelopes open to what was sealed, also after a rotation of the master key or a
    restart with the same keys (\<open>restart_keeps_messages\<close>), and the cache of data keys does not change
    a result.
  \<^item> Requests: what a protected route answers (\<open>protected_route\<close>) and that an accepted message bears
    the identity of the token (\<open>posted_as_token_subject\<close>); the environment is typed or refused.
  \<^item> Routes: no handler is reached past its guards (\<open>routes_guarded\<close>), and no request matches two
    routes (\<open>one_route_per_request\<close>); the framework can assemble the modules
    (\<open>application_assembles\<close>).
  \<^item> Processes: the API and the gateway meet on the same Redis, the same servers of NATS and the
    same stream, and which client's options differ (\<open>processes_share_brokers\<close>).
  \<^item> Text: what the scanner returns is the composition of its stages with exactly their flags;
    cookies, filenames and identifiers are compared with plain reference definitions.
  \<^item> Sessions, key packages: single use; and what happens when two statements of a rotation
    interleave.
  \<^item> Behaviour that a reader of the code may not expect is stated as it is: \<open>dedicated_join_unchecked\<close>,
    \<open>open_by_order_unchecked\<close>, \<open>concurrent_rotation_forks\<close>, \<open>pending_for_ever\<close>, \<open>access_never_withdrawn\<close>,
    \<open>aws_sends_fail\<close>, \<open>accounts_need_missing_column\<close>, \<open>reporter_cannot_be_nulled\<close>,
    \<open>encrypted_send_blocks_rollback\<close>, \<open>late_answer_empties_page\<close>, and lemmas such as \<open>card_before_expiry_missed\<close> or \<open>lost_race_not_recovered\<close>.

  \<^bold>\<open>Bounds.\<close> No definition uses fuel: loops are structural recursions, folds, or functions with a
  measure (the matcher by the size of the expression and the length of the rest, chunks by the items
  left); the loop of the worker is \<open>while_option\<close>, proved to end. The final schema is computed from the
  migrations by evaluation (\<open>migrated_tables\<close>). The limits of the code are kept: 100 messages and 500 MLS messages per page, batches of
  the worker, 100 key packages, 20 metrics per call, 128 characters of an
  idempotency key and of a key identifier, the 32-bit column \<open>total_cents\<close>.

  \<^bold>\<open>Accounts and the migrated schema.\<close> TypeORM would call the column of \<open>User.displayName\<close> by that
  name, and the migrations create \<open>display_name\<close>: \<open>accounts_need_missing_column\<close> states what follows.
  Everywhere else the operations on accounts are modelled as the code means them, on a table that
  has the column.

  \<^bold>\<open>Not modelled.\<close> The execution of the framework's middleware and throttling (the module graph and
  the routes are data here), and class-validator (validated inputs are the \<open>valid_*\<close> predicates of
  the DTOs); what JetStream delivers again; indexes that are not unique and the deletion of rows that foreign keys would cascade (the server deletes no row that another one
  refers to); the logger and the OpenTelemetry exporters (output only); the adapter that joins
  Socket.IO instances through Redis (the sockets of all instances are one set here); failures of
  Redis; the schedules and measurements of the load tests. Concurrent transactions are modelled for
  sends, and where the code splits an operation into statements on which a claim depends (rotation
  of a token, disconnection, creation of a conversation); elsewhere a handler is one step.
\<close>

section \<open>From a send to the sockets of the dedicated gateway\<close>

lemma sent_event:
  assumes "messages_send env k cfg t0 t ry inp w = (Inr d, w1)" "find_replay inp w = None"
  obtains r where "r \<in> set (w_outbox w1)" "ob_id r = ry_outboxId ry" "ob_eventType r = ''message.created''"
    "ob_processedAt r = None" "ob_nextAttemptAt r = t"
    "ob_payload r = Created \<lparr>cp_messageId = ms_id d, cp_conversationId = si_conversationId inp,
       cp_senderId = si_senderId inp, cp_sequence = ms_sequence d, cp_createdAt = ms_createdAt d,
       cp_body = cleaned_text inp, cp_moderationFlags = ms_moderationFlags d,
       cp_recipients = map pt_userId (filter (\<lambda>p. pt_userId p \<noteq> si_senderId inp)
         (listParticipants (si_conversationId inp) w))\<rparr>"
    "\<forall>x \<in> set (w_outbox w1). ob_id x = ry_outboxId ry \<longrightarrow> x = r"
proof -
  from assms(1,2) obtain sb conv wa wb m where s: "db wa = db w" "db w1 = db wb"
    "cv_id conv = si_conversationId inp"
    "store_message t ry inp (scan (js_trim (si_body inp))) sb conv wa = Inr (m, wb)"
    "d = strip_cipher m (cleaned_text inp)"
    and m: "m = new_message t ry inp (scan (js_trim (si_body inp))) sb (cv_lastSequence conv + 1)"
    by (rule messages_send_new)
  define r where "r = new_event t ry inp (scan (js_trim (si_body inp))) m (cv_id conv) wa"
  have box: "w_outbox w1 = w_outbox w @ [r]"
    using store_message_Inr(5) [OF s(4)] db_eqD(7) [OF s(1)] db_eqD(7) [OF s(2)] by (simp add: r_def)
  have id: "ob_id r = ry_outboxId ry" by (simp add: r_def new_event_def new_outbox_def)
  have "\<forall>x \<in> set (w_outbox w1). ob_id x = ry_outboxId ry \<longrightarrow> x = r"
    using store_message_Inr(6) [OF s(4)] db_eqD(7) [OF s(1)] id box
    by (auto simp: outbox_clash_def r_def [symmetric])
  moreover have "others_of inp (cv_id conv) wa = filter (\<lambda>p. pt_userId p \<noteq> si_senderId inp)
      (listParticipants (si_conversationId inp) w)"
    using db_eqD(4) [OF s(1)] by (simp add: others_of_def listParticipants_def s(3))
  ultimately show thesis
    using that [of r] box id
    by (simp add: r_def new_event_def new_outbox_def created_event_def s(5) m strip_cipher_def
        new_message_def cleaned_text_def)
qed

text \<open>
  C5: the chain from a client's message to the sockets of the dedicated gateway: a successful
  send leaves exactly one event under its identifier, due at once; when a worker with NATS
  enabled handles it, at any later time, the stream holds a message whose consumption pushes
  the redacted text with the message's number to every socket open in the conversation's room.
\<close>

theorem sent_message_reaches_sockets:
  assumes "messages_send env k cfg t0 t ry inp w = (Inr d, w1)" "find_replay inp w = None"
  shows "\<exists>r \<in> set (w_outbox w1). ob_processedAt r = None \<and> ob_nextAttemptAt r = t
    \<and> (\<forall>x \<in> set (w_outbox w1). ob_id x = ry_outboxId ry \<longrightarrow> x = r)
    \<and> (\<forall>dv cfg2 t2 w2 w3. nats_isEnabled cfg2 w2 \<and> outbox_handle dv cfg2 t2 r w2 = (Inr (), w3) \<longrightarrow>
         (\<exists>m \<in> set (w_nats w3). na_msgId m = ry_outboxId ry
            \<and> (\<forall>nd. consume_msg (wire m) nd = (Acked, nd\<lparr>ws_sent := ws_sent nd @
                 map (\<lambda>s. (so_id s, W_created (Some (ms_id d)) (si_conversationId inp) (Some (si_senderId inp))
                       (Some (ms_sequence d)) (Some (cleaned_text inp)) (Some (ms_createdAt d))
                       (ms_moderationFlags d)))
                   (ws_room (roomForConversation (si_conversationId inp)) nd)\<rparr>))))"
proof -
  obtain r where r: "r \<in> set (w_outbox w1)" "ob_id r = ry_outboxId ry" "ob_eventType r = ''message.created''"
    "ob_processedAt r = None" "ob_nextAttemptAt r = t"
    "ob_payload r = Created \<lparr>cp_messageId = ms_id d, cp_conversationId = si_conversationId inp,
       cp_senderId = si_senderId inp, cp_sequence = ms_sequence d, cp_createdAt = ms_createdAt d,
       cp_body = cleaned_text inp, cp_moderationFlags = ms_moderationFlags d,
       cp_recipients = map pt_userId (filter (\<lambda>p. pt_userId p \<noteq> si_senderId inp)
         (listParticipants (si_conversationId inp) w))\<rparr>"
    "\<forall>x \<in> set (w_outbox w1). ob_id x = ry_outboxId ry \<longrightarrow> x = r"
    using assms by (rule sent_event)
  have "\<exists>m \<in> set (w_nats w3). na_msgId m = ry_outboxId ry
            \<and> (\<forall>nd. consume_msg (wire m) nd = (Acked, nd\<lparr>ws_sent := ws_sent nd @
                 map (\<lambda>s. (so_id s, W_created (Some (ms_id d)) (si_conversationId inp) (Some (si_senderId inp))
                       (Some (ms_sequence d)) (Some (cleaned_text inp)) (Some (ms_createdAt d))
                       (ms_moderationFlags d)))
                   (ws_room (roomForConversation (si_conversationId inp)) nd)\<rparr>))"
    if "nats_isEnabled cfg2 w2" "outbox_handle dv cfg2 t2 r w2 = (Inr (), w3)" for dv cfg2 t2 w2 w3
    using published_event_pushed [OF that(2,1) r(6,3)] by (simp add: r(2))
  with r show ?thesis by blast
qed

theorem sent_message_reaches_sockets_witness:
  "\<exists>d w1 r. sample_send sample_hello sample_world = (Inr d, w1) \<and> r \<in> set (w_outbox w1) \<and> ob_processedAt r = None"
proof -
  obtain d w' c where send: "sample_send sample_hello sample_world = (Inr d, w')" by (rule sample_sent)
  have "find_replay sample_hello sample_world = None" by (simp add: find_replay_def sample_defs)
  from sent_message_reaches_sockets [OF send [unfolded sample_send_def] this] send show ?thesis by blast
qed

end
